(* ===== verification/Prelude.thy ===== *)
theory Prelude
  imports Main "HOL-Library.Sublist"
begin

text \<open>
  Shared vocabulary of the development: the named collections the component
  theories feed, and generic facts on lists, association lists and options that
  the proofs of several components use.
\<close>

named_theorems js_simps \<open>evaluation equations of the JavaScript primitives\<close>
named_theorems shape_simps \<open>facts about the shape of the objects the program builds\<close>

type_synonym key = string

section \<open>Association lists as JavaScript objects\<close>

text \<open>
  A JavaScript object is an ordered list of properties. Reading a property
  takes the first binding (\<open>map_of\<close>); assigning one replaces it in place when
  it exists and appends it otherwise, which is the order JavaScript keeps.
\<close>

fun put_prop :: "key \<Rightarrow> 'v \<Rightarrow> (key \<times> 'v) list \<Rightarrow> (key \<times> 'v) list" where
  "put_prop k v [] = [(k, v)]"
| "put_prop k v ((k', v') # kvs) =
     (if k' = k then (k, v) # kvs else (k', v') # put_prop k v kvs)"

lemma map_of_put_prop [simp]:
  "map_of (put_prop k v kvs) j = (if j = k then Some v else map_of kvs j)"
  by (induction k v kvs rule: put_prop.induct) auto

lemma keys_put_prop [simp]:
  "set (map fst (put_prop k v kvs)) = insert k (set (map fst kvs))"
  by (induction k v kvs rule: put_prop.induct) auto

lemma put_prop_put_prop [simp]:
  "put_prop k v (put_prop k w kvs) = put_prop k v kvs"
  by (induction k w kvs rule: put_prop.induct) auto

lemma put_prop_same:
  "map_of kvs k = Some v \<Longrightarrow> put_prop k v kvs = kvs"
  by (induction k v kvs rule: put_prop.induct) (auto split: if_splits)

section \<open>Strings joined by a delimiter\<close>

text \<open>
  A key built by joining fields with a delimiter determines its fields when all
  fields but one are free of the delimiter: the split is found from the side of
  the fields that do not contain it.
\<close>

lemma append_sep_left_inj:
  assumes "c \<notin> set a1" and "c \<notin> set a2" and "a1 @ c # b1 = a2 @ c # b2"
  shows "a1 = a2 \<and> b1 = b2"
  using assms
proof (induction a1 arbitrary: a2)
  case Nil
  then show ?case by (cases a2) auto
next
  case (Cons x xs)
  then show ?case by (cases a2) auto
qed

lemma append_sep_right_inj:
  assumes "c \<notin> set b1" and "c \<notin> set b2" and "a1 @ c # b1 = a2 @ c # b2"
  shows "a1 = a2 \<and> b1 = b2"
proof -
  from arg_cong [OF assms(3), of rev] have "rev b1 @ c # rev a1 = rev b2 @ c # rev a2"
    by simp
  from append_sep_left_inj [OF _ _ this] assms(1,2) show ?thesis by simp
qed

section \<open>Lists\<close>

lemma ball_dropWhile: "(\<forall>x\<in>set (dropWhile P xs). P x) \<longleftrightarrow> (\<forall>x\<in>set xs. P x)"
  by (induction xs) auto

end
