(* ===== verification/JS_Value.thy ===== *)
theory JS_Value
  imports Prelude
begin

text \<open>
  The JavaScript values that the service worker reads from its inputs (parsed
  JSON bodies, the settings store, the messages of the content script) and the
  primitive operations of the language it applies to them. Every primitive that
  throws in JavaScript returns \<open>Inl\<close> of an error here, so that the models of the
  handlers can show which inputs make them throw.

  Approximations, all on values this program never meets on its normal paths:
  numbers are integers (the program only reads counts and lengths); strings are
  byte lists (their UTF-8 form), so \<open>toLowerCase\<close> and \<open>\s\<close> act on ASCII only; the
  numeric conversion of arrays and objects is taken as NaN; \<open>get\<close> reads named
  properties and \<open>idx\<close> numeric ones.
\<close>

datatype jval =
    JUndef
  | JNull
  | JBool bool
  | JNum int
  | JStr string
  | JArr "jval list"
  | JObj "(key \<times> jval) list"

datatype js_error = TypeError | SyntaxError | NetworkError | Thrown string

type_synonym 'a js = "js_error + 'a"

definition js_bind :: "'a js \<Rightarrow> ('a \<Rightarrow> 'b js) \<Rightarrow> 'b js" where
  "js_bind m f = (case m of Inl e \<Rightarrow> Inl e | Inr a \<Rightarrow> f a)"

section \<open>Truthiness, typeof, conversions\<close>

fun truthy :: "jval \<Rightarrow> bool" where
  "truthy JUndef = False"
| "truthy JNull = False"
| "truthy (JBool b) = b"
| "truthy (JNum n) = (n \<noteq> 0)"
| "truthy (JStr s) = (s \<noteq> [])"
| "truthy (JArr xs) = True"
| "truthy (JObj kvs) = True"

text \<open>\<open>a || b\<close>: the first operand when it is truthy, else the second.\<close>

definition js_or :: "jval \<Rightarrow> jval \<Rightarrow> jval" where
  "js_or a b = (if truthy a then a else b)"

fun typeof :: "jval \<Rightarrow> string" where
  "typeof JUndef = ''undefined''"
| "typeof JNull = ''object''"
| "typeof (JBool b) = ''boolean''"
| "typeof (JNum n) = ''number''"
| "typeof (JStr s) = ''string''"
| "typeof (JArr xs) = ''object''"
| "typeof (JObj kvs) = ''object''"

definition digit_char :: "nat \<Rightarrow> char" where
  "digit_char d = char_of (48 + d)"

fun nat_str :: "nat \<Rightarrow> string" where
  "nat_str n = (if n < 10 then [digit_char n] else nat_str (n div 10) @ [digit_char (n mod 10)])"

definition int_str :: "int \<Rightarrow> string" where
  "int_str i = (if i < 0 then CHR ''-'' # nat_str (nat (- i)) else nat_str (nat i))"

text \<open>\<open>strs.join(sep)\<close>.\<close>

fun join_with :: "string \<Rightarrow> string list \<Rightarrow> string" where
  "join_with sep [] = []"
| "join_with sep [s] = s"
| "join_with sep (s # ss) = s @ sep @ join_with sep ss"

text \<open>\<open>String(v)\<close>, as a template literal \<open>`${v}`\<close> applies it.\<close>

fun js_to_string :: "jval \<Rightarrow> string" where
  "js_to_string JUndef = ''undefined''"
| "js_to_string JNull = ''null''"
| "js_to_string (JBool b) = (if b then ''true'' else ''false'')"
| "js_to_string (JNum n) = int_str n"
| "js_to_string (JStr s) = s"
| "js_to_string (JArr xs) =
     join_with '','' (map (\<lambda>x. if x = JUndef \<or> x = JNull then [] else js_to_string x) xs)"
| "js_to_string (JObj kvs) = ''[object Object]''"

definition is_digit :: "char \<Rightarrow> bool" where
  "is_digit c = (c \<in> set ''0123456789'')"

fun digits_val :: "string \<Rightarrow> nat \<Rightarrow> nat option" where
  "digits_val [] acc = Some acc"
| "digits_val (c # cs) acc =
     (if is_digit c then digits_val cs (10 * acc + (of_char c - 48)) else None)"

text \<open>\<open>Number(s)\<close> for decimal integer strings; \<open>None\<close> is NaN.\<close>

definition str_to_int :: "string \<Rightarrow> int option" where
  "str_to_int s =
     (case s of
        [] \<Rightarrow> Some 0
      | c # ds \<Rightarrow>
          if c = CHR ''-'' then (if ds = [] then None else map_option (\<lambda>n. - int n) (digits_val ds 0))
          else map_option int (digits_val s 0))"

fun to_num :: "jval \<Rightarrow> int option" where
  "to_num JUndef = None"
| "to_num JNull = Some 0"
| "to_num (JBool b) = Some (if b then 1 else 0)"
| "to_num (JNum n) = Some n"
| "to_num (JStr s) = str_to_int s"
| "to_num (JArr xs) = None"
| "to_num (JObj kvs) = None"

fun str_less :: "string \<Rightarrow> string \<Rightarrow> bool" where
  "str_less [] (b # bs) = True"
| "str_less as [] = False"
| "str_less (a # as) (b # bs) = (of_char a < (of_char b :: nat) \<or> (a = b \<and> str_less as bs))"

text \<open>\<open>a > b\<close>: strings compare by code units, everything else as numbers (NaN compares false).\<close>

fun js_gt :: "jval \<Rightarrow> jval \<Rightarrow> bool" where
  "js_gt (JStr a) (JStr b) = str_less b a"
| "js_gt a b = (case (to_num a, to_num b) of (Some x, Some y) \<Rightarrow> y < x | _ \<Rightarrow> False)"

section \<open>Property access\<close>

definition prop_of :: "(key \<times> jval) list \<Rightarrow> key \<Rightarrow> jval" where
  "prop_of kvs k = (case map_of kvs k of None \<Rightarrow> JUndef | Some v \<Rightarrow> v)"

text \<open>\<open>v.k\<close> for a named property \<open>k\<close>: a TypeError on \<open>undefined\<close> and \<open>null\<close>.\<close>

fun get :: "jval \<Rightarrow> key \<Rightarrow> jval js" where
  "get JUndef k = Inl TypeError"
| "get JNull k = Inl TypeError"
| "get (JBool b) k = Inr JUndef"
| "get (JNum n) k = Inr JUndef"
| "get (JStr s) k = Inr (if k = ''length'' then JNum (int (length s)) else JUndef)"
| "get (JArr xs) k = Inr (if k = ''length'' then JNum (int (length xs)) else JUndef)"
| "get (JObj kvs) k = Inr (prop_of kvs k)"

text \<open>\<open>v[i]\<close> for a numeric index \<open>i\<close>.\<close>

fun idx :: "jval \<Rightarrow> nat \<Rightarrow> jval js" where
  "idx JUndef i = Inl TypeError"
| "idx JNull i = Inl TypeError"
| "idx (JBool b) i = Inr JUndef"
| "idx (JNum n) i = Inr JUndef"
| "idx (JStr s) i = Inr (if i < length s then JStr [s ! i] else JUndef)"
| "idx (JArr xs) i = Inr (if i < length xs then xs ! i else JUndef)"
| "idx (JObj kvs) i = Inr (prop_of kvs (nat_str i))"

section \<open>Arrays\<close>

fun map_js :: "('a \<Rightarrow> 'b js) \<Rightarrow> 'a list \<Rightarrow> 'b list js" where
  "map_js f [] = Inr []"
| "map_js f (x # xs) = js_bind (f x) (\<lambda>y. js_bind (map_js f xs) (\<lambda>ys. Inr (y # ys)))"

text \<open>\<open>xs.map(f)\<close>: a TypeError on anything but an array.\<close>

fun js_map :: "(jval \<Rightarrow> 'b js) \<Rightarrow> jval \<Rightarrow> 'b list js" where
  "js_map f (JArr xs) = map_js f xs"
| "js_map f v = Inl TypeError"

fun find_js :: "(jval \<Rightarrow> bool js) \<Rightarrow> jval list \<Rightarrow> jval js" where
  "find_js p [] = Inr JUndef"
| "find_js p (x # xs) = js_bind (p x) (\<lambda>b. if b then Inr x else find_js p xs)"

text \<open>\<open>xs.find(p)\<close>: the first element \<open>p\<close> accepts, \<open>undefined\<close> if none.\<close>

fun js_find :: "(jval \<Rightarrow> bool js) \<Rightarrow> jval \<Rightarrow> jval js" where
  "js_find p (JArr xs) = find_js p xs"
| "js_find p v = Inl TypeError"

definition is_array :: "jval \<Rightarrow> bool" where
  "is_array v = (case v of JArr xs \<Rightarrow> True | _ \<Rightarrow> False)"

text \<open>The end position of \<open>slice(0, c)\<close> on a sequence of length \<open>len\<close>.\<close>

definition slice_end :: "nat \<Rightarrow> jval \<Rightarrow> nat" where
  "slice_end len c =
     (case to_num c of
        None \<Rightarrow> 0
      | Some n \<Rightarrow> if n < 0 then nat (max 0 (int len + n)) else min (nat n) len)"

fun js_slice0 :: "jval \<Rightarrow> jval \<Rightarrow> jval js" where
  "js_slice0 (JArr xs) c = Inr (JArr (take (slice_end (length xs) c) xs))"
| "js_slice0 (JStr s) c = Inr (JStr (take (slice_end (length s) c) s))"
| "js_slice0 v c = Inl TypeError"

text \<open>\<open>[...v]\<close>: arrays and strings are iterable, everything else throws.\<close>

fun spread_array :: "jval \<Rightarrow> jval list js" where
  "spread_array (JArr xs) = Inr xs"
| "spread_array (JStr s) = Inr (map (\<lambda>c. JStr [c]) s)"
| "spread_array v = Inl TypeError"

text \<open>\<open>{...v}\<close>: the own enumerable properties of \<open>v\<close>.\<close>

fun spread_obj :: "jval \<Rightarrow> (key \<times> jval) list" where
  "spread_obj (JObj kvs) = kvs"
| "spread_obj (JArr xs) = zip (map nat_str [0..<length xs]) xs"
| "spread_obj (JStr s) = zip (map nat_str [0..<length s]) (map (\<lambda>c. JStr [c]) s)"
| "spread_obj v = []"

text \<open>One array or string is an initial part of another (anything else: equal).\<close>

fun seq_prefix :: "jval \<Rightarrow> jval \<Rightarrow> bool" where
  "seq_prefix (JArr xs) (JArr ys) = prefix xs ys"
| "seq_prefix (JStr a) (JStr b) = prefix a b"
| "seq_prefix a b = (a = b)"

section \<open>Strings\<close>

fun js_starts_with :: "jval \<Rightarrow> string \<Rightarrow> bool js" where
  "js_starts_with (JStr s) p = Inr (prefix p s)"
| "js_starts_with v p = Inl TypeError"

text \<open>\<open>s.split(d)[0]\<close> for a one-character separator \<open>d\<close>.\<close>

fun js_split_head :: "jval \<Rightarrow> char \<Rightarrow> jval js" where
  "js_split_head (JStr s) d = Inr (JStr (takeWhile (\<lambda>c. c \<noteq> d) s))"
| "js_split_head v d = Inl TypeError"

fun js_char_at0 :: "jval \<Rightarrow> jval js" where
  "js_char_at0 (JStr s) = Inr (JStr (take 1 s))"
| "js_char_at0 v = Inl TypeError"

text \<open>
  \<open>s.replace(/t1|t2|.../g, '')\<close> with literal alternatives: scanning left to right,
  an occurrence of the first alternative that matches here is removed and the
  scan resumes after it; removed text is not rescanned.
\<close>

function remove_tokens :: "string list \<Rightarrow> string \<Rightarrow> string" where
  "remove_tokens ts [] = []"
| "remove_tokens ts (c # cs) =
     (case filter (\<lambda>t. t \<noteq> [] \<and> prefix t (c # cs)) ts of
        [] \<Rightarrow> c # remove_tokens ts cs
      | t # _ \<Rightarrow> remove_tokens ts (drop (length t) (c # cs)))"
  by pat_completeness auto
termination
proof (relation "measure (\<lambda>(ts, s). length s)")
  fix ts :: "string list" and c :: char and cs :: string and x :: string and xs :: "string list"
  assume "filter (\<lambda>t. t \<noteq> [] \<and> prefix t (c # cs)) ts = x # xs"
  then have "x \<noteq> []" by (metis (mono_tags, lifting) filter_eq_ConsD)
  then show "((ts, drop (length x) (c # cs)), ts, c # cs) \<in> measure (\<lambda>(ts, s). length s)"
    by (cases x) auto
qed auto

fun js_replace_tokens :: "jval \<Rightarrow> string list \<Rightarrow> jval js" where
  "js_replace_tokens (JStr s) ts = Inr (JStr (remove_tokens ts s))"
| "js_replace_tokens v ts = Inl TypeError"

text \<open>\<open>toLowerCase\<close>, on ASCII letters.\<close>

definition lower_char :: "char \<Rightarrow> char" where
  "lower_char c = (if (65::nat) \<le> of_char c \<and> of_char c \<le> (90::nat) then char_of (of_char c + (32::nat)) else c)"

definition to_lower :: "string \<Rightarrow> string" where
  "to_lower s = map lower_char s"

text \<open>The class \<open>\s\<close> of regular expressions, on ASCII.\<close>

definition is_ws :: "char \<Rightarrow> bool" where
  "is_ws c = (c \<in> set [CHR '' '', CHR 0x09, CHR 0x0A, CHR 0x0B, CHR 0x0C, CHR 0x0D])"

text \<open>\<open>s.split(/\s+/).filter(w => w.length > 0)\<close>: the maximal runs of non-space characters.\<close>

function ws_words :: "string \<Rightarrow> string list" where
  "ws_words [] = []"
| "ws_words (c # cs) =
     (if is_ws c then ws_words (dropWhile is_ws cs)
      else takeWhile (\<lambda>x. \<not> is_ws x) (c # cs) # ws_words (dropWhile (\<lambda>x. \<not> is_ws x) cs))"
  by pat_completeness auto
termination
  by (relation "measure length") (auto simp: le_imp_less_Suc length_dropWhile_le)

section \<open>Facts about the primitives\<close>

lemma js_bind_simps [simp, js_simps]:
  "js_bind (Inl e) f = Inl e"
  "js_bind (Inr a) f = f a"
  by (simp_all add: js_bind_def)

lemma js_or_simps [simp, js_simps]:
  "js_or JUndef b = b"
  "js_or JNull b = b"
  "js_or (JBool x) b = (if x then JBool x else b)"
  "js_or (JNum n) b = (if n = 0 then b else JNum n)"
  "js_or (JStr s) b = (if s = [] then b else JStr s)"
  "js_or (JArr xs) b = JArr xs"
  "js_or (JObj kvs) b = JObj kvs"
  by (simp_all add: js_or_def)

lemma js_bind_InrE:
  assumes "js_bind m f = Inr b"
  obtains a where "m = Inr a" and "f a = Inr b"
  using assms by (cases m) auto

lemma get_obj_spread: "y = JObj (spread_obj y) \<Longrightarrow> get y k = Inr (prop_of (spread_obj y) k)"
  by (cases y) auto

lemma js_bind_eq_Inr:
  "js_bind m f = Inr b \<longleftrightarrow> (\<exists>a. m = Inr a \<and> f a = Inr b)"
  by (cases m) auto

lemma prop_of_simps [simp, js_simps]:
  "prop_of [] k = JUndef"
  "prop_of ((k', v) # kvs) k = (if k = k' then v else prop_of kvs k)"
  by (simp_all add: prop_of_def)

lemma prop_of_put_prop [simp]:
  "prop_of (put_prop k v kvs) j = (if j = k then v else prop_of kvs j)"
  by (simp add: prop_of_def)

lemma get_Inr_iff: "(\<exists>r. get v k = Inr r) \<longleftrightarrow> v \<noteq> JUndef \<and> v \<noteq> JNull"
  by (cases v) auto

lemma get_truthy [simp]: "truthy v \<Longrightarrow> get v k \<noteq> Inl e"
  by (cases v) auto

lemma map_js_Inr:
  "(\<And>x. x \<in> set xs \<Longrightarrow> f x = Inr (g x)) \<Longrightarrow> map_js f xs = Inr (map g xs)"
  by (induction xs) auto

lemma map_js_map_Inr:
  "(\<And>x. x \<in> set xs \<Longrightarrow> f (h x) = Inr (g x)) \<Longrightarrow> map_js f (map h xs) = Inr (map g xs)"
  by (induction xs) auto

lemma map_js_length: "map_js f xs = Inr ys \<Longrightarrow> length ys = length xs"
  by (induction xs arbitrary: ys) (auto simp: js_bind_eq_Inr)

lemma map_js_nth:
  "map_js f xs = Inr ys \<Longrightarrow> i < length ys \<Longrightarrow> f (xs ! i) = Inr (ys ! i)"
proof (induction xs arbitrary: ys i)
  case Nil
  then show ?case by simp
next
  case (Cons x xs)
  then show ?case
    by (cases i) (auto simp: js_bind_eq_Inr)
qed

lemma map_js_idem:
  assumes "map_js f xs = Inr ys" and "\<And>x y. x \<in> set xs \<Longrightarrow> f x = Inr y \<Longrightarrow> f y = Inr y"
  shows "map_js f ys = Inr ys"
  using assms
proof (induction xs arbitrary: ys)
  case Nil
  then show ?case by simp
next
  case (Cons x xs)
  from Cons.prems(1) obtain y ys' where y: "f x = Inr y" and ys': "map_js f xs = Inr ys'"
    and ys: "ys = y # ys'"
    by (auto simp: js_bind_eq_Inr)
  have "f y = Inr y" using Cons.prems(2) [of x y] y by simp
  moreover have "map_js f ys' = Inr ys'"
    by (rule Cons.IH [OF ys']) (auto intro: Cons.prems(2))
  ultimately show ?case by (simp add: ys)
qed

lemma js_gt_num_left: "to_num c = Some n \<Longrightarrow> js_gt (JNum a) c = (n < a)"
  by (cases c) auto

lemma slice_end_nonneg: "to_num c = Some (int k) \<Longrightarrow> slice_end len c = min k len"
  by (simp add: slice_end_def)

lemma slice_end_bound:
  assumes "to_num c = Some n" and "0 \<le> n"
  shows "slice_end len c \<le> nat n"
  using assms by (simp add: slice_end_def)

lemma seq_prefix_refl [simp]: "seq_prefix a a"
  by (cases a) auto

lemma ws_words_empty_iff: "ws_words w = [] \<longleftrightarrow> (\<forall>c\<in>set w. is_ws c)"
proof (induction w rule: ws_words.induct)
  case 1
  then show ?case by simp
next
  case (2 c cs)
  then show ?case by (simp add: ball_dropWhile)
qed

lemma ws_words_dropWhile_ws: "ws_words (dropWhile is_ws w) = ws_words w"
  by (induction w) auto

lemma prop_of_Some: "prop_of kvs k = v \<Longrightarrow> v \<noteq> JUndef \<Longrightarrow> map_of kvs k = Some v"
  by (auto simp: prop_of_def split: option.splits)


lemma of_char_digit: "d < 10 \<Longrightarrow> (of_char (digit_char d) :: nat) = 48 + d"
  by (simp add: digit_char_def of_char_of)

lemma nat_str_small: "n < 10 \<Longrightarrow> nat_str n = [digit_char n]"
  by (subst nat_str.simps) (simp del: nat_str.simps)

lemma nat_str_big: "\<not> n < 10 \<Longrightarrow> nat_str n = nat_str (n div 10) @ [digit_char (n mod 10)]"
  by (subst nat_str.simps) (simp del: nat_str.simps)

lemma nat_str_nonempty: "nat_str n \<noteq> []"
  by (cases "n < 10") (simp_all del: nat_str.simps add: nat_str_small nat_str_big)

lemma nat_str_chars: "c \<in> set (nat_str n) \<Longrightarrow> 48 \<le> (of_char c :: nat) \<and> (of_char c :: nat) \<le> 57"
proof (induction n rule: nat_str.induct)
  case (1 n)
  show ?case
  proof (cases "n < 10")
    case True
    with "1.prems" show ?thesis by (auto simp del: nat_str.simps simp: nat_str_small of_char_digit)
  next
    case False
    with "1.prems" have "c \<in> set (nat_str (n div 10)) \<or> c = digit_char (n mod 10)"
      by (simp del: nat_str.simps add: nat_str_big) blast
    with "1.IH" False show ?thesis by (auto simp del: nat_str.simps simp: of_char_digit)
  qed
qed

lemma nat_str_inj: "nat_str m = nat_str n \<Longrightarrow> m = n"
proof (induction m arbitrary: n rule: nat_str.induct)
  case (1 m)
  have dc: "a = b" if "digit_char a = digit_char b" "a < 10" "b < 10" for a b
    using arg_cong [OF that(1), of "of_char :: char \<Rightarrow> nat"] that(2,3) by (simp del: nat_str.simps add: of_char_digit)
  have long: "2 \<le> length (nat_str k)" if "\<not> k < 10" for k
    using that nat_str_nonempty [of "k div 10"]
    by (simp del: nat_str.simps add: nat_str_big Suc_le_eq)
  show ?case
  proof (cases "m < 10"; cases "n < 10")
    assume "m < 10" "n < 10"
    with "1.prems" dc show ?thesis by (simp del: nat_str.simps add: nat_str_small)
  next
    assume "m < 10" "\<not> n < 10"
    then have "nat_str n = [digit_char m]" using "1.prems" by (simp del: nat_str.simps add: nat_str_small)
    then have "length (nat_str n) = 1" by (simp del: nat_str.simps)
    with long [of n] \<open>\<not> n < 10\<close> show ?thesis by (simp del: nat_str.simps)
  next
    assume "\<not> m < 10" "n < 10"
    then have "nat_str m = [digit_char n]" using "1.prems" by (simp del: nat_str.simps add: nat_str_small)
    then have "length (nat_str m) = 1" by (simp del: nat_str.simps)
    with long [of m] \<open>\<not> m < 10\<close> show ?thesis by (simp del: nat_str.simps)
  next
    assume m: "\<not> m < 10" and n: "\<not> n < 10"
    with "1.prems" have "nat_str (m div 10) = nat_str (n div 10)" "digit_char (m mod 10) = digit_char (n mod 10)"
      by (simp_all del: nat_str.simps add: nat_str_big)
    with "1.IH" [OF m] dc have "m div 10 = n div 10" "m mod 10 = n mod 10" by (simp_all del: nat_str.simps)
    then show ?thesis by (metis div_mult_mod_eq)
  qed
qed

end
