(* ===== verification/Entry.thy ===== *)
theory Entry
  imports JS_Value
begin

text \<open>
  The canonical lexical entry of the specification (section 3) as typed records,
  and the JSON object by which the service worker represents it: the object
  \<open>normalizeGeminiData\<close> builds (src/extension/background.js, lines 42-62), with the
  property names and the property order of that code (\<open>word\<close>, \<open>translation\<close>,
  \<open>pos\<close>, \<open>verbs\<close>, \<open>pronunciation\<close>, \<open>definition\<close>). The typed records are the
  abstract level the projection and the adapters are refined against.
\<close>

record example =
  ex_text :: string
  ex_translation :: "string option"

record sense =
  sense_pos :: string
  sense_text :: string
  sense_translation :: "string option"
  sense_examples :: "example list"

record pronunciation =
  pr_lang :: string
  pr_phon :: string
  pr_url :: string

record entry =
  headword :: string
  translation :: "string option"
  parts_of_speech :: "string list"
  inflections :: "string list"
  pronunciations :: "pronunciation list"
  senses :: "sense list"

text \<open>
  The invariant of an adapted entry: parts of speech parallel to the senses, no
  inflections, a non-empty headword and at least one pronunciation slot.
\<close>

definition wf_entry :: "entry \<Rightarrow> bool" where
  "wf_entry e \<longleftrightarrow>
     parts_of_speech e = map sense_pos (senses e) \<and> inflections e = [] \<and>
     headword e \<noteq> [] \<and> pronunciations e \<noteq> []"

section \<open>The JSON representation\<close>

definition opt_json :: "string option \<Rightarrow> jval" where
  "opt_json s = (case s of None \<Rightarrow> JNull | Some t \<Rightarrow> JStr t)"

definition example_json :: "example \<Rightarrow> jval" where
  "example_json x =
     JObj [(''text'', JStr (ex_text x)), (''translation'', opt_json (ex_translation x))]"

definition sense_json :: "sense \<Rightarrow> jval" where
  "sense_json s =
     JObj [(''pos'', JStr (sense_pos s)), (''text'', JStr (sense_text s)),
           (''translation'', opt_json (sense_translation s)),
           (''example'', JArr (map example_json (sense_examples s)))]"

definition pron_json :: "pronunciation \<Rightarrow> jval" where
  "pron_json p = JObj [(''lang'', JStr (pr_lang p)), (''pron'', JStr (pr_phon p)), (''url'', JStr (pr_url p))]"

definition entry_json :: "entry \<Rightarrow> jval" where
  "entry_json e =
     JObj [(''word'', JStr (headword e)), (''translation'', opt_json (translation e)),
           (''pos'', JArr (map JStr (parts_of_speech e))),
           (''verbs'', JArr (map JStr (inflections e))),
           (''pronunciation'', JArr (map pron_json (pronunciations e))),
           (''definition'', JArr (map sense_json (senses e)))]"

lemmas json_defs [shape_simps] = opt_json_def example_json_def sense_json_def pron_json_def entry_json_def

lemma opt_json_simps [simp]: "opt_json None = JNull" "opt_json (Some s) = JStr s"
  by (simp_all add: opt_json_def)

lemma opt_json_inj: "opt_json a = opt_json b \<longleftrightarrow> a = b"
  by (auto simp: opt_json_def split: option.splits)

lemma example_json_inj: "example_json x = example_json y \<longleftrightarrow> x = y"
  by (auto simp: example_json_def opt_json_inj)

lemma sense_json_inj: "sense_json s = sense_json t \<longleftrightarrow> s = t"
  by (auto simp: sense_json_def opt_json_inj example_json_inj inj_def)

end
