(* ===== verification/Gemini.thy ===== *)
theory Gemini
  imports Entry
begin

text \<open>
  Provider B: \<open>normalizeGeminiData\<close> of src/extension/background.js (lines 38-63),
  which turns the payload of the local Gemini proxy into the canonical entry
  object, and a typed description of the payloads the specification documents
  (section 4.1) with the typed adapter that the code refines on them.
\<close>

section \<open>The code\<close>

text \<open>The callback of \<open>firstDef.examples.map\<close> (lines 48-51).\<close>

definition gemini_example :: "jval \<Rightarrow> jval js" where
  "gemini_example ex =
     js_bind (if typeof ex = ''string'' then Inr ex else get ex ''text'') (\<lambda>text.
     js_bind (if typeof ex = ''object'' then get ex ''translation'' else Inr JNull) (\<lambda>tr.
     Inr (JObj [(''text'', text), (''translation'', tr)])))"

text \<open>The callback of \<open>aiData.forms.map\<close> (lines 42-53).\<close>

definition gemini_form :: "jval \<Rightarrow> jval js" where
  "gemini_form form =
     js_bind (get form ''definitions'') (\<lambda>ds.
     js_bind (idx ds 0) (\<lambda>firstDef.
     js_bind (get form ''partOfSpeech'') (\<lambda>pos.
     js_bind (get firstDef ''definition'') (\<lambda>def.
     js_bind (get firstDef ''definitionTranslation'') (\<lambda>dt.
     js_bind (get firstDef ''examples'') (\<lambda>exs.
     js_bind (if truthy exs then js_bind (js_map gemini_example exs) (\<lambda>xs. Inr (JArr xs))
              else Inr (JArr [])) (\<lambda>example.
     Inr (JObj [(''pos'', js_or pos (JStr ''unknown'')),
                (''text'', js_or def (JStr ''No definition text found.'')),
                (''translation'', js_or dt JNull),
                (''example'', example)]))))))))"

text \<open>\<open>None\<close> is the \<open>null\<close> the function returns, \<open>Inl\<close> what it throws.\<close>

definition normalize_gemini_data :: "jval \<Rightarrow> jval option js" where
  "normalize_gemini_data aiData =
     (if \<not> truthy aiData then Inr None else
      js_bind (get aiData ''forms'') (\<lambda>forms.
      if \<not> truthy forms then Inr None else
      js_bind (get forms ''length'') (\<lambda>len.
      if len = JNum 0 then Inr None else
      js_bind (js_map gemini_form forms) (\<lambda>definitions.
      js_bind (get aiData ''pronunciation'') (\<lambda>pr.
      js_bind (get aiData ''word'') (\<lambda>w.
      js_bind (get aiData ''phrase'') (\<lambda>ph.
      js_bind (get aiData ''translation'') (\<lambda>tr.
      js_bind (map_js (\<lambda>d. get d ''pos'') definitions) (\<lambda>poss.
      Inr (Some (JObj
        [(''word'', js_or w ph),
         (''translation'', js_or tr JNull),
         (''pos'', JArr poss),
         (''verbs'', JArr []),
         (''pronunciation'', JArr [JObj [(''lang'', JStr ''us''), (''pron'', js_or pr (JStr [])),
                                         (''url'', JStr [])]]),
         (''definition'', JArr definitions)])))))))))))"

section \<open>Typed payloads\<close>

text \<open>
  A payload of the shape the specification documents: a top-level word or
  phrase, forms with their definitions, whose examples are bare strings or
  text/translation pairs. Absent fields are \<open>None\<close>.
\<close>

datatype gexample = GText string | GPair string "string option"

record gdef =
  gd_definition :: "string option"
  gd_translation :: "string option"
  gd_examples :: "gexample list option"

record gform =
  gf_pos :: "string option"
  gf_definitions :: "gdef list"

record gpayload =
  gp_word :: "string option"
  gp_phrase :: "string option"
  gp_forms :: "gform list option"
  gp_translation :: "string option"
  gp_pronunciation :: "string option"

definition opt_field :: "key \<Rightarrow> string option \<Rightarrow> (key \<times> jval) list" where
  "opt_field k v = (case v of None \<Rightarrow> [] | Some s \<Rightarrow> [(k, JStr s)])"

fun gexample_json :: "gexample \<Rightarrow> jval" where
  "gexample_json (GText s) = JStr s"
| "gexample_json (GPair t tr) = JObj [(''text'', JStr t), (''translation'', opt_json tr)]"

definition gdef_json :: "gdef \<Rightarrow> jval" where
  "gdef_json d =
     JObj (opt_field ''definition'' (gd_definition d) @
           opt_field ''definitionTranslation'' (gd_translation d) @
           (case gd_examples d of None \<Rightarrow> [] | Some xs \<Rightarrow> [(''examples'', JArr (map gexample_json xs))]))"

definition gform_json :: "gform \<Rightarrow> jval" where
  "gform_json f =
     JObj (opt_field ''partOfSpeech'' (gf_pos f) @ [(''definitions'', JArr (map gdef_json (gf_definitions f)))])"

definition gpayload_json :: "gpayload \<Rightarrow> jval" where
  "gpayload_json p =
     JObj (opt_field ''word'' (gp_word p) @ opt_field ''phrase'' (gp_phrase p) @
           (case gp_forms p of None \<Rightarrow> [] | Some fs \<Rightarrow> [(''forms'', JArr (map gform_json fs))]) @
           opt_field ''translation'' (gp_translation p) @
           opt_field ''pronunciation'' (gp_pronunciation p))"

text \<open>The abstract adapter: what section 4.1 says Provider B's payload becomes.\<close>

definition nonempty_or :: "string option \<Rightarrow> string \<Rightarrow> string" where
  "nonempty_or v d = (case v of Some s \<Rightarrow> if s = [] then d else s | None \<Rightarrow> d)"

definition nonempty_opt :: "string option \<Rightarrow> string option" where
  "nonempty_opt v = (case v of Some s \<Rightarrow> if s = [] then None else Some s | None \<Rightarrow> None)"

fun gexample_example :: "gexample \<Rightarrow> example" where
  "gexample_example (GText s) = \<lparr>ex_text = s, ex_translation = None\<rparr>"
| "gexample_example (GPair t tr) = \<lparr>ex_text = t, ex_translation = tr\<rparr>"

definition gform_sense :: "gform \<Rightarrow> sense" where
  "gform_sense f =
     (let d = hd (gf_definitions f) in
      \<lparr>sense_pos = nonempty_or (gf_pos f) ''unknown'',
       sense_text = nonempty_or (gd_definition d) ''No definition text found.'',
       sense_translation = nonempty_opt (gd_translation d),
       sense_examples = (case gd_examples d of None \<Rightarrow> [] | Some xs \<Rightarrow> map gexample_example xs)\<rparr>)"

definition gheadword :: "gpayload \<Rightarrow> string" where
  "gheadword p =
     (case gp_word p of
        Some w \<Rightarrow> if w = [] then (case gp_phrase p of Some ph \<Rightarrow> ph | None \<Rightarrow> []) else w
      | None \<Rightarrow> (case gp_phrase p of Some ph \<Rightarrow> ph | None \<Rightarrow> []))"

definition adapt_gemini :: "gpayload \<Rightarrow> entry option" where
  "adapt_gemini p =
     (case gp_forms p of
        None \<Rightarrow> None
      | Some fs \<Rightarrow>
          if fs = [] then None
          else Some \<lparr>headword = gheadword p,
                     translation = nonempty_opt (gp_translation p),
                     parts_of_speech = map (sense_pos \<circ> gform_sense) fs,
                     inflections = [],
                     pronunciations = [\<lparr>pr_lang = ''us'', pr_phon = nonempty_or (gp_pronunciation p) [],
                                         pr_url = []\<rparr>],
                     senses = map gform_sense fs\<rparr>)"

text \<open>
  The payloads the typed adapter describes: every form has a definition, and the
  headword is a string (a phrase is given, or a non-empty word).
\<close>

definition wf_gpayload :: "gpayload \<Rightarrow> bool" where
  "wf_gpayload p \<longleftrightarrow>
     list_all (\<lambda>f. gf_definitions f \<noteq> []) (case gp_forms p of None \<Rightarrow> [] | Some fs \<Rightarrow> fs) \<and>
     (gp_phrase p \<noteq> None \<or> (case gp_word p of Some w \<Rightarrow> w \<noteq> [] | None \<Rightarrow> False))"


definition opt_val :: "string option \<Rightarrow> jval" where
  "opt_val v = (case v of None \<Rightarrow> JUndef | Some s \<Rightarrow> JStr s)"

section \<open>Facts about the payload encoding\<close>

lemma prop_of_opt_field [simp]:
  "prop_of (opt_field k v @ rest) j = (if j = k \<and> v \<noteq> None then opt_val v else prop_of rest j)"
  by (auto simp: opt_field_def opt_val_def split: option.splits)

lemma prop_of_opt_field_single [simp]:
  "prop_of (opt_field k v) j = (if j = k then opt_val v else JUndef)"
  by (auto simp: opt_field_def opt_val_def split: option.splits)

lemma nonempty_simps [simp]:
  "nonempty_or None d = d" "nonempty_or (Some s) d = (if s = [] then d else s)"
  "nonempty_opt None = None" "nonempty_opt (Some s) = (if s = [] then None else Some s)"
  by (simp_all add: nonempty_or_def nonempty_opt_def)

lemma js_or_opt_val_str [simp]: "js_or (opt_val v) (JStr d) = JStr (nonempty_or v d)"
  by (auto simp: js_or_def opt_val_def nonempty_or_def split: option.splits)

lemma js_or_opt_val_null [simp]: "js_or (opt_val v) JNull = opt_json (nonempty_opt v)"
  by (auto simp: js_or_def opt_val_def nonempty_opt_def opt_json_def split: option.splits)

lemma opt_val_simps [simp]: "opt_val None = JUndef" "opt_val (Some s) = JStr s"
  by (simp_all add: opt_val_def)

lemma truthy_opt_val [simp]: "truthy (opt_val v) = (v \<noteq> None \<and> v \<noteq> Some [])"
  by (cases v) auto

lemma gemini_example_json: "gemini_example (gexample_json g) = Inr (example_json (gexample_example g))"
  by (cases g) (simp_all add: gemini_example_def example_json_def opt_json_def)

lemma gemini_examples_json:
  "map_js gemini_example (map gexample_json xs) = Inr (map (example_json \<circ> gexample_example) xs)"
  by (rule map_js_map_Inr) (simp add: gemini_example_json)

lemma gemini_form_json:
  assumes "gf_definitions f \<noteq> []"
  shows "gemini_form (gform_json f) = Inr (sense_json (gform_sense f))"
proof -
  obtain d ds where f: "gf_definitions f = d # ds" using assms by (cases "gf_definitions f") auto
  show ?thesis
  proof (cases "gd_examples d")
    case None
    with f show ?thesis
      by (simp add: gemini_form_def gform_json_def gdef_json_def gform_sense_def sense_json_def Let_def)
  next
    case (Some xs)
    with f show ?thesis
      by (simp add: gemini_form_def gform_json_def gdef_json_def gform_sense_def sense_json_def Let_def
          gemini_examples_json)
  qed
qed


lemma gemini_forms_json:
  assumes "list_all (\<lambda>f. gf_definitions f \<noteq> []) fs"
  shows "map_js gemini_form (map gform_json fs) = Inr (map (sense_json \<circ> gform_sense) fs)"
  by (rule map_js_map_Inr) (use assms in \<open>simp add: gemini_form_json list_all_iff\<close>)

lemma sense_json_pos:
  "map_js (\<lambda>d. get d ''pos'') (map (\<lambda>x. sense_json (g x)) xs) = Inr (map (\<lambda>x. JStr (sense_pos (g x))) xs)"
  by (rule map_js_map_Inr) (simp add: sense_json_def)

lemma gemini_form_obj: "gemini_form x = Inr y \<Longrightarrow> y = JObj (spread_obj y)"
  unfolding gemini_form_def by (elim js_bind_InrE) (auto split: if_splits elim: js_bind_InrE)

lemma map_js_get_obj:
  assumes "\<And>y. y \<in> set ys \<Longrightarrow> y = JObj (spread_obj y)"
  shows "map_js (\<lambda>d. get d k) ys = Inr (map (\<lambda>d. prop_of (spread_obj d) k) ys)"
  by (rule map_js_Inr) (simp add: get_obj_spread assms)

lemma map_js_set:
  assumes "map_js f xs = Inr ys" and "y \<in> set ys"
  shows "\<exists>x \<in> set xs. f x = Inr y"
proof -
  from assms(2) obtain i where i: "i < length ys" and y: "y = ys ! i" by (auto simp: in_set_conv_nth)
  from map_js_length [OF assms(1)] i have "xs ! i \<in> set xs" by simp
  with map_js_nth [OF assms(1) i] y show ?thesis by blast
qed

section \<open>Properties of the Gemini adapter\<close>

text \<open>
  C8. On every payload of the documented shape whose forms all carry a
  definition and whose headword is a string, \<open>normalizeGeminiData\<close> computes the
  typed adapter of the specification: \<open>null\<close> without forms, otherwise one sense per
  form built from its first definition, with the documented defaults.
\<close>

theorem normalize_gemini_data_refines:
  assumes "wf_gpayload p"
  shows "normalize_gemini_data (gpayload_json p) = Inr (map_option entry_json (adapt_gemini p))"
proof (cases "gp_forms p")
  case None
  then show ?thesis
    by (simp add: normalize_gemini_data_def gpayload_json_def adapt_gemini_def)
next
  case (Some fs)
  show ?thesis
  proof (cases "fs = []")
    case True
    with Some show ?thesis
      by (simp add: normalize_gemini_data_def gpayload_json_def adapt_gemini_def)
  next
    case False
    from assms Some have defs: "list_all (\<lambda>f. gf_definitions f \<noteq> []) fs"
      by (simp add: wf_gpayload_def)
    from assms have hw: "gp_phrase p \<noteq> None \<or> (case gp_word p of Some w \<Rightarrow> w \<noteq> [] | None \<Rightarrow> False)"
      by (simp add: wf_gpayload_def)
    from Some False hw show ?thesis
      by (auto simp: normalize_gemini_data_def gpayload_json_def adapt_gemini_def
          gemini_forms_json [OF defs] sense_json_pos gheadword_def
          entry_json_def pron_json_def comp_def split: option.splits)
  qed
qed

theorem normalize_gemini_data_refines_witness:
  "wf_gpayload (\<lparr>gp_word = Some ''run'', gp_phrase = None,
      gp_forms = Some [\<lparr>gf_pos = Some ''verb'',
                         gf_definitions = [\<lparr>gd_definition = Some ''move fast'', gd_translation = None,
                                             gd_examples = Some [GText ''He can run fast.'']\<rparr>]\<rparr>],
      gp_translation = None, gp_pronunciation = None\<rparr>) \<and>
   normalize_gemini_data (gpayload_json (\<lparr>gp_word = Some ''run'', gp_phrase = None,
      gp_forms = Some [\<lparr>gf_pos = Some ''verb'',
                         gf_definitions = [\<lparr>gd_definition = Some ''move fast'', gd_translation = None,
                                             gd_examples = Some [GText ''He can run fast.'']\<rparr>]\<rparr>],
      gp_translation = None, gp_pronunciation = None\<rparr>)) = Inr (map_option entry_json (adapt_gemini (\<lparr>gp_word = Some ''run'', gp_phrase = None,
      gp_forms = Some [\<lparr>gf_pos = Some ''verb'',
                         gf_definitions = [\<lparr>gd_definition = Some ''move fast'', gd_translation = None,
                                             gd_examples = Some [GText ''He can run fast.'']\<rparr>]\<rparr>],
      gp_translation = None, gp_pronunciation = None\<rparr>)))"
proof -
  have h: "wf_gpayload (\<lparr>gp_word = Some ''run'', gp_phrase = None,
      gp_forms = Some [\<lparr>gf_pos = Some ''verb'',
                         gf_definitions = [\<lparr>gd_definition = Some ''move fast'', gd_translation = None,
                                             gd_examples = Some [GText ''He can run fast.'']\<rparr>]\<rparr>],
      gp_translation = None, gp_pronunciation = None\<rparr>)" by (simp add: wf_gpayload_def)
  show ?thesis using h normalize_gemini_data_refines [OF h] by simp
qed

text \<open>
  C9. \<open>normalizeGeminiData\<close> returns \<open>null\<close> exactly when the payload is falsy, its
  \<open>forms\<close> is falsy, or \<open>forms.length\<close> is 0.
\<close>

theorem normalize_gemini_data_null_iff:
  "normalize_gemini_data v = Inr None \<longleftrightarrow>
     \<not> truthy v \<or> (\<exists>f. get v ''forms'' = Inr f \<and> (\<not> truthy f \<or> get f ''length'' = Inr (JNum 0)))"
  by (auto simp: normalize_gemini_data_def js_bind_eq_Inr split: if_splits)

theorem normalize_gemini_data_null_iff_witness:
  "normalize_gemini_data JNull = Inr None \<and> normalize_gemini_data (JObj []) = Inr None \<and>
   normalize_gemini_data (JObj [(''forms'', JArr [])]) = Inr None"
  using normalize_gemini_data_null_iff [of JNull] normalize_gemini_data_null_iff [of "JObj []"]
        normalize_gemini_data_null_iff [of "JObj [(''forms'', JArr [])]"]
  by simp

text \<open>
  C10. A form whose \<open>definitions\<close> array is empty makes \<open>normalizeGeminiData\<close> throw
  a TypeError (\<open>firstDef\<close> is undefined), where the specification has the adapter
  return \<open>null\<close> and never throw.
\<close>

theorem normalize_gemini_data_empty_definitions:
  assumes "truthy v" and "get v ''forms'' = Inr (JArr (f # fs))"
    and "get f ''definitions'' = Inr (JArr [])"
  shows "normalize_gemini_data v = Inl TypeError"
proof -
  from assms(3) obtain pos where "get f ''partOfSpeech'' = Inr pos" by (cases f) auto
  with assms show ?thesis by (simp add: normalize_gemini_data_def gemini_form_def)
qed

theorem normalize_gemini_data_empty_definitions_witness:
  "truthy (JObj [(''word'', JStr ''run''), (''forms'', JArr [JObj [(''definitions'', JArr [])]])]) \<and>
   get (JObj [(''word'', JStr ''run''), (''forms'', JArr [JObj [(''definitions'', JArr [])]])]) ''forms'' =
     Inr (JArr [JObj [(''definitions'', JArr [])]]) \<and>
   get (JObj [(''definitions'', JArr [])]) ''definitions'' = Inr (JArr []) \<and>
   normalize_gemini_data (JObj [(''word'', JStr ''run''), (''forms'', JArr [JObj [(''definitions'', JArr [])]])]) =
     Inl TypeError"
proof -
  have h1: "truthy (JObj [(''word'', JStr ''run''), (''forms'', JArr [JObj [(''definitions'', JArr [])]])])"
    by simp
  have h2: "get (JObj [(''word'', JStr ''run''), (''forms'', JArr [JObj [(''definitions'', JArr [])]])]) ''forms'' =
     Inr (JArr [JObj [(''definitions'', JArr [])]])" by simp
  have h3: "get (JObj [(''definitions'', JArr [])]) ''definitions'' = Inr (JArr [])" by simp
  show ?thesis using h1 h2 h3 normalize_gemini_data_empty_definitions [OF h1 h2 h3] by simp
qed

text \<open>
  C11. Whatever the payload, an entry \<open>normalizeGeminiData\<close> returns has a
  non-empty \<open>definition\<close> array, a \<open>pos\<close> array parallel to it (the \<open>pos\<close> of each
  definition, in order), no \<open>verbs\<close> and exactly one pronunciation slot.
\<close>

theorem normalize_gemini_data_parallel:
  assumes "normalize_gemini_data v = Inr (Some r)"
  shows "\<exists>defs pr. get r ''definition'' = Inr (JArr defs) \<and> defs \<noteq> [] \<and>
           get r ''pos'' = Inr (JArr (map (\<lambda>d. prop_of (spread_obj d) ''pos'') defs)) \<and>
           get r ''verbs'' = Inr (JArr []) \<and> get r ''pronunciation'' = Inr (JArr [pr])"
proof -
  from assms obtain forms xs defs where
    forms: "get v ''forms'' = Inr forms" and len: "get forms ''length'' \<noteq> Inr (JNum 0)"
    and defs: "js_map gemini_form forms = Inr defs"
    and r: "\<exists>w tr pr poss. map_js (\<lambda>d. get d ''pos'') defs = Inr poss \<and>
              r = JObj [(''word'', w), (''translation'', tr), (''pos'', JArr poss), (''verbs'', JArr []),
                        (''pronunciation'', JArr [pr]), (''definition'', JArr defs)]"
    by (auto simp: normalize_gemini_data_def js_bind_eq_Inr split: if_splits)
  from defs len obtain fs where fs: "forms = JArr fs" "fs \<noteq> []" "map_js gemini_form fs = Inr defs"
    by (cases forms) auto
  then have ne: "defs \<noteq> []" by (auto dest: map_js_length)
  have "\<And>y. y \<in> set defs \<Longrightarrow> y = JObj (spread_obj y)"
    using fs(3) by (auto dest: map_js_set gemini_form_obj)
  then have "map_js (\<lambda>d. get d ''pos'') defs = Inr (map (\<lambda>d. prop_of (spread_obj d) ''pos'') defs)"
    by (rule map_js_get_obj)
  with r ne show ?thesis by auto
qed

theorem normalize_gemini_data_parallel_witness:
  "normalize_gemini_data (gpayload_json (\<lparr>gp_word = Some ''run'', gp_phrase = None,
      gp_forms = Some [\<lparr>gf_pos = Some ''verb'',
                         gf_definitions = [\<lparr>gd_definition = Some ''move fast'', gd_translation = None,
                                             gd_examples = Some [GText ''He can run fast.'']\<rparr>]\<rparr>],
      gp_translation = None, gp_pronunciation = None\<rparr>)) =
     Inr (Some (entry_json (the (adapt_gemini (\<lparr>gp_word = Some ''run'', gp_phrase = None,
      gp_forms = Some [\<lparr>gf_pos = Some ''verb'',
                         gf_definitions = [\<lparr>gd_definition = Some ''move fast'', gd_translation = None,
                                             gd_examples = Some [GText ''He can run fast.'']\<rparr>]\<rparr>],
      gp_translation = None, gp_pronunciation = None\<rparr>))))) \<and>
   (\<exists>defs pr. get (entry_json (the (adapt_gemini (\<lparr>gp_word = Some ''run'', gp_phrase = None,
      gp_forms = Some [\<lparr>gf_pos = Some ''verb'',
                         gf_definitions = [\<lparr>gd_definition = Some ''move fast'', gd_translation = None,
                                             gd_examples = Some [GText ''He can run fast.'']\<rparr>]\<rparr>],
      gp_translation = None, gp_pronunciation = None\<rparr>)))) ''definition'' = Inr (JArr defs) \<and> defs \<noteq> [] \<and>
      get (entry_json (the (adapt_gemini (\<lparr>gp_word = Some ''run'', gp_phrase = None,
      gp_forms = Some [\<lparr>gf_pos = Some ''verb'',
                         gf_definitions = [\<lparr>gd_definition = Some ''move fast'', gd_translation = None,
                                             gd_examples = Some [GText ''He can run fast.'']\<rparr>]\<rparr>],
      gp_translation = None, gp_pronunciation = None\<rparr>)))) ''verbs'' = Inr (JArr []) \<and>
      get (entry_json (the (adapt_gemini (\<lparr>gp_word = Some ''run'', gp_phrase = None,
      gp_forms = Some [\<lparr>gf_pos = Some ''verb'',
                         gf_definitions = [\<lparr>gd_definition = Some ''move fast'', gd_translation = None,
                                             gd_examples = Some [GText ''He can run fast.'']\<rparr>]\<rparr>],
      gp_translation = None, gp_pronunciation = None\<rparr>)))) ''pronunciation'' = Inr (JArr [pr]))"
proof -
  have h: "normalize_gemini_data (gpayload_json (\<lparr>gp_word = Some ''run'', gp_phrase = None,
      gp_forms = Some [\<lparr>gf_pos = Some ''verb'',
                         gf_definitions = [\<lparr>gd_definition = Some ''move fast'', gd_translation = None,
                                             gd_examples = Some [GText ''He can run fast.'']\<rparr>]\<rparr>],
      gp_translation = None, gp_pronunciation = None\<rparr>)) = Inr (Some (entry_json (the (adapt_gemini (\<lparr>gp_word = Some ''run'', gp_phrase = None,
      gp_forms = Some [\<lparr>gf_pos = Some ''verb'',
                         gf_definitions = [\<lparr>gd_definition = Some ''move fast'', gd_translation = None,
                                             gd_examples = Some [GText ''He can run fast.'']\<rparr>]\<rparr>],
      gp_translation = None, gp_pronunciation = None\<rparr>)))))"
    by (simp add: normalize_gemini_data_def gpayload_json_def adapt_gemini_def gemini_form_def gform_json_def
        gdef_json_def gemini_example_def gform_sense_def gheadword_def entry_json_def sense_json_def
        example_json_def pron_json_def)
  show ?thesis using h normalize_gemini_data_parallel [OF h] by blast
qed

text \<open>
  An example given as a bare string becomes \<open>{text: s, translation: null}\<close>,
  one given as an object keeps its \<open>text\<close> and \<open>translation\<close>, and a \<open>null\<close>
  example throws.
\<close>

theorem gemini_example_shapes:
  "gemini_example (JStr s) = Inr (JObj [(''text'', JStr s), (''translation'', JNull)]) \<and>
   gemini_example (JObj kvs) = Inr (JObj [(''text'', prop_of kvs ''text''), (''translation'', prop_of kvs ''translation'')]) \<and>
   gemini_example JNull = Inl TypeError"
  by (simp add: gemini_example_def)

end
