(* ===== verification/MW.thy ===== *)
theory MW
  imports Entry
begin

text \<open>
  Provider A: \<open>normalizeMwData\<close> of src/extension/background.js (lines 16-36),
  which keeps the first record of a Merriam-Webster collegiate payload and builds
  one sense from it: the audio URL by the bucket rule (line 24), the definition
  from \<open>shortdef\<close>, one example from the supplemental examples or, failing that,
  from the first \<open>vis\<close> item of the sense sequence inside a \<open>try\<close> (line 33), and
  the headword from \<open>meta.id\<close>.
\<close>

section \<open>The code\<close>

text \<open>\<open>s.match(/^_[0-9]/)\<close>, as the truth value of its result.\<close>

fun js_match_underscore_digit :: "jval \<Rightarrow> bool js" where
  "js_match_underscore_digit (JStr (c1 # c2 # cs)) = Inr (c1 = CHR ''_'' \<and> is_digit c2)"
| "js_match_underscore_digit (JStr s) = Inr False"
| "js_match_underscore_digit v = Inl TypeError"

text \<open>The audio bucket (line 24).\<close>

definition mw_audio_subdir :: "jval \<Rightarrow> jval js" where
  "mw_audio_subdir audioFile =
     js_bind (js_starts_with audioFile ''bix'') (\<lambda>b1. if b1 then Inr (JStr ''bix'') else
     js_bind (js_starts_with audioFile ''gg'') (\<lambda>b2. if b2 then Inr (JStr ''gg'') else
     js_bind (js_match_underscore_digit audioFile) (\<lambda>b3. if b3 then Inr (JStr ''number'') else
     js_char_at0 audioFile)))"

definition mw_pron_obj :: "jval \<Rightarrow> jval \<Rightarrow> jval" where
  "mw_pron_obj pron url = JObj [(''lang'', JStr ''us''), (''pron'', pron), (''url'', url)]"

definition mw_audio_base :: string where
  "mw_audio_base = ''https://media.merriam-webster.com/audio/prons/en/us/wav/''"

text \<open>The pronunciation object (lines 19-27).\<close>

definition mw_pronunciation :: "jval \<Rightarrow> jval js" where
  "mw_pronunciation entry =
     js_bind (get entry ''hwi'') (\<lambda>hwi.
     if \<not> truthy hwi then Inr (mw_pron_obj (JStr []) (JStr [])) else
     js_bind (get hwi ''prs'') (\<lambda>prs.
     if \<not> truthy prs then Inr (mw_pron_obj (JStr []) (JStr [])) else
     js_bind (idx prs 0) (\<lambda>p0.
     if \<not> truthy p0 then Inr (mw_pron_obj (JStr []) (JStr [])) else
     js_bind (get p0 ''mw'') (\<lambda>mw.
     let pron = JStr (''/'' @ js_to_string mw @ ''/'') in
     js_bind (get p0 ''sound'') (\<lambda>sound.
     if \<not> truthy sound then Inr (mw_pron_obj pron (JStr [])) else
     js_bind (get sound ''audio'') (\<lambda>audioFile.
     js_bind (mw_audio_subdir audioFile) (\<lambda>subdir.
     Inr (mw_pron_obj pron
            (JStr (mw_audio_base @ js_to_string subdir @ ''/'' @ js_to_string audioFile @ ''.wav''))))))))))"

text \<open>
  The body of the \<open>try\<close> block of line 33: \<open>Inr (Some t)\<close> is the example text it
  pushes, \<open>Inr None\<close> a run that pushes nothing, \<open>Inl\<close> an exception.
\<close>

definition mw_vis_example :: "jval \<Rightarrow> jval option js" where
  "mw_vis_example entry =
     js_bind (get entry ''def'') (\<lambda>d. js_bind (idx d 0) (\<lambda>d0.
     js_bind (get d0 ''sseq'') (\<lambda>sseq. js_bind (idx sseq 0) (\<lambda>s0.
     js_bind (idx s0 0) (\<lambda>s00. js_bind (idx s00 1) (\<lambda>firstSense.
     js_bind (get firstSense ''dt'') (\<lambda>dt.
     if truthy dt \<and> is_array dt then
       js_bind (js_find (\<lambda>item. js_bind (idx item 0) (\<lambda>i0. Inr (i0 = JStr ''vis''))) dt) (\<lambda>vis.
       if truthy vis then
         js_bind (idx vis 1) (\<lambda>v1. js_bind (idx v1 0) (\<lambda>v10.
         js_bind (get v10 ''t'') (\<lambda>t.
         js_bind (js_replace_tokens t [''{wi}'', ''{/wi}'']) (\<lambda>text. Inr (Some text)))))
       else Inr None)
     else Inr None)))))))"

text \<open>\<open>try { ... } catch (e) { ... }\<close>: an exception is dropped.\<close>

definition try_catch :: "'a option js \<Rightarrow> 'a option" where
  "try_catch r = (case r of Inl e \<Rightarrow> None | Inr v \<Rightarrow> v)"

text \<open>The guard of line 29, with the short-circuit of \<open>&&\<close>.\<close>

definition mw_has_suppl :: "jval \<Rightarrow> bool js" where
  "mw_has_suppl entry =
     js_bind (get entry ''suppl'') (\<lambda>su.
     if \<not> truthy su then Inr False else
     js_bind (get su ''examples'') (\<lambda>exs.
     if \<not> truthy exs then Inr False else
     js_bind (get exs ''length'') (\<lambda>len. Inr (js_gt len (JNum 0)))))"

text \<open>The guard of line 32: \<open>entry.def && entry.def[0].sseq\<close>.\<close>

definition mw_has_sseq :: "jval \<Rightarrow> bool js" where
  "mw_has_sseq entry =
     js_bind (get entry ''def'') (\<lambda>d.
     if \<not> truthy d then Inr False else
     js_bind (idx d 0) (\<lambda>d0. js_bind (get d0 ''sseq'') (\<lambda>sseq. Inr (truthy sseq))))"

text \<open>The examples of the single definition (lines 29-34).\<close>

definition mw_examples :: "jval \<Rightarrow> jval list js" where
  "mw_examples entry =
     js_bind (mw_has_suppl entry) (\<lambda>c1.
     if c1 then
       js_bind (get entry ''suppl'') (\<lambda>su. js_bind (get su ''examples'') (\<lambda>exs.
       js_bind (idx exs 0) (\<lambda>e0. js_bind (get e0 ''t'') (\<lambda>t.
       js_bind (js_replace_tokens t [''{it}'', ''{/it}'']) (\<lambda>text. Inr [JObj [(''text'', text)]])))))
     else
       js_bind (mw_has_sseq entry) (\<lambda>c2.
       if c2 then Inr (case try_catch (mw_vis_example entry) of
                          None \<Rightarrow> []
                        | Some text \<Rightarrow> [JObj [(''text'', text)]])
       else Inr []))"

text \<open>\<open>None\<close> is the \<open>null\<close> of line 17, \<open>Inl\<close> what the function throws.\<close>

definition normalize_mw_data :: "jval \<Rightarrow> jval option js" where
  "normalize_mw_data mwData =
     (if \<not> truthy mwData then Inr None else
      js_bind (get mwData ''length'') (\<lambda>len.
      if len = JNum 0 then Inr None else
      js_bind (idx mwData 0) (\<lambda>entry.
      if typeof entry \<noteq> ''object'' then Inr None else
      js_bind (mw_pronunciation entry) (\<lambda>pronunciation.
      js_bind (get entry ''fl'') (\<lambda>fl.
      js_bind (get entry ''shortdef'') (\<lambda>sd. js_bind (idx sd 0) (\<lambda>sd0.
      js_bind (mw_examples entry) (\<lambda>examples.
      let def_obj = JObj [(''pos'', js_or fl (JStr ''unknown'')),
                             (''text'', js_or sd0 (JStr ''No definition found.'')),
                             (''example'', JArr examples)] in
      js_bind (get entry ''meta'') (\<lambda>meta. js_bind (get meta ''id'') (\<lambda>mid.
      js_bind (js_split_head mid CHR '':'') (\<lambda>word.
      Inr (Some (JObj [(''word'', word), (''pos'', JArr [js_or fl (JStr ''unknown'')]),
                       (''verbs'', JArr []), (''pronunciation'', JArr [pronunciation]),
                       (''definition'', JArr [def_obj])])))))))))))))"

section \<open>The bucket rule of the specification\<close>

text \<open>
  Section 4.1 of the specification: a token starting with \<open>bix\<close> goes to \<open>bix\<close>,
  one starting with \<open>gg\<close> to \<open>gg\<close>, one matching \<open>^_[0-9]\<close> to \<open>number\<close>, any
  other to its first character.
\<close>

definition spec_audio_bucket :: "string \<Rightarrow> string" where
  "spec_audio_bucket t =
     (if prefix ''bix'' t then ''bix''
      else if prefix ''gg'' t then ''gg''
      else if list_ex (\<lambda>d. prefix [CHR ''_'', d] t) ''0123456789'' then ''number''
      else take 1 t)"

section \<open>Facts about the adapter\<close>

lemma match_underscore_digit_spec:
  "js_match_underscore_digit (JStr s) = Inr (list_ex (\<lambda>d. prefix [CHR ''_'', d] s) ''0123456789'')"
proof (cases s)
  case (Cons a t)
  then show ?thesis by (cases t) (auto simp: is_digit_def)
qed simp


lemma prefix_take_iff: "length p \<le> n \<Longrightarrow> prefix p (take n s) \<longleftrightarrow> prefix p s"
proof (induction p arbitrary: n s)
  case Nil
  then show ?case by simp
next
  case (Cons a p)
  then show ?case by (cases n; cases s) auto
qed

lemma match_take3: "js_match_underscore_digit (JStr (take 3 s)) = js_match_underscore_digit (JStr s)"
proof (cases s)
  case Nil
  then show ?thesis by simp
next
  case (Cons a t)
  then show ?thesis by (cases t) (auto simp: numeral_3_eq_3)
qed

lemma normalize_mw_data_Some:
  assumes "normalize_mw_data v = Inr (Some r)"
  obtains e pr fl sd sd0 exs meta mid word where
    "truthy v" "idx v 0 = Inr e" "typeof e = ''object''" "mw_pronunciation e = Inr pr"
    "get e ''fl'' = Inr fl" "get e ''shortdef'' = Inr sd" "idx sd 0 = Inr sd0" "mw_examples e = Inr exs"
    "get e ''meta'' = Inr meta" "get meta ''id'' = Inr mid" "js_split_head mid CHR '':'' = Inr word"
    "r = JObj [(''word'', word), (''pos'', JArr [js_or fl (JStr ''unknown'')]), (''verbs'', JArr []),
               (''pronunciation'', JArr [pr]),
               (''definition'', JArr [JObj [(''pos'', js_or fl (JStr ''unknown'')),
                                            (''text'', js_or sd0 (JStr ''No definition found.'')),
                                            (''example'', JArr exs)]])]"
  using assms unfolding normalize_mw_data_def Let_def
  by (auto split: if_splits elim!: js_bind_InrE)


lemma mw_examples_length: "mw_examples e = Inr exs \<Longrightarrow> length exs \<le> 1"
  unfolding mw_examples_def
  by (auto split: if_splits option.splits elim!: js_bind_InrE)

section \<open>Properties of the Merriam-Webster adapter\<close>

text \<open>
  The audio bucket rule of section 4.1 on the examples of section 8
  (\<open>bix123\<close> to \<open>bix\<close>, \<open>_45abc\<close> to \<open>number\<close>, \<open>xyz\<close> to \<open>x\<close>, and \<open>gg456\<close> to \<open>gg\<close>), and
  the audio URL built from it.
\<close>

theorem mw_audio_subdir_examples:
  "mw_audio_subdir (JStr ''bix123'') = Inr (JStr ''bix'') \<and>
   mw_audio_subdir (JStr ''gg456'') = Inr (JStr ''gg'') \<and>
   mw_audio_subdir (JStr ''_45abc'') = Inr (JStr ''number'') \<and>
   mw_audio_subdir (JStr ''xyz'') = Inr (JStr ''x'') \<and>
   mw_pronunciation (JObj [(''hwi'', JObj [(''prs'', JArr [JObj [(''mw'', JStr ''r@n''), (''sound'', JObj [(''audio'', JStr ''bix123'')])]])])]) =
     Inr (mw_pron_obj (JStr ''/r@n/'')
            (JStr ''https://media.merriam-webster.com/audio/prons/en/us/wav/bix/bix123.wav''))"
  by (simp add: mw_audio_subdir_def mw_pronunciation_def mw_audio_base_def is_digit_def)

text \<open>
  C13. The bucket of line 24 is the rule of the specification on every string
  token (\<open>bix\<close>, then \<open>gg\<close>, then \<open>^_[0-9]\<close> as \<open>number\<close>, else the first
  character), and it depends on the first three characters of the token only.
\<close>

theorem mw_audio_subdir_prefix:
  "mw_audio_subdir (JStr s) = Inr (JStr (spec_audio_bucket s)) \<and>
   mw_audio_subdir (JStr (take 3 s)) = mw_audio_subdir (JStr s)"
proof
  show "mw_audio_subdir (JStr s) = Inr (JStr (spec_audio_bucket s))"
    by (simp add: mw_audio_subdir_def spec_audio_bucket_def match_underscore_digit_spec)
  show "mw_audio_subdir (JStr (take 3 s)) = mw_audio_subdir (JStr s)"
    by (simp add: mw_audio_subdir_def match_take3 prefix_take_iff cong: if_cong)
qed

text \<open>
  When the first short definition is a non-empty string, the sense's
  definition text is that string verbatim.
\<close>

theorem normalize_mw_data_definition_text:
  assumes "normalize_mw_data v = Inr (Some r)" and "idx v 0 = Inr e"
    and "get e ''shortdef'' = Inr (JArr (JStr d # ds))" and "d \<noteq> []"
  shows "\<exists>dobj. get r ''definition'' = Inr (JArr [dobj]) \<and> get dobj ''text'' = Inr (JStr d)"
  using assms(1) by (rule normalize_mw_data_Some) (use assms(2-4) in auto)

theorem normalize_mw_data_definition_text_witness:
  "normalize_mw_data (JArr [JObj [(''meta'', JObj [(''id'', JStr ''run:1'')]), (''shortdef'', JArr [JStr ''move fast''])]]) =
     Inr (Some (JObj [(''word'', JStr ''run''), (''pos'', JArr [JStr ''unknown'']), (''verbs'', JArr []),
                      (''pronunciation'', JArr [mw_pron_obj (JStr []) (JStr [])]),
                      (''definition'', JArr [JObj [(''pos'', JStr ''unknown''), (''text'', JStr ''move fast''),
                                                   (''example'', JArr [])]])])) \<and>
   get (JObj [(''pos'', JStr ''unknown''), (''text'', JStr ''move fast''), (''example'', JArr [])]) ''text'' =
     Inr (JStr ''move fast'')"
proof -
  have h1: "normalize_mw_data (JArr [JObj [(''meta'', JObj [(''id'', JStr ''run:1'')]), (''shortdef'', JArr [JStr ''move fast''])]]) =
     Inr (Some (JObj [(''word'', JStr ''run''), (''pos'', JArr [JStr ''unknown'']), (''verbs'', JArr []),
                      (''pronunciation'', JArr [mw_pron_obj (JStr []) (JStr [])]),
                      (''definition'', JArr [JObj [(''pos'', JStr ''unknown''), (''text'', JStr ''move fast''),
                                                   (''example'', JArr [])]])]))"
    by (simp add: normalize_mw_data_def mw_pronunciation_def mw_examples_def mw_has_suppl_def mw_has_sseq_def)
  have h2: "idx (JArr [JObj [(''meta'', JObj [(''id'', JStr ''run:1'')]), (''shortdef'', JArr [JStr ''move fast''])]]) 0 =
              Inr (JObj [(''meta'', JObj [(''id'', JStr ''run:1'')]), (''shortdef'', JArr [JStr ''move fast''])])"
    by simp
  have h3: "get (JObj [(''meta'', JObj [(''id'', JStr ''run:1'')]), (''shortdef'', JArr [JStr ''move fast''])]) ''shortdef'' =
              Inr (JArr [JStr ''move fast''])" by simp
  have h4: "''move fast'' \<noteq> []" by simp
  from normalize_mw_data_definition_text [OF h1 h2 h3 h4] h1 show ?thesis by simp
qed

text \<open>
  C14. When \<open>shortdef\<close> is empty, or its first string is empty, the definition
  text is the fallback \<open>No definition found.\<close>; the specification promises the
  first string verbatim for every non-empty list, which fails for \<open>[""]\<close>.
\<close>

theorem normalize_mw_data_definition_fallback:
  assumes "normalize_mw_data v = Inr (Some r)" and "idx v 0 = Inr e"
    and "get e ''shortdef'' = Inr (JArr sds)" and "sds = [] \<or> hd sds = JStr []"
  shows "\<exists>dobj. get r ''definition'' = Inr (JArr [dobj]) \<and> get dobj ''text'' = Inr (JStr ''No definition found.'')"
  using assms(1) by (rule normalize_mw_data_Some) (use assms(2-4) in \<open>cases sds, auto\<close>)

theorem normalize_mw_data_definition_fallback_witness:
  "normalize_mw_data (JArr [JObj [(''meta'', JObj [(''id'', JStr ''run:1'')]), (''shortdef'', JArr [JStr []])]]) =
     Inr (Some (JObj [(''word'', JStr ''run''), (''pos'', JArr [JStr ''unknown'']), (''verbs'', JArr []),
                      (''pronunciation'', JArr [mw_pron_obj (JStr []) (JStr [])]),
                      (''definition'', JArr [JObj [(''pos'', JStr ''unknown''), (''text'', JStr ''No definition found.''),
                                                   (''example'', JArr [])]])])) \<and>
   hd [JStr []] = JStr []"
proof -
  have h1: "normalize_mw_data (JArr [JObj [(''meta'', JObj [(''id'', JStr ''run:1'')]), (''shortdef'', JArr [JStr []])]]) =
     Inr (Some (JObj [(''word'', JStr ''run''), (''pos'', JArr [JStr ''unknown'']), (''verbs'', JArr []),
                      (''pronunciation'', JArr [mw_pron_obj (JStr []) (JStr [])]),
                      (''definition'', JArr [JObj [(''pos'', JStr ''unknown''), (''text'', JStr ''No definition found.''),
                                                   (''example'', JArr [])]])]))"
    by (simp add: normalize_mw_data_def mw_pronunciation_def mw_examples_def mw_has_suppl_def mw_has_sseq_def)
  have h2: "idx (JArr [JObj [(''meta'', JObj [(''id'', JStr ''run:1'')]), (''shortdef'', JArr [JStr []])]]) 0 =
              Inr (JObj [(''meta'', JObj [(''id'', JStr ''run:1'')]), (''shortdef'', JArr [JStr []])])"
    by simp
  have h3: "get (JObj [(''meta'', JObj [(''id'', JStr ''run:1'')]), (''shortdef'', JArr [JStr []])]) ''shortdef'' =
              Inr (JArr [JStr []])" by simp
  have h4: "[JStr []] = [] \<or> hd [JStr []] = JStr []" by simp
  from normalize_mw_data_definition_fallback [OF h1 h2 h3 h4] h1 show ?thesis by simp
qed

text \<open>
  The headword is the part of \<open>meta.id\<close> before its first colon: the id is
  the headword followed by nothing or by a suffix that starts with a colon.
\<close>

theorem normalize_mw_data_headword:
  assumes "normalize_mw_data v = Inr (Some r)" and "idx v 0 = Inr e"
    and "get e ''meta'' = Inr m" and "get m ''id'' = Inr (JStr i)"
  shows "\<exists>w rest. get r ''word'' = Inr (JStr w) \<and> i = w @ rest \<and> CHR '':'' \<notin> set w \<and>
           (rest = [] \<or> hd rest = CHR '':'')"
proof -
  let ?w = "takeWhile (\<lambda>c. c \<noteq> CHR '':'') i" and ?rest = "dropWhile (\<lambda>c. c \<noteq> CHR '':'') i"
  have word: "get r ''word'' = Inr (JStr ?w)"
    using assms(1) by (rule normalize_mw_data_Some) (use assms(2-4) in auto)
  have "i = ?w @ ?rest" by simp
  moreover have "CHR '':'' \<notin> set ?w" by (auto dest: set_takeWhileD)
  moreover have "?rest = [] \<or> hd ?rest = CHR '':''"
    using hd_dropWhile [of "\<lambda>c. c \<noteq> CHR '':''" i] by auto
  ultimately show ?thesis using word by blast
qed

theorem normalize_mw_data_headword_witness:
  "normalize_mw_data (JArr [JObj [(''meta'', JObj [(''id'', JStr ''run:1'')]), (''shortdef'', JArr [])]]) =
     Inr (Some (JObj [(''word'', JStr ''run''), (''pos'', JArr [JStr ''unknown'']), (''verbs'', JArr []),
                      (''pronunciation'', JArr [mw_pron_obj (JStr []) (JStr [])]),
                      (''definition'', JArr [JObj [(''pos'', JStr ''unknown''), (''text'', JStr ''No definition found.''),
                                                   (''example'', JArr [])]])])) \<and>
   ''run:1'' = ''run'' @ '':1''"
proof -
  have h1: "normalize_mw_data (JArr [JObj [(''meta'', JObj [(''id'', JStr ''run:1'')]), (''shortdef'', JArr [])]]) =
     Inr (Some (JObj [(''word'', JStr ''run''), (''pos'', JArr [JStr ''unknown'']), (''verbs'', JArr []),
                      (''pronunciation'', JArr [mw_pron_obj (JStr []) (JStr [])]),
                      (''definition'', JArr [JObj [(''pos'', JStr ''unknown''), (''text'', JStr ''No definition found.''),
                                                   (''example'', JArr [])]])]))"
    by (simp add: normalize_mw_data_def mw_pronunciation_def mw_examples_def mw_has_suppl_def mw_has_sseq_def)
  have h2: "idx (JArr [JObj [(''meta'', JObj [(''id'', JStr ''run:1'')]), (''shortdef'', JArr [])]]) 0 =
              Inr (JObj [(''meta'', JObj [(''id'', JStr ''run:1'')]), (''shortdef'', JArr [])])" by simp
  have h3: "get (JObj [(''meta'', JObj [(''id'', JStr ''run:1'')]), (''shortdef'', JArr [])]) ''meta'' =
              Inr (JObj [(''id'', JStr ''run:1'')])" by simp
  have h4: "get (JObj [(''id'', JStr ''run:1'')]) ''id'' = Inr (JStr ''run:1'')" by simp
  from normalize_mw_data_headword [OF h1 h2 h3 h4] h1 show ?thesis by simp
qed

text \<open>
  C15. Whatever the payload, an entry \<open>normalizeMwData\<close> returns has exactly one
  definition, a \<open>pos\<close> array holding that definition's part of speech, no
  \<open>verbs\<close>, one pronunciation slot, and at most one example.
\<close>

theorem normalize_mw_data_shape:
  assumes "normalize_mw_data v = Inr (Some r)"
  shows "\<exists>pr dobj exs. get r ''definition'' = Inr (JArr [dobj]) \<and>
           get r ''pos'' = Inr (JArr [prop_of (spread_obj dobj) ''pos'']) \<and>
           get r ''verbs'' = Inr (JArr []) \<and> get r ''pronunciation'' = Inr (JArr [pr]) \<and>
           get dobj ''example'' = Inr (JArr exs) \<and> length exs \<le> 1"
  using assms
proof (rule normalize_mw_data_Some)
  fix e pr fl sd sd0 exs meta mid word
  assume ex: "mw_examples e = Inr exs"
    and r: "r = JObj [(''word'', word), (''pos'', JArr [js_or fl (JStr ''unknown'')]), (''verbs'', JArr []),
               (''pronunciation'', JArr [pr]),
               (''definition'', JArr [JObj [(''pos'', js_or fl (JStr ''unknown'')),
                                            (''text'', js_or sd0 (JStr ''No definition found.'')),
                                            (''example'', JArr exs)]])]"
  from ex have "length exs \<le> 1" by (rule mw_examples_length)
  with r show ?thesis by auto
qed

theorem normalize_mw_data_shape_witness:
  "normalize_mw_data (JArr [JObj [(''meta'', JObj [(''id'', JStr ''run'')]), (''shortdef'', JArr [])]]) =
     Inr (Some (JObj [(''word'', JStr ''run''), (''pos'', JArr [JStr ''unknown'']), (''verbs'', JArr []),
                      (''pronunciation'', JArr [mw_pron_obj (JStr []) (JStr [])]),
                      (''definition'', JArr [JObj [(''pos'', JStr ''unknown''), (''text'', JStr ''No definition found.''),
                                                   (''example'', JArr [])]])])) \<and>
   length ([]::jval list) \<le> 1"
proof -
  have h: "normalize_mw_data (JArr [JObj [(''meta'', JObj [(''id'', JStr ''run'')]), (''shortdef'', JArr [])]]) =
     Inr (Some (JObj [(''word'', JStr ''run''), (''pos'', JArr [JStr ''unknown'']), (''verbs'', JArr []),
                      (''pronunciation'', JArr [mw_pron_obj (JStr []) (JStr [])]),
                      (''definition'', JArr [JObj [(''pos'', JStr ''unknown''), (''text'', JStr ''No definition found.''),
                                                   (''example'', JArr [])]])]))"
    by (simp add: normalize_mw_data_def mw_pronunciation_def mw_examples_def mw_has_suppl_def mw_has_sseq_def)
  from normalize_mw_data_shape [OF h] h show ?thesis by auto
qed

text \<open>
  C16. \<open>normalizeMwData\<close> returns \<open>null\<close> exactly when the payload is falsy, has
  length 0, or has a first element whose \<open>typeof\<close> is not \<open>object\<close>.
\<close>

theorem normalize_mw_data_null_iff:
  "normalize_mw_data v = Inr None \<longleftrightarrow>
     \<not> truthy v \<or> get v ''length'' = Inr (JNum 0) \<or> (\<exists>e. idx v 0 = Inr e \<and> typeof e \<noteq> ''object'')"
proof
  assume "normalize_mw_data v = Inr None"
  then show "\<not> truthy v \<or> get v ''length'' = Inr (JNum 0) \<or> (\<exists>e. idx v 0 = Inr e \<and> typeof e \<noteq> ''object'')"
    unfolding normalize_mw_data_def Let_def
    by (auto split: if_splits elim!: js_bind_InrE)
next
  assume "\<not> truthy v \<or> get v ''length'' = Inr (JNum 0) \<or> (\<exists>e. idx v 0 = Inr e \<and> typeof e \<noteq> ''object'')"
  moreover have "truthy v \<Longrightarrow> \<exists>l. get v ''length'' = Inr l" by (cases v) auto
  ultimately show "normalize_mw_data v = Inr None"
    unfolding normalize_mw_data_def by auto
qed

theorem normalize_mw_data_null_iff_witness:
  "normalize_mw_data (JArr []) = Inr None \<and> normalize_mw_data (JArr [JStr ''run'']) = Inr None \<and>
   normalize_mw_data (JStr []) = Inr None"
  using normalize_mw_data_null_iff [of "JArr []"] normalize_mw_data_null_iff [of "JArr [JStr ''run'']"]
        normalize_mw_data_null_iff [of "JStr []"]
  by simp

text \<open>
  When there are no supplemental examples, the example is the text of the
  first \<open>vis\<close> item of the first sense, with the \<open>{wi}\<close> markup removed.
\<close>

theorem mw_examples_vis_extraction:
  "mw_examples (JObj [(''def'', JArr [JObj [(''sseq'', JArr [JArr [JArr [JStr ''sense'',
                  JObj [(''dt'', JArr [JArr [JStr ''text'', JStr ''to go faster than a walk''],
                                       JArr [JStr ''vis'', JArr [JObj [(''t'', JStr ''the dog {wi}ran{/wi} home'')]]]])]]]])]])]) = Inr [JObj [(''text'', JStr ''the dog ran home'')]]"
  by (simp add: mw_examples_def mw_has_suppl_def mw_has_sseq_def mw_vis_example_def try_catch_def is_array_def)

text \<open>
  C17. An exception inside the \<open>try\<close> block of line 33 is swallowed: the
  definition is returned with no example.
\<close>

theorem mw_examples_vis_failure_swallowed:
  assumes "mw_has_suppl e = Inr False" and "mw_has_sseq e = Inr True" and "mw_vis_example e = Inl err"
  shows "mw_examples e = Inr []"
  using assms by (simp add: mw_examples_def try_catch_def)

theorem mw_examples_vis_failure_swallowed_witness:
  "mw_examples (JObj [(''def'', JArr [JObj [(''sseq'', JNum 5)]])]) = Inr [] \<and>
   mw_vis_example (JObj [(''def'', JArr [JObj [(''sseq'', JNum 5)]])]) = Inl TypeError"
proof -
  have h1: "mw_has_suppl (JObj [(''def'', JArr [JObj [(''sseq'', JNum 5)]])]) = Inr False"
    by (simp add: mw_has_suppl_def)
  have h2: "mw_has_sseq (JObj [(''def'', JArr [JObj [(''sseq'', JNum 5)]])]) = Inr True"
    by (simp add: mw_has_sseq_def)
  have h3: "mw_vis_example (JObj [(''def'', JArr [JObj [(''sseq'', JNum 5)]])]) = Inl TypeError"
    by (simp add: mw_vis_example_def)
  from mw_examples_vis_failure_swallowed [OF h1 h2 h3] h3 show ?thesis by simp
qed

text \<open>
  C18. A record whose \<open>def\<close> is an empty array and which has no supplemental
  examples makes \<open>entry.def[0].sseq\<close> throw outside the \<open>try\<close>: the adapter throws
  a TypeError where the specification (section 4.1) expects a definition with no
  example.
\<close>

theorem mw_examples_empty_def_throws:
  assumes "mw_has_suppl e = Inr False" and "get e ''def'' = Inr (JArr [])"
  shows "mw_examples e = Inl TypeError"
  using assms by (simp add: mw_examples_def mw_has_sseq_def)

theorem mw_examples_empty_def_throws_witness:
  "mw_examples (JObj [(''shortdef'', JArr []), (''def'', JArr [])]) = Inl TypeError \<and>
   normalize_mw_data (JArr [JObj [(''shortdef'', JArr []), (''def'', JArr [])]]) = Inl TypeError"
proof -
  have h1: "mw_has_suppl (JObj [(''shortdef'', JArr []), (''def'', JArr [])]) = Inr False"
    by (simp add: mw_has_suppl_def)
  have h2: "get (JObj [(''shortdef'', JArr []), (''def'', JArr [])]) ''def'' = Inr (JArr [])" by simp
  have ex: "mw_examples (JObj [(''shortdef'', JArr []), (''def'', JArr [])]) = Inl TypeError"
    by (rule mw_examples_empty_def_throws [OF h1 h2])
  then show ?thesis by (simp add: normalize_mw_data_def mw_pronunciation_def)
qed


text \<open>
  C20. A pronunciation with a \<open>sound\<close> object but no string \<open>audio\<close> makes
  \<open>audioFile.startsWith\<close> throw, so the whole adapter throws.
\<close>

theorem mw_pronunciation_missing_audio_throws:
  assumes "get e ''hwi'' = Inr h" "truthy h" "get h ''prs'' = Inr prs" "truthy prs"
    "idx prs 0 = Inr p0" "truthy p0" "get p0 ''sound'' = Inr sound" "truthy sound"
    "get sound ''audio'' = Inr a" "\<And>s. a \<noteq> JStr s"
  shows "mw_pronunciation e = Inl TypeError \<and> normalize_mw_data (JArr [e]) = Inl TypeError"
proof -
  obtain m where m: "get p0 ''mw'' = Inr m"
    using get_truthy [OF assms(6)] by (cases "get p0 ''mw''") auto
  have sub: "mw_audio_subdir a = Inl TypeError"
    using assms(10) by (cases a) (auto simp: mw_audio_subdir_def)
  have pr: "mw_pronunciation e = Inl TypeError"
    using assms(1-9) m sub by (simp add: mw_pronunciation_def Let_def)
  have "typeof e = ''object''"
    using assms(1,2) by (cases e) auto
  with pr show ?thesis by (simp add: normalize_mw_data_def)
qed

theorem mw_pronunciation_missing_audio_throws_witness:
  "mw_pronunciation (JObj [(''hwi'', JObj [(''prs'', JArr [JObj [(''mw'', JStr ''r@n''), (''sound'', JObj [])]])])]) =
     Inl TypeError \<and>
   normalize_mw_data (JArr [JObj [(''hwi'', JObj [(''prs'', JArr [JObj [(''mw'', JStr ''r@n''), (''sound'', JObj [])]])])]]) =
     Inl TypeError"
  by (rule mw_pronunciation_missing_audio_throws) auto

text \<open>
  Markup removal is a single left-to-right pass: removing \<open>{it}\<close> from
  \<open>{i{it}t}\<close> leaves a new \<open>{it}\<close> in the example text.
\<close>

theorem mw_markup_not_rescanned:
  "mw_examples (JObj [(''suppl'', JObj [(''examples'', JArr [JObj [(''t'', JStr ''{i{it}t}'')]])])]) =
     Inr [JObj [(''text'', JStr ''{it}'')]]"
  by (simp add: mw_examples_def mw_has_suppl_def)

end
