(* ===== verification/Projection.thy ===== *)
theory Projection
  imports Entry
begin

text \<open>
  The preference projector: \<open>applyDisplayPreferences\<close> of
  src/extension/background.js (lines 67-86), on the JSON values the code
  handles, and the abstract projection of the specification (section 4.2) on
  typed entries that it refines.
\<close>

section \<open>Abstract projection\<close>

datatype scope = Relevant | All

record prefs =
  scope :: scope
  example_count :: nat

definition project_sense :: "nat \<Rightarrow> sense \<Rightarrow> sense" where
  "project_sense k s = s\<lparr>sense_examples := take k (sense_examples s)\<rparr>"

definition project :: "prefs \<Rightarrow> entry \<Rightarrow> entry" where
  "project p e =
     e\<lparr>senses := map (project_sense (example_count p))
                    (if scope p = Relevant then take 1 (senses e) else senses e)\<rparr>"

section \<open>The code\<close>

text \<open>\<open>settings.definitionScope || 'relevant'\<close> and the example count (lines 68-69).\<close>

definition scope_setting :: "(key \<times> jval) list \<Rightarrow> jval" where
  "scope_setting settings = js_or (prop_of settings ''definitionScope'') (JStr ''relevant'')"

definition count_setting :: "(key \<times> jval) list \<Rightarrow> jval" where
  "count_setting settings =
     (if prop_of settings ''exampleCount'' \<noteq> JUndef then prop_of settings ''exampleCount'' else JNum 1)"

text \<open>The callback of \<open>definitionsToUse.map\<close> (lines 77-83).\<close>

definition trim_examples :: "jval \<Rightarrow> jval \<Rightarrow> jval js" where
  "trim_examples count def =
     (let newDef = spread_obj def; ex = prop_of newDef ''example'' in
      if truthy ex
      then js_bind (get ex ''length'') (\<lambda>len.
             if js_gt len count
             then js_bind (js_slice0 ex count) (\<lambda>ex'. Inr (JObj (put_prop ''example'' ex' newDef)))
             else Inr (JObj newDef))
      else Inr (JObj newDef))"

definition apply_display_preferences :: "jval \<Rightarrow> (key \<times> jval) list \<Rightarrow> jval js" where
  "apply_display_preferences data settings =
     (let scope = scope_setting settings; count = count_setting settings in
      js_bind (get data ''definition'') (\<lambda>d.
      js_bind (spread_array d) (\<lambda>defs.
      let defs' = (if scope = JStr ''relevant'' \<and> 1 < length defs then [defs ! 0] else defs) in
      js_bind (map_js (trim_examples count) defs') (\<lambda>final.
      Inr (JObj (put_prop ''definition'' (JArr final) (spread_obj data)))))))"


text \<open>
  The abstraction of the settings object to the display preferences of the
  specification: defined when the example count reads as a non-negative number.
\<close>

definition prefs_of :: "(key \<times> jval) list \<Rightarrow> prefs option" where
  "prefs_of s =
     (case to_num (count_setting s) of
        Some n \<Rightarrow>
          if 0 \<le> n
          then Some \<lparr>scope = (if scope_setting s = JStr ''relevant'' then Relevant else All),
                     example_count = nat n\<rparr>
          else None
      | None \<Rightarrow> None)"

section \<open>Facts about one definition object\<close>

lemmas projection_eval =
  apply_display_preferences_def trim_examples_def scope_setting_def count_setting_def
  js_or_def Let_def slice_end_def prefs_of_def

lemma trim_examples_sense:
  assumes "to_num c = Some (int k)"
  shows "trim_examples c (sense_json s) = Inr (sense_json (project_sense k s))"
proof (cases "k < length (sense_examples s)")
  case True
  with assms show ?thesis
    by (simp add: trim_examples_def sense_json_def project_sense_def js_gt_num_left
        slice_end_nonneg take_map)
next
  case False
  with assms show ?thesis
    by (simp add: trim_examples_def sense_json_def project_sense_def js_gt_num_left)
qed

lemma slice_settles:
  assumes "js_slice0 ex c = Inr ex'" and "to_num c = Some n" and "0 \<le> n"
  shows "\<exists>l. get ex' ''length'' = Inr l \<and> \<not> js_gt l c"
proof (cases ex)
  case (JStr s)
  with assms(1) have "ex' = JStr (take (slice_end (length s) c) s)" by simp
  with slice_end_bound [OF assms(2,3), of "length s"] assms(2,3) show ?thesis
    by (simp add: js_gt_num_left)
next
  case (JArr xs)
  with assms(1) have "ex' = JArr (take (slice_end (length xs) c) xs)" by simp
  with slice_end_bound [OF assms(2,3), of "length xs"] assms(2,3) show ?thesis
    by (simp add: js_gt_num_left)
qed (use assms(1) in auto)

lemma slice_gt_num:
  assumes "js_slice0 ex c = Inr ex'" and "get ex ''length'' = Inr l" and "js_gt l c"
  shows "\<exists>n. to_num c = Some n"
  using assms by (cases ex) (auto split: option.splits)

text \<open>A negative count slices from the end: \<open>slice(0, n)\<close> keeps all but \<open>-n\<close> examples.\<close>

lemma trim_examples_negative:
  assumes "n < 0" and "prop_of (spread_obj d) ''example'' = JArr xs"
  shows "trim_examples (JNum n) d =
           Inr (JObj (put_prop ''example'' (JArr (take (nat (int (length xs) + n)) xs)) (spread_obj d)))"
  using assms by (simp add: trim_examples_def slice_end_def Let_def max_def)

text \<open>The three ways the callback of lines 77-83 can return.\<close>

lemma trim_examples_Inr:
  assumes "trim_examples c x = Inr y"
  shows "(\<exists>ex' l. get (prop_of (spread_obj x) ''example'') ''length'' = Inr l \<and> js_gt l c \<and>
            js_slice0 (prop_of (spread_obj x) ''example'') c = Inr ex' \<and>
            y = JObj (put_prop ''example'' ex' (spread_obj x)))
         \<or> (\<exists>l. get (prop_of (spread_obj x) ''example'') ''length'' = Inr l \<and> \<not> js_gt l c \<and>
              y = JObj (spread_obj x))
         \<or> (\<not> truthy (prop_of (spread_obj x) ''example'') \<and> y = JObj (spread_obj x))"
  using assms by (auto simp: trim_examples_def Let_def js_bind_eq_Inr split: if_splits)

lemma trim_examples_idem:
  assumes "trim_examples c d = Inr d'" and "\<And>n. to_num c = Some n \<Longrightarrow> 0 \<le> n"
  shows "trim_examples c d' = Inr d'"
  using trim_examples_Inr [OF assms(1)]
proof (elim disjE exE conjE)
  let ?kvs = "spread_obj d"
  fix ex' l
  assume l: "get (prop_of ?kvs ''example'') ''length'' = Inr l" "js_gt l c"
    and ex': "js_slice0 (prop_of ?kvs ''example'') c = Inr ex'"
    and d': "d' = JObj (put_prop ''example'' ex' ?kvs)"
  from slice_gt_num [OF ex' l] obtain n where "to_num c = Some n" by blast
  with assms(2) have n: "to_num c = Some n" "0 \<le> n" by auto
  show ?thesis
  proof (cases "truthy ex'")
    case True
    with slice_settles [OF ex' n] d' show ?thesis
      by (auto simp: trim_examples_def Let_def)
  next
    case False
    with d' show ?thesis by (simp add: trim_examples_def Let_def)
  qed
next
  fix l
  assume "get (prop_of (spread_obj d) ''example'') ''length'' = Inr l" and "\<not> js_gt l c"
    and "d' = JObj (spread_obj d)"
  then show ?thesis by (simp add: trim_examples_def Let_def)
next
  assume "\<not> truthy (prop_of (spread_obj d) ''example'')" and "d' = JObj (spread_obj d)"
  then show ?thesis by (simp add: trim_examples_def Let_def)
qed

lemma trim_examples_shrinks:
  assumes "trim_examples c x = Inr y"
  shows "k \<noteq> ''example'' \<Longrightarrow> prop_of (spread_obj y) k = prop_of (spread_obj x) k"
    and "seq_prefix (prop_of (spread_obj y) ''example'') (prop_of (spread_obj x) ''example'')"
  using trim_examples_Inr [OF assms]
  by (auto simp: take_is_prefix elim!: js_slice0.elims)

lemma trim_examples_bound:
  assumes "trim_examples c x = Inr y" and "to_num c = Some n" and "0 \<le> n"
    and "prop_of (spread_obj y) ''example'' = JArr xs"
  shows "length xs \<le> nat n"
  using trim_examples_Inr [OF assms(1)]
proof (elim disjE exE conjE)
  let ?ex = "prop_of (spread_obj x) ''example''"
  fix ex' l
  assume "js_slice0 ?ex c = Inr ex'" and "y = JObj (put_prop ''example'' ex' (spread_obj x))"
  with assms(4) have "js_slice0 ?ex c = Inr (JArr xs)" by simp
  with slice_end_bound [OF assms(2,3)] show ?thesis
    by (auto elim!: js_slice0.elims simp: min_le_iff_disj)
next
  fix l
  assume "get (prop_of (spread_obj x) ''example'') ''length'' = Inr l" and "\<not> js_gt l c"
    and "y = JObj (spread_obj x)"
  with assms(2,3,4) show ?thesis
    by (auto simp: js_gt_num_left)
next
  assume "\<not> truthy (prop_of (spread_obj x) ''example'')" and "y = JObj (spread_obj x)"
  with assms(4) show ?thesis by simp
qed

section \<open>Facts about the whole projection\<close>

lemma apply_display_preferences_Inr:
  assumes "apply_display_preferences d s = Inr d'"
  obtains dv defs final where "get d ''definition'' = Inr dv" and "spread_array dv = Inr defs"
    and "map_js (trim_examples (count_setting s))
           (if scope_setting s = JStr ''relevant'' \<and> 1 < length defs then [defs ! 0] else defs) = Inr final"
    and "d' = JObj (put_prop ''definition'' (JArr final) (spread_obj d))"
  using assms by (auto simp: apply_display_preferences_def Let_def js_bind_eq_Inr)

lemma apply_display_preferences_Inr_defs:
  assumes "apply_display_preferences d s = Inr d'"
    and "get d ''definition'' = Inr dv" and "spread_array dv = Inr defs"
  obtains final where "map_js (trim_examples (count_setting s))
           (if scope_setting s = JStr ''relevant'' \<and> 1 < length defs then [defs ! 0] else defs) = Inr final"
    and "d' = JObj (put_prop ''definition'' (JArr final) (spread_obj d))"
  using assms by (auto simp: apply_display_preferences_def Let_def js_bind_eq_Inr)

lemma spread_array_get_obj:
  "get d k = Inr v \<Longrightarrow> spread_array v = Inr xs \<Longrightarrow> k \<noteq> ''length'' \<Longrightarrow> d = JObj (spread_obj d)"
  by (cases d) auto

lemma relevant_first: "(if b \<and> 1 < length xs then [xs ! 0] else xs) = (if b then take 1 xs else xs)"
  by (cases xs) auto

lemma apply_display_preferences_entry_json:
  assumes "to_num (count_setting s) = Some (int k)"
  shows "apply_display_preferences (entry_json e) s =
           Inr (entry_json (project \<lparr>scope = (if scope_setting s = JStr ''relevant'' then Relevant else All),
                                     example_count = k\<rparr> e))"
proof -
  have "map_js (trim_examples (count_setting s)) (map sense_json xs)
          = Inr (map (sense_json \<circ> project_sense k) xs)" for xs
    by (rule map_js_map_Inr) (simp add: trim_examples_sense [OF assms])
  then show ?thesis
    unfolding apply_display_preferences_def Let_def relevant_first
    by (simp add: entry_json_def project_def take_map)
qed


section \<open>Properties of the projection\<close>

text \<open>
  C1. On every entry in the canonical shape, \<open>applyDisplayPreferences\<close> computes
  exactly the abstract projection of the specification (keep the first sense when
  the scope is relevant, then the first k examples of each kept sense), for every
  settings object whose example count reads as a non-negative number.
\<close>

theorem apply_display_preferences_refines:
  assumes "prefs_of s = Some p"
  shows "apply_display_preferences (entry_json e) s = Inr (entry_json (project p e))"
proof -
  from assms obtain n where n: "to_num (count_setting s) = Some n" "0 \<le> n"
    and p: "p = \<lparr>scope = (if scope_setting s = JStr ''relevant'' then Relevant else All),
                 example_count = nat n\<rparr>"
    by (auto simp: prefs_of_def split: option.splits if_splits)
  then have "to_num (count_setting s) = Some (int (nat n))" by simp
  from apply_display_preferences_entry_json [OF this] p show ?thesis by simp
qed

theorem apply_display_preferences_refines_witness:
  "prefs_of [(''definitionScope'', JStr ''relevant''), (''exampleCount'', JNum 1)] =
     Some \<lparr>scope = Relevant, example_count = 1\<rparr> \<and>
   apply_display_preferences
     (entry_json \<lparr>headword = ''run'', translation = None, parts_of_speech = [''verb'', ''noun''],
        inflections = [], pronunciations = [\<lparr>pr_lang = ''us'', pr_phon = [], pr_url = []\<rparr>],
        senses = [\<lparr>sense_pos = ''verb'', sense_text = ''move fast'', sense_translation = None,
                    sense_examples = [\<lparr>ex_text = ''He can run fast.'', ex_translation = None\<rparr>,
                                      \<lparr>ex_text = ''Run!'', ex_translation = None\<rparr>]\<rparr>,
                  \<lparr>sense_pos = ''noun'', sense_text = ''a race'', sense_translation = None,
                    sense_examples = []\<rparr>]\<rparr>)
     [(''definitionScope'', JStr ''relevant''), (''exampleCount'', JNum 1)] =
   Inr (entry_json \<lparr>headword = ''run'', translation = None, parts_of_speech = [''verb'', ''noun''],
        inflections = [], pronunciations = [\<lparr>pr_lang = ''us'', pr_phon = [], pr_url = []\<rparr>],
        senses = [\<lparr>sense_pos = ''verb'', sense_text = ''move fast'', sense_translation = None,
                    sense_examples = [\<lparr>ex_text = ''He can run fast.'', ex_translation = None\<rparr>]\<rparr>]\<rparr>)"
proof -
  have h: "prefs_of [(''definitionScope'', JStr ''relevant''), (''exampleCount'', JNum 1)] =
             Some \<lparr>scope = Relevant, example_count = 1\<rparr>"
    by (simp add: projection_eval)
  show ?thesis
    using h apply_display_preferences_refines [OF h] by (simp add: project_def project_sense_def)
qed

text \<open>
  C2. Projecting an already projected entry again with the same settings changes
  nothing, for every payload, whenever the example count is not a negative number.
\<close>

theorem apply_display_preferences_idempotent:
  assumes "apply_display_preferences d s = Inr d'"
    and "\<And>n. to_num (count_setting s) = Some n \<Longrightarrow> 0 \<le> n"
  shows "apply_display_preferences d' s = Inr d'"
proof -
  from assms(1) obtain defs final where
    final: "map_js (trim_examples (count_setting s))
              (if scope_setting s = JStr ''relevant'' \<and> 1 < length defs then [defs ! 0] else defs) = Inr final"
    and d': "d' = JObj (put_prop ''definition'' (JArr final) (spread_obj d))"
    by (rule apply_display_preferences_Inr)
  from final have "length final =
      length (if scope_setting s = JStr ''relevant'' \<and> 1 < length defs then [defs ! 0] else defs)"
    by (rule map_js_length)
  then have len: "\<not> (scope_setting s = JStr ''relevant'' \<and> 1 < length final)"
    by (simp split: if_splits)
  from final have "map_js (trim_examples (count_setting s)) final = Inr final"
    by (rule map_js_idem) (rule trim_examples_idem [OF _ assms(2)])
  with len d' show ?thesis
    by (cases "scope_setting s = JStr ''relevant''") (simp_all add: apply_display_preferences_def Let_def)
qed

theorem apply_display_preferences_idempotent_witness:
  "apply_display_preferences
     (JObj [(''word'', JStr ''run''),
            (''definition'', JArr [JObj [(''pos'', JStr ''verb''), (''example'', JArr [JStr ''a'', JStr ''b''])],
                                   JObj [(''pos'', JStr ''noun'')]])])
     [(''exampleCount'', JNum 1)] =
     Inr (JObj [(''word'', JStr ''run''),
                (''definition'', JArr [JObj [(''pos'', JStr ''verb''), (''example'', JArr [JStr ''a''])]])]) \<and>
   to_num (count_setting [(''exampleCount'', JNum 1)]) = Some 1 \<and>
   apply_display_preferences
     (JObj [(''word'', JStr ''run''),
            (''definition'', JArr [JObj [(''pos'', JStr ''verb''), (''example'', JArr [JStr ''a''])]])])
     [(''exampleCount'', JNum 1)] =
     Inr (JObj [(''word'', JStr ''run''),
                (''definition'', JArr [JObj [(''pos'', JStr ''verb''), (''example'', JArr [JStr ''a''])]])])"
proof -
  have h1: "apply_display_preferences
     (JObj [(''word'', JStr ''run''),
            (''definition'', JArr [JObj [(''pos'', JStr ''verb''), (''example'', JArr [JStr ''a'', JStr ''b''])],
                                   JObj [(''pos'', JStr ''noun'')]])])
     [(''exampleCount'', JNum 1)] =
     Inr (JObj [(''word'', JStr ''run''),
                (''definition'', JArr [JObj [(''pos'', JStr ''verb''), (''example'', JArr [JStr ''a''])]])])"
    by (simp add: projection_eval)
  have h2: "\<And>n. to_num (count_setting [(''exampleCount'', JNum 1)]) = Some n \<Longrightarrow> 0 \<le> n"
    by (simp add: count_setting_def)
  show ?thesis
    using h1 apply_display_preferences_idempotent [OF h1 h2] by (simp add: count_setting_def)
qed

text \<open>
  C3. The relevant scope keeps at most the first definition, any other scope
  keeps all of them: the projected \<open>definition\<close> array has \<open>min 1 N\<close> elements
  under the relevant scope and \<open>N\<close> otherwise.
\<close>

theorem apply_display_preferences_scope:
  assumes "apply_display_preferences d s = Inr d'"
    and "get d ''definition'' = Inr dv" and "spread_array dv = Inr defs"
  shows "\<exists>final. get d' ''definition'' = Inr (JArr final) \<and>
           length final = (if scope_setting s = JStr ''relevant'' then min 1 (length defs) else length defs)"
proof -
  obtain final where
    final: "map_js (trim_examples (count_setting s))
           (if scope_setting s = JStr ''relevant'' \<and> 1 < length defs then [defs ! 0] else defs) = Inr final"
    and d': "d' = JObj (put_prop ''definition'' (JArr final) (spread_obj d))"
    using assms by (rule apply_display_preferences_Inr_defs)
  from final have "length final =
      length (if scope_setting s = JStr ''relevant'' \<and> 1 < length defs then [defs ! 0] else defs)"
    by (rule map_js_length)
  with d' show ?thesis by auto
qed

theorem apply_display_preferences_scope_witness:
  "apply_display_preferences (JObj [(''word'', JStr ''run''),
            (''definition'', JArr [JObj [(''pos'', JStr ''verb''), (''example'', JArr [JStr ''a'', JStr ''b''])],
                                   JObj [(''pos'', JStr ''noun'')]])]) [(''exampleCount'', JNum 1)] = Inr (JObj [(''word'', JStr ''run''),
                (''definition'', JArr [JObj [(''pos'', JStr ''verb''), (''example'', JArr [JStr ''a''])]])]) \<and>
   get (JObj [(''word'', JStr ''run''),
            (''definition'', JArr [JObj [(''pos'', JStr ''verb''), (''example'', JArr [JStr ''a'', JStr ''b''])],
                                   JObj [(''pos'', JStr ''noun'')]])]) ''definition'' = Inr (JArr [JObj [(''pos'', JStr ''verb''), (''example'', JArr [JStr ''a'', JStr ''b''])],
                                   JObj [(''pos'', JStr ''noun'')]]) \<and> spread_array (JArr [JObj [(''pos'', JStr ''verb''), (''example'', JArr [JStr ''a'', JStr ''b''])],
                                   JObj [(''pos'', JStr ''noun'')]]) = Inr [JObj [(''pos'', JStr ''verb''), (''example'', JArr [JStr ''a'', JStr ''b''])],
                                   JObj [(''pos'', JStr ''noun'')]] \<and>
   (\<exists>final. get (JObj [(''word'', JStr ''run''),
                (''definition'', JArr [JObj [(''pos'', JStr ''verb''), (''example'', JArr [JStr ''a''])]])]) ''definition'' = Inr (JArr final) \<and> length final = 1)"
proof -
  have h1: "apply_display_preferences (JObj [(''word'', JStr ''run''),
            (''definition'', JArr [JObj [(''pos'', JStr ''verb''), (''example'', JArr [JStr ''a'', JStr ''b''])],
                                   JObj [(''pos'', JStr ''noun'')]])]) [(''exampleCount'', JNum 1)] = Inr (JObj [(''word'', JStr ''run''),
                (''definition'', JArr [JObj [(''pos'', JStr ''verb''), (''example'', JArr [JStr ''a''])]])])"
    by (simp add: projection_eval)
  have h2: "get (JObj [(''word'', JStr ''run''),
            (''definition'', JArr [JObj [(''pos'', JStr ''verb''), (''example'', JArr [JStr ''a'', JStr ''b''])],
                                   JObj [(''pos'', JStr ''noun'')]])]) ''definition'' = Inr (JArr [JObj [(''pos'', JStr ''verb''), (''example'', JArr [JStr ''a'', JStr ''b''])],
                                   JObj [(''pos'', JStr ''noun'')]])" by simp
  have h3: "spread_array (JArr [JObj [(''pos'', JStr ''verb''), (''example'', JArr [JStr ''a'', JStr ''b''])],
                                   JObj [(''pos'', JStr ''noun'')]]) = Inr [JObj [(''pos'', JStr ''verb''), (''example'', JArr [JStr ''a'', JStr ''b''])],
                                   JObj [(''pos'', JStr ''noun'')]]" by simp
  show ?thesis
    using h1 h2 h3 apply_display_preferences_scope [OF h1 h2 h3] by (simp add: scope_setting_def js_or_def)
qed

text \<open>
  C4. With an example count k that reads as a non-negative number, every
  example array left in a projected definition has at most k elements.
\<close>

theorem apply_display_preferences_example_bound:
  assumes "apply_display_preferences d s = Inr d'"
    and "to_num (count_setting s) = Some n" and "0 \<le> n"
  shows "\<exists>final. get d' ''definition'' = Inr (JArr final) \<and>
           (\<forall>x \<in> set final. \<forall>xs. prop_of (spread_obj x) ''example'' = JArr xs \<longrightarrow> length xs \<le> nat n)"
proof -
  from assms(1) obtain defs final where
    final: "map_js (trim_examples (count_setting s))
           (if scope_setting s = JStr ''relevant'' \<and> 1 < length defs then [defs ! 0] else defs) = Inr final"
    and d': "d' = JObj (put_prop ''definition'' (JArr final) (spread_obj d))"
    by (rule apply_display_preferences_Inr)
  have "length xs \<le> nat n" if "x \<in> set final" and "prop_of (spread_obj x) ''example'' = JArr xs" for x xs
  proof -
    from \<open>x \<in> set final\<close> obtain i where i: "i < length final" and x: "x = final ! i"
      by (auto simp: in_set_conv_nth)
    from map_js_nth [OF final i] x assms(2,3) that(2) show ?thesis
      by (blast intro: trim_examples_bound)
  qed
  with d' show ?thesis by auto
qed

theorem apply_display_preferences_example_bound_witness:
  "apply_display_preferences (JObj [(''word'', JStr ''run''),
            (''definition'', JArr [JObj [(''pos'', JStr ''verb''), (''example'', JArr [JStr ''a'', JStr ''b''])],
                                   JObj [(''pos'', JStr ''noun'')]])]) [(''exampleCount'', JNum 1)] = Inr (JObj [(''word'', JStr ''run''), (''definition'', JArr [JObj [(''pos'', JStr ''verb''), (''example'', JArr [JStr ''a''])]])]) \<and>
   to_num (count_setting [(''exampleCount'', JNum 1)]) = Some 1 \<and>
   length [JStr ''a''] \<le> nat 1"
proof -
  have h1: "apply_display_preferences (JObj [(''word'', JStr ''run''),
            (''definition'', JArr [JObj [(''pos'', JStr ''verb''), (''example'', JArr [JStr ''a'', JStr ''b''])],
                                   JObj [(''pos'', JStr ''noun'')]])]) [(''exampleCount'', JNum 1)] =
              Inr (JObj [(''word'', JStr ''run''), (''definition'', JArr [JObj [(''pos'', JStr ''verb''), (''example'', JArr [JStr ''a''])]])])"
    by (simp add: projection_eval)
  have h2: "to_num (count_setting [(''exampleCount'', JNum 1)]) = Some 1" by (simp add: count_setting_def)
  have h3: "(0::int) \<le> 1" by simp
  from apply_display_preferences_example_bound [OF h1 h2 h3]
  have "length [JStr ''a''] \<le> nat 1" by simp
  with h1 h2 show ?thesis by simp
qed

text \<open>
  C5. Projection never adds: the projected definitions are at most as many as
  the original ones, each keeps every property of the original at the same
  position but \<open>example\<close>, whose value is an initial part of the original, and
  every other property of the entry is copied unchanged.
\<close>

theorem apply_display_preferences_never_adds:
  assumes "apply_display_preferences d s = Inr d'"
    and "get d ''definition'' = Inr dv" and "spread_array dv = Inr defs"
  shows "\<exists>final. get d' ''definition'' = Inr (JArr final) \<and> length final \<le> length defs \<and>
           (\<forall>k. k \<noteq> ''definition'' \<longrightarrow> get d' k = get d k) \<and>
           (\<forall>i < length final.
              seq_prefix (prop_of (spread_obj (final ! i)) ''example'') (prop_of (spread_obj (defs ! i)) ''example'') \<and>
              (\<forall>k. k \<noteq> ''example'' \<longrightarrow> prop_of (spread_obj (final ! i)) k = prop_of (spread_obj (defs ! i)) k))"
proof -
  let ?defs = "if scope_setting s = JStr ''relevant'' \<and> 1 < length defs then [defs ! 0] else defs"
  obtain final where
    final: "map_js (trim_examples (count_setting s)) ?defs = Inr final"
    and d': "d' = JObj (put_prop ''definition'' (JArr final) (spread_obj d))"
    using assms by (rule apply_display_preferences_Inr_defs)
  have len: "length final = length ?defs" using final by (rule map_js_length)
  have obj: "d = JObj (spread_obj d)"
    using assms(2,3) by (rule spread_array_get_obj) simp
  have elem: "seq_prefix (prop_of (spread_obj (final ! i)) ''example'') (prop_of (spread_obj (defs ! i)) ''example'') \<and>
              (\<forall>k. k \<noteq> ''example'' \<longrightarrow> prop_of (spread_obj (final ! i)) k = prop_of (spread_obj (defs ! i)) k)"
    if i: "i < length final" for i
  proof -
    from map_js_nth [OF final i] len i
    have tr: "trim_examples (count_setting s) (defs ! i) = Inr (final ! i)"
      by (auto split: if_splits)
    show ?thesis using trim_examples_shrinks [OF tr] by blast
  qed
  have le: "length final \<le> length defs" using len by auto
  have other: "get d' k = get d k" if "k \<noteq> ''definition''" for k
  proof -
    from obj have "get d k = Inr (prop_of (spread_obj d) k)" by (metis get.simps(7))
    with d' that show ?thesis by simp
  qed
  have getdef: "get d' ''definition'' = Inr (JArr final)" using d' by simp
  show ?thesis
    using getdef le other elem by blast
qed

theorem apply_display_preferences_never_adds_witness:
  "apply_display_preferences (JObj [(''word'', JStr ''run''),
            (''definition'', JArr [JObj [(''pos'', JStr ''verb''), (''example'', JArr [JStr ''a'', JStr ''b''])],
                                   JObj [(''pos'', JStr ''noun'')]])]) [(''exampleCount'', JNum 1)] = Inr (JObj [(''word'', JStr ''run''),
                (''definition'', JArr [JObj [(''pos'', JStr ''verb''), (''example'', JArr [JStr ''a''])]])]) \<and>
   get (JObj [(''word'', JStr ''run''),
            (''definition'', JArr [JObj [(''pos'', JStr ''verb''), (''example'', JArr [JStr ''a'', JStr ''b''])],
                                   JObj [(''pos'', JStr ''noun'')]])]) ''definition'' = Inr (JArr [JObj [(''pos'', JStr ''verb''), (''example'', JArr [JStr ''a'', JStr ''b''])],
                   JObj [(''pos'', JStr ''noun'')]]) \<and> spread_array (JArr [JObj [(''pos'', JStr ''verb''), (''example'', JArr [JStr ''a'', JStr ''b''])],
                   JObj [(''pos'', JStr ''noun'')]]) = Inr [JObj [(''pos'', JStr ''verb''), (''example'', JArr [JStr ''a'', JStr ''b''])],
                   JObj [(''pos'', JStr ''noun'')]] \<and>
   get (JObj [(''word'', JStr ''run''),
                (''definition'', JArr [JObj [(''pos'', JStr ''verb''), (''example'', JArr [JStr ''a''])]])]) ''word'' = get (JObj [(''word'', JStr ''run''),
            (''definition'', JArr [JObj [(''pos'', JStr ''verb''), (''example'', JArr [JStr ''a'', JStr ''b''])],
                                   JObj [(''pos'', JStr ''noun'')]])]) ''word''"
proof -
  have h1: "apply_display_preferences (JObj [(''word'', JStr ''run''),
            (''definition'', JArr [JObj [(''pos'', JStr ''verb''), (''example'', JArr [JStr ''a'', JStr ''b''])],
                                   JObj [(''pos'', JStr ''noun'')]])]) [(''exampleCount'', JNum 1)] = Inr (JObj [(''word'', JStr ''run''),
                (''definition'', JArr [JObj [(''pos'', JStr ''verb''), (''example'', JArr [JStr ''a''])]])])"
    by (simp add: projection_eval)
  have h2: "get (JObj [(''word'', JStr ''run''),
            (''definition'', JArr [JObj [(''pos'', JStr ''verb''), (''example'', JArr [JStr ''a'', JStr ''b''])],
                                   JObj [(''pos'', JStr ''noun'')]])]) ''definition'' = Inr (JArr [JObj [(''pos'', JStr ''verb''), (''example'', JArr [JStr ''a'', JStr ''b''])],
                   JObj [(''pos'', JStr ''noun'')]])" by simp
  have h3: "spread_array (JArr [JObj [(''pos'', JStr ''verb''), (''example'', JArr [JStr ''a'', JStr ''b''])],
                   JObj [(''pos'', JStr ''noun'')]]) = Inr [JObj [(''pos'', JStr ''verb''), (''example'', JArr [JStr ''a'', JStr ''b''])],
                   JObj [(''pos'', JStr ''noun'')]]" by simp
  have all: "\<forall>k. k \<noteq> ''definition'' \<longrightarrow> get (JObj [(''word'', JStr ''run''),
                (''definition'', JArr [JObj [(''pos'', JStr ''verb''), (''example'', JArr [JStr ''a''])]])]) k = get (JObj [(''word'', JStr ''run''),
            (''definition'', JArr [JObj [(''pos'', JStr ''verb''), (''example'', JArr [JStr ''a'', JStr ''b''])],
                                   JObj [(''pos'', JStr ''noun'')]])]) k"
    using apply_display_preferences_never_adds [OF h1 h2 h3] by (elim exE conjE) assumption
  have "get (JObj [(''word'', JStr ''run''),
                (''definition'', JArr [JObj [(''pos'', JStr ''verb''), (''example'', JArr [JStr ''a''])]])]) ''word'' = get (JObj [(''word'', JStr ''run''),
            (''definition'', JArr [JObj [(''pos'', JStr ''verb''), (''example'', JArr [JStr ''a'', JStr ''b''])],
                                   JObj [(''pos'', JStr ''noun'')]])]) ''word''"
    using spec [OF all, of "''word''"] by simp
  with h1 h2 h3 show ?thesis by blast
qed

text \<open>
  C6. An absent \<open>exampleCount\<close> setting means one example per sense, neither
  none nor all of them.
\<close>

theorem apply_display_preferences_default_count:
  assumes "prop_of s ''exampleCount'' = JUndef"
  shows "apply_display_preferences (entry_json e) s =
           Inr (entry_json (project \<lparr>scope = (if scope_setting s = JStr ''relevant'' then Relevant else All),
                                     example_count = 1\<rparr> e))"
proof -
  from assms have "to_num (count_setting s) = Some (int 1)" by (simp add: count_setting_def)
  then show ?thesis by (rule apply_display_preferences_entry_json)
qed

theorem apply_display_preferences_default_count_witness:
  "prop_of [(''definitionScope'', JStr ''all'')] ''exampleCount'' = JUndef \<and>
   apply_display_preferences
     (entry_json \<lparr>headword = ''run'', translation = None, parts_of_speech = [''verb''],
        inflections = [], pronunciations = [],
        senses = [\<lparr>sense_pos = ''verb'', sense_text = ''move fast'', sense_translation = None,
                    sense_examples = [\<lparr>ex_text = ''a'', ex_translation = None\<rparr>,
                                      \<lparr>ex_text = ''b'', ex_translation = None\<rparr>]\<rparr>]\<rparr>)
     [(''definitionScope'', JStr ''all'')] =
   Inr (entry_json \<lparr>headword = ''run'', translation = None, parts_of_speech = [''verb''],
        inflections = [], pronunciations = [],
        senses = [\<lparr>sense_pos = ''verb'', sense_text = ''move fast'', sense_translation = None,
                    sense_examples = [\<lparr>ex_text = ''a'', ex_translation = None\<rparr>]\<rparr>]\<rparr>)"
proof -
  have h: "prop_of [(''definitionScope'', JStr ''all'')] ''exampleCount'' = JUndef" by simp
  show ?thesis
    using h apply_display_preferences_default_count [OF h]
    by (simp add: project_def project_sense_def scope_setting_def js_or_def)
qed

text \<open>
  C7. The code does not guard against a negative example count: for every
  definition object and every count \<open>n < 0\<close>, \<open>slice(0, n)\<close> drops the last
  \<open>-n\<close> examples, and projecting the result again drops \<open>-n\<close> more, so re-projection
  changes every definition with more than \<open>-n\<close> examples: idempotence needs the
  count to be non-negative.
\<close>

theorem negative_count_reprojection_drops_more:
  assumes "n < 0" and "prop_of (spread_obj d) ''example'' = JArr xs"
  shows "\<exists>d1 d2. trim_examples (JNum n) d = Inr d1 \<and> trim_examples (JNum n) d1 = Inr d2 \<and>
           prop_of (spread_obj d1) ''example'' = JArr (take (nat (int (length xs) + n)) xs) \<and>
           prop_of (spread_obj d2) ''example'' = JArr (take (nat (int (length xs) + 2 * n)) xs) \<and>
           (- n < int (length xs) \<longrightarrow> d2 \<noteq> d1)"
proof -
  let ?ys = "take (nat (int (length xs) + n)) xs"
  let ?d1 = "JObj (put_prop ''example'' (JArr ?ys) (spread_obj d))"
  have t1: "trim_examples (JNum n) d = Inr ?d1" by (rule trim_examples_negative [OF assms])
  have e1: "prop_of (spread_obj ?d1) ''example'' = JArr ?ys" by simp
  let ?zs = "take (nat (int (length ?ys) + n)) ?ys"
  let ?d2 = "JObj (put_prop ''example'' (JArr ?zs) (spread_obj ?d1))"
  have t2: "trim_examples (JNum n) ?d1 = Inr ?d2" by (rule trim_examples_negative [OF assms(1) e1])
  have z: "?zs = take (nat (int (length xs) + 2 * n)) xs"
    using assms(1) by (simp add: min_def nat_diff_distrib' split: if_splits) (simp add: nat_le_iff add.commute)
  have ne: "?d2 \<noteq> ?d1" if "- n < int (length xs)"
  proof
    assume eq: "?d2 = ?d1"
    have "JArr ?zs = JArr ?ys"
      using arg_cong [OF eq, of "\<lambda>x. prop_of (spread_obj x) ''example''"] by simp
    then have "length ?zs = length ?ys" by simp
    with that assms(1) show False by simp
  qed
  show ?thesis
    using t1 t2 e1 z ne by (intro exI [of _ ?d1] exI [of _ ?d2]) simp
qed

theorem negative_count_reprojection_drops_more_witness:
  "trim_examples (JNum (-1)) (JObj [(''example'', JArr [JStr ''a'', JStr ''b''])]) =
     Inr (JObj [(''example'', JArr [JStr ''a''])]) \<and>
   trim_examples (JNum (-1)) (JObj [(''example'', JArr [JStr ''a''])]) = Inr (JObj [(''example'', JArr [])])"
proof -
  have "(-1 :: int) < 0" "prop_of (spread_obj (JObj [(''example'', JArr [JStr ''a'', JStr ''b''])])) ''example'' =
     JArr [JStr ''a'', JStr ''b'']" by simp_all
  from negative_count_reprojection_drops_more [OF this] obtain d1 d2 where
    "trim_examples (JNum (-1)) (JObj [(''example'', JArr [JStr ''a'', JStr ''b''])]) = Inr d1"
    "trim_examples (JNum (-1)) d1 = Inr d2" "d2 \<noteq> d1" by auto
  moreover have "trim_examples (JNum (-1)) (JObj [(''example'', JArr [JStr ''a'', JStr ''b''])]) =
     Inr (JObj [(''example'', JArr [JStr ''a''])])" by (simp add: projection_eval)
  moreover have "trim_examples (JNum (-1)) (JObj [(''example'', JArr [JStr ''a''])]) = Inr (JObj [(''example'', JArr [])])"
    by (simp add: projection_eval)
  ultimately show ?thesis by simp
qed

end
