(* ===== verification/Cache_Key.thy ===== *)
theory Cache_Key
  imports Projection
begin

text \<open>
  The cache key deriver of src/extension/background.js: the lexical lookup key
  of \<open>getDefinition\<close> (lines 95-98) and the sentence-translation key of
  \<open>translateSentence\<close> (lines 195-198) with its percent-encoding, the builtin
  \<open>encodeURIComponent\<close> followed by the escape of \<open>! ' ( ) *\<close>. Strings are byte
  strings: a character of the model is one byte of the UTF-8 encoding, which is
  what \<open>encodeURIComponent\<close> percent-encodes. \<open>decode_uri_component\<close> is the inverse
  the specification's "URL-safe percent-encoding" promises, written from the
  specification (it is not called by the program).
\<close>

section \<open>The lexical lookup key\<close>

text \<open>\<open>settings.preferredSource || 'cambridge'\<close> (line 95).\<close>

definition display_source :: "(key \<times> jval) list \<Rightarrow> jval" where
  "display_source settings = js_or (prop_of settings ''preferredSource'') (JStr ''cambridge'')"

text \<open>\<open>settings.targetLanguage || 'none'\<close> (line 97).\<close>

definition display_language :: "(key \<times> jval) list \<Rightarrow> jval" where
  "display_language settings = js_or (prop_of settings ''targetLanguage'') (JStr ''none'')"

text \<open>The template literal of line 98; \<open>word\<close> is the lower-cased term of line 92.\<close>

definition display_cache_key :: "(key \<times> jval) list \<Rightarrow> string \<Rightarrow> string" where
  "display_cache_key settings word =
     ''qdp_'' @ js_to_string (display_source settings) @ ''_'' @ word @
     ''_'' @ js_to_string (prop_of settings ''definitionScope'') @
     ''_'' @ js_to_string (prop_of settings ''exampleCount'') @
     ''_'' @ js_to_string (display_language settings)"

text \<open>The fields of the key other than the term, as the template renders them.\<close>

definition key_fields :: "(key \<times> jval) list \<Rightarrow> string list" where
  "key_fields settings =
     [js_to_string (display_source settings), js_to_string (prop_of settings ''definitionScope''),
      js_to_string (prop_of settings ''exampleCount''), js_to_string (display_language settings)]"

section \<open>Percent-encoding\<close>

definition is_alnum :: "char \<Rightarrow> bool" where
  "is_alnum c = (let n = of_char c :: nat in
                   (48 \<le> n \<and> n \<le> 57) \<or> (65 \<le> n \<and> n \<le> 90) \<or> (97 \<le> n \<and> n \<le> 122))"

text \<open>The characters \<open>encodeURIComponent\<close> leaves as they are.\<close>

definition is_unreserved :: "char \<Rightarrow> bool" where
  "is_unreserved c = (is_alnum c \<or> c \<in> set [CHR ''-'', CHR ''_'', CHR ''.'', CHR ''!'', CHR ''~'',
                                             CHR ''*'', CHR 0x27, CHR ''('', CHR '')''])"

definition hex_upper :: "nat \<Rightarrow> char" where
  "hex_upper d = char_of (if d < 10 then 48 + d else 55 + d)"

definition encode_char :: "char \<Rightarrow> string" where
  "encode_char c =
     (if is_unreserved c then [c]
      else [CHR ''%'', hex_upper (of_char c div 16), hex_upper (of_char c mod 16)])"

text \<open>\<open>encodeURIComponent(s)\<close> on the bytes of \<open>s\<close> (line 195).\<close>

definition encode_uri_component :: "string \<Rightarrow> string" where
  "encode_uri_component s = concat (map encode_char s)"

definition hex_lower :: "nat \<Rightarrow> char" where
  "hex_lower d = char_of (if d < 10 then 48 + d else 87 + d)"

text \<open>\<open>n.toString(16)\<close> for a natural number \<open>n\<close>.\<close>

fun to_hex :: "nat \<Rightarrow> string" where
  "to_hex n = (if n < 16 then [hex_lower n] else to_hex (n div 16) @ [hex_lower (n mod 16)])"

definition specials :: "char list" where
  "specials = [CHR ''!'', CHR 0x27, CHR ''('', CHR '')'', CHR ''*'']"

text \<open>The callback of \<open>replace(/[!'()*]/g, ...)\<close> (lines 195-197).\<close>

definition escape_special :: "char \<Rightarrow> string" where
  "escape_special c = (if c \<in> set specials then CHR ''%'' # to_hex (of_char c) else [c])"

text \<open>The encoded sentence of lines 195-197.\<close>

definition sentence_encode :: "string \<Rightarrow> string" where
  "sentence_encode sentence = concat (map escape_special (encode_uri_component sentence))"

text \<open>The sentence key of line 198.\<close>

definition sentence_cache_key :: "string \<Rightarrow> jval \<Rightarrow> string" where
  "sentence_cache_key sentence targetLanguage =
     ''qdp_sentence_'' @ sentence_encode sentence @ ''_'' @ js_to_string targetLanguage"

section \<open>Decoding\<close>

definition hex_val :: "char \<Rightarrow> nat option" where
  "hex_val c = (let n = of_char c :: nat in
                  if 48 \<le> n \<and> n \<le> 57 then Some (n - 48)
                  else if 65 \<le> n \<and> n \<le> 70 then Some (n - 55)
                  else if 97 \<le> n \<and> n \<le> 102 then Some (n - 87) else None)"

fun decode_uri_component :: "string \<Rightarrow> string option" where
  "decode_uri_component [] = Some []"
| "decode_uri_component [c] = (if c = CHR ''%'' then None else Some [c])"
| "decode_uri_component [c, h] =
     (if c = CHR ''%'' then None else map_option (Cons c) (decode_uri_component [h]))"
| "decode_uri_component (c # h1 # h2 # rest) =
     (if c = CHR ''%'' then
        (case (hex_val h1, hex_val h2) of
           (Some a, Some b) \<Rightarrow> map_option (Cons (char_of (16 * a + b))) (decode_uri_component rest)
         | _ \<Rightarrow> None)
      else map_option (Cons c) (decode_uri_component (h1 # h2 # rest)))"

section \<open>Facts\<close>

lemma hex_val_upper: "d < 16 \<Longrightarrow> hex_val (hex_upper d) = Some d"
  by (simp add: hex_val_def hex_upper_def of_char_of)

lemma of_char_hex_upper: "d < 16 \<Longrightarrow> of_char (hex_upper d) = (if d < 10 then 48 + d else 55 + d)"
  by (simp add: hex_upper_def of_char_of)

lemma hex_upper_not_special:
  assumes "d < 16" shows "hex_upper d \<notin> set specials"
proof
  assume "hex_upper d \<in> set specials"
  then have "(of_char (hex_upper d) :: nat) \<in> of_char ` set specials" by blast
  with of_char_hex_upper [OF assms] show False by (auto simp: specials_def split: if_splits)
qed

lemma decode_Cons: "c \<noteq> CHR ''%'' \<Longrightarrow> decode_uri_component (c # cs) = map_option (Cons c) (decode_uri_component cs)"
  by (cases cs rule: decode_uri_component.cases) auto

lemma hex_val_lower: "d < 16 \<Longrightarrow> hex_val (hex_lower d) = Some d"
  by (simp add: hex_val_def hex_lower_def of_char_of)

lemma to_hex_byte: "16 \<le> n \<Longrightarrow> n < 256 \<Longrightarrow> to_hex n = [hex_lower (n div 16), hex_lower (n mod 16)]"
  by simp

lemma specials_range: "c \<in> set specials \<Longrightarrow> 16 \<le> (of_char c :: nat)"
  by (auto simp: specials_def)

lemma char_of_div_mod: "char_of (16 * ((of_char c :: nat) div 16) + (of_char c :: nat) mod 16) = c"
  by simp

lemma decode_pct:
  "hex_val h1 = Some a \<Longrightarrow> hex_val h2 = Some b \<Longrightarrow>
     decode_uri_component (CHR ''%'' # h1 # h2 # rest) = map_option (Cons (char_of (16 * a + b))) (decode_uri_component rest)"
  by simp

lemma decode_escape_encode:
  "decode_uri_component (concat (map escape_special (encode_char c)) @ rest) =
     map_option (Cons c) (decode_uri_component rest)"
proof -
  let ?n = "of_char c :: nat"
  have b: "?n < 256" by (rule nat_of_char_less_256)
  then have lt: "?n div 16 < 16" "?n mod 16 < 16" "?n < 256" by (simp_all add: div_less_iff_less_mult)
  show ?thesis
  proof (cases "is_unreserved c \<and> c \<notin> set specials")
    case True
    moreover have "c \<noteq> CHR ''%''" using True by (auto simp: is_unreserved_def is_alnum_def)
    ultimately show ?thesis by (simp add: escape_special_def encode_char_def decode_Cons)
  next
    case False
    then consider "is_unreserved c" "c \<in> set specials" | "\<not> is_unreserved c" by blast
    then show ?thesis
    proof cases
      case 1
      with lt specials_range [of c] show ?thesis
        by (simp add: escape_special_def encode_char_def to_hex_byte hex_val_lower decode_pct
                 del: to_hex.simps)
    next
      case 2
      have "CHR ''%'' \<notin> set specials" by (simp add: specials_def)
      with 2 lt show ?thesis
        by (simp add: escape_special_def encode_char_def hex_upper_not_special hex_val_upper decode_pct)
    qed
  qed
qed

lemma decode_sentence_encode: "decode_uri_component (sentence_encode s) = Some s"
proof -
  have "decode_uri_component (concat (map escape_special (encode_uri_component s)) @ rest) =
          map_option ((@) s) (decode_uri_component rest)" for rest
    by (induction s) (simp_all add: encode_uri_component_def decode_escape_encode option.map_comp comp_def option.map_ident)
  from this [of "[]"] show ?thesis by (simp add: sentence_encode_def)
qed

lemma sentence_encode_inj:
  assumes "sentence_encode s = sentence_encode t" shows "s = t"
proof -
  have "Some s = decode_uri_component (sentence_encode s)" by (rule decode_sentence_encode [symmetric])
  also have "\<dots> = decode_uri_component (sentence_encode t)" by (simp only: assms)
  also have "\<dots> = Some t" by (rule decode_sentence_encode)
  finally show ?thesis by simp
qed

lemma alnum_hex: "d < 16 \<Longrightarrow> is_alnum (hex_upper d) \<and> is_alnum (hex_lower d)"
  by (simp add: is_alnum_def hex_upper_def hex_lower_def of_char_of)

lemma alnum_safe: "is_alnum x \<Longrightarrow> is_unreserved x \<and> x \<notin> set specials"
  by (auto simp: is_unreserved_def specials_def is_alnum_def)

lemma escape_encode_alphabet:
  "set (concat (map escape_special (encode_char c))) \<subseteq>
     {x. is_unreserved x \<and> x \<notin> set specials} \<union> {CHR ''%''}"
proof -
  let ?n = "of_char c :: nat"
  have b: "?n < 256" by (rule nat_of_char_less_256)
  then have lt: "?n div 16 < 16" "?n mod 16 < 16" by (simp_all add: div_less_iff_less_mult)
  have pct: "CHR ''%'' \<notin> set specials" by (simp add: specials_def)
  consider "is_unreserved c" "c \<notin> set specials" | "is_unreserved c" "c \<in> set specials" | "\<not> is_unreserved c"
    by blast
  then show ?thesis
  proof cases
    case 1
    then show ?thesis by (simp add: escape_special_def encode_char_def)
  next
    case 2
    with b specials_range [of c] have "escape_special c = [CHR ''%'', hex_lower (?n div 16), hex_lower (?n mod 16)]"
      by (simp add: escape_special_def to_hex_byte del: to_hex.simps)
    with 2 lt alnum_hex alnum_safe show ?thesis by (simp add: encode_char_def)
  next
    case 3
    with lt alnum_hex alnum_safe pct show ?thesis
      by (simp add: escape_special_def encode_char_def)
  qed
qed

lemma display_cache_key_tail:
  assumes u1: "CHR ''_'' \<notin> set (concat (tl (key_fields s1)))" and u2: "CHR ''_'' \<notin> set (concat (tl (key_fields s2)))"
    and eq: "display_cache_key s1 w1 = display_cache_key s2 w2"
  shows "tl (key_fields s1) = tl (key_fields s2)"
proof -
  obtain a1 b1 c1 d1 where f1: "key_fields s1 = [a1, b1, c1, d1]" by (simp add: key_fields_def)
  obtain a2 b2 c2 d2 where f2: "key_fields s2 = [a2, b2, c2, d2]" by (simp add: key_fields_def)
  have k: "display_cache_key s w = (((''qdp_'' @ a @ CHR ''_'' # w) @ CHR ''_'' # b) @ CHR ''_'' # c) @ CHR ''_'' # d"
    if "key_fields s = [a, b, c, d]" for s w a b c d
    using that by (simp add: key_fields_def display_cache_key_def)
  from u1 f1 have n1: "CHR ''_'' \<notin> set b1" "CHR ''_'' \<notin> set c1" "CHR ''_'' \<notin> set d1" by simp_all
  from u2 f2 have n2: "CHR ''_'' \<notin> set b2" "CHR ''_'' \<notin> set c2" "CHR ''_'' \<notin> set d2" by simp_all
  from eq have "(((''qdp_'' @ a1 @ CHR ''_'' # w1) @ CHR ''_'' # b1) @ CHR ''_'' # c1) @ CHR ''_'' # d1 =
                (((''qdp_'' @ a2 @ CHR ''_'' # w2) @ CHR ''_'' # b2) @ CHR ''_'' # c2) @ CHR ''_'' # d2"
    unfolding k [OF f1] k [OF f2] .
  from append_sep_right_inj [OF n1(3) n2(3) this] have d: "d1 = d2"
    and e3: "((''qdp_'' @ a1 @ CHR ''_'' # w1) @ CHR ''_'' # b1) @ CHR ''_'' # c1 =
         ((''qdp_'' @ a2 @ CHR ''_'' # w2) @ CHR ''_'' # b2) @ CHR ''_'' # c2" by simp_all
  from append_sep_right_inj [OF n1(2) n2(2) e3] have c: "c1 = c2"
    and e2: "(''qdp_'' @ a1 @ CHR ''_'' # w1) @ CHR ''_'' # b1 = (''qdp_'' @ a2 @ CHR ''_'' # w2) @ CHR ''_'' # b2"
    by simp_all
  from append_sep_right_inj [OF n1(1) n2(1) e2] have "b1 = b2" by simp
  with c d f1 f2 show ?thesis by simp
qed

section \<open>Properties of the cache keys\<close>

text \<open>
  C21. The sentence encoding of lines 195-197 is a URL-safe percent-encoding:
  percent-decoding it gives the sentence back, so distinct sentences never share
  an encoding.
\<close>

theorem sentence_encode_roundtrip:
  "decode_uri_component (sentence_encode s) = Some s \<and> inj sentence_encode"
  using decode_sentence_encode sentence_encode_inj by (auto intro: injI)

text \<open>
  C22. The encoded sentence consists of the characters \<open>encodeURIComponent\<close> leaves
  unescaped other than \<open>! ' ( ) *\<close>, and the percent sign: the five characters the
  specification names are always escaped.
\<close>

theorem sentence_encode_alphabet:
  "set (sentence_encode s) \<subseteq> {x. is_unreserved x \<and> x \<notin> set specials} \<union> {CHR ''%''}"
  using escape_encode_alphabet by (auto simp: sentence_encode_def encode_uri_component_def)

text \<open>
  On a sentence with spaces, parentheses, an asterisk and an exclamation mark
  the key carries \<open>%20\<close> from \<open>encodeURIComponent\<close> and the lower-case escapes
  \<open>%28\<close>, \<open>%29\<close>, \<open>%2a\<close>, \<open>%21\<close> of the replacement, where \<open>encodeURIComponent\<close> alone
  leaves those characters as they are.
\<close>

theorem sentence_cache_key_example:
  "encode_uri_component ''it (is) *done*!'' = ''it%20(is)%20*done*!'' \<and>
   sentence_cache_key ''it (is) *done*!'' (JStr ''es'') = ''qdp_sentence_it%20%28is%29%20%2adone%2a%21_es''"
  by code_simp

text \<open>
  C23. Sentence keys of target languages whose names contain no underscore are
  equal only for the same sentence and the same language, although the encoded
  sentence may itself contain underscores.
\<close>

theorem sentence_cache_key_injective:
  assumes "CHR ''_'' \<notin> set (js_to_string l1)" and "CHR ''_'' \<notin> set (js_to_string l2)"
    and "sentence_cache_key s1 l1 = sentence_cache_key s2 l2"
  shows "s1 = s2 \<and> js_to_string l1 = js_to_string l2"
proof -
  from assms(3) have "sentence_encode s1 @ CHR ''_'' # js_to_string l1 = sentence_encode s2 @ CHR ''_'' # js_to_string l2"
    by (simp add: sentence_cache_key_def)
  from append_sep_right_inj [OF assms(1,2) this] show ?thesis by (auto dest: sentence_encode_inj)
qed

theorem sentence_cache_key_injective_witness:
  "sentence_cache_key ''a_b'' (JStr ''es'') = ''qdp_sentence_a_b_es'' \<and> ''a_b'' = ''a_b''"
proof -
  have k: "sentence_cache_key ''a_b'' (JStr ''es'') = ''qdp_sentence_a_b_es''" by code_simp
  have "CHR ''_'' \<notin> set (js_to_string (JStr ''es''))" by simp
  from sentence_cache_key_injective [OF this this refl] k show ?thesis by simp
qed

text \<open>
  C24. Lexical keys are injective in the term and the rendered settings fields
  when the provider name, the scope, the example count and the language contain
  no underscore; the term itself may contain underscores, since the key is split
  from both ends.
\<close>

theorem display_cache_key_injective:
  assumes u1: "CHR ''_'' \<notin> set (concat (key_fields s1))" and u2: "CHR ''_'' \<notin> set (concat (key_fields s2))"
    and eq: "display_cache_key s1 w1 = display_cache_key s2 w2"
  shows "w1 = w2 \<and> key_fields s1 = key_fields s2"
proof -
  obtain a1 b1 c1 d1 where f1: "key_fields s1 = [a1, b1, c1, d1]" by (simp add: key_fields_def)
  obtain a2 b2 c2 d2 where f2: "key_fields s2 = [a2, b2, c2, d2]" by (simp add: key_fields_def)
  have k: "display_cache_key s w = (((''qdp_'' @ a @ CHR ''_'' # w) @ CHR ''_'' # b) @ CHR ''_'' # c) @ CHR ''_'' # d"
    if "key_fields s = [a, b, c, d]" for s w a b c d
    using that by (simp add: key_fields_def display_cache_key_def)
  from u1 f1 have n1: "CHR ''_'' \<notin> set a1" "CHR ''_'' \<notin> set b1" "CHR ''_'' \<notin> set c1" "CHR ''_'' \<notin> set d1" by simp_all
  from u2 f2 have n2: "CHR ''_'' \<notin> set a2" "CHR ''_'' \<notin> set b2" "CHR ''_'' \<notin> set c2" "CHR ''_'' \<notin> set d2" by simp_all
  from eq have "(((''qdp_'' @ a1 @ CHR ''_'' # w1) @ CHR ''_'' # b1) @ CHR ''_'' # c1) @ CHR ''_'' # d1 =
                (((''qdp_'' @ a2 @ CHR ''_'' # w2) @ CHR ''_'' # b2) @ CHR ''_'' # c2) @ CHR ''_'' # d2"
    unfolding k [OF f1] k [OF f2] .
  from append_sep_right_inj [OF n1(4) n2(4) this] have d: "d1 = d2"
    and e3: "((''qdp_'' @ a1 @ CHR ''_'' # w1) @ CHR ''_'' # b1) @ CHR ''_'' # c1 =
         ((''qdp_'' @ a2 @ CHR ''_'' # w2) @ CHR ''_'' # b2) @ CHR ''_'' # c2" by simp_all
  from append_sep_right_inj [OF n1(3) n2(3) e3] have c: "c1 = c2"
    and e2: "(''qdp_'' @ a1 @ CHR ''_'' # w1) @ CHR ''_'' # b1 = (''qdp_'' @ a2 @ CHR ''_'' # w2) @ CHR ''_'' # b2"
    by simp_all
  from append_sep_right_inj [OF n1(2) n2(2) e2] have b: "b1 = b2"
    and e1: "a1 @ CHR ''_'' # w1 = a2 @ CHR ''_'' # w2" by simp_all
  from append_sep_left_inj [OF n1(1) n2(1) e1] have "a1 = a2" "w1 = w2" by simp_all
  with b c d f1 f2 show ?thesis by simp
qed

theorem display_cache_key_injective_witness:
  "display_cache_key [(''definitionScope'', JStr ''all'')] ''run'' = ''qdp_cambridge_run_all_undefined_none'' \<and>
   key_fields [(''definitionScope'', JStr ''all'')] =
     key_fields [(''preferredSource'', JStr ''cambridge''), (''definitionScope'', JStr ''all'')]"
proof -
  have u1: "CHR ''_'' \<notin> set (concat (key_fields [(''definitionScope'', JStr ''all'')]))" by code_simp
  have u2: "CHR ''_'' \<notin> set (concat (key_fields [(''preferredSource'', JStr ''cambridge''), (''definitionScope'', JStr ''all'')]))"
    by code_simp
  have eq: "display_cache_key [(''definitionScope'', JStr ''all'')] ''run'' =
            display_cache_key [(''preferredSource'', JStr ''cambridge''), (''definitionScope'', JStr ''all'')] ''run''"
    by code_simp
  have k: "display_cache_key [(''definitionScope'', JStr ''all'')] ''run'' = ''qdp_cambridge_run_all_undefined_none''"
    by code_simp
  from display_cache_key_injective [OF u1 u2 eq] k show ?thesis by simp
qed

text \<open>
  C25. The key is built from the raw settings while the projection applies the
  defaults: settings with no scope and no count and settings that state the
  defaults give the same projection of every payload, but different keys, so the
  same projected entry is cached under two keys.
\<close>

theorem display_cache_key_default_miss:
  "display_cache_key [] w \<noteq>
     display_cache_key [(''preferredSource'', JStr ''cambridge''), (''targetLanguage'', JStr ''none''),
                        (''definitionScope'', JStr ''relevant''), (''exampleCount'', JNum 1)] w \<and>
   apply_display_preferences v [] =
     apply_display_preferences v [(''preferredSource'', JStr ''cambridge''), (''targetLanguage'', JStr ''none''),
                                  (''definitionScope'', JStr ''relevant''), (''exampleCount'', JNum 1)]"
  by (simp add: display_cache_key_def display_source_def display_language_def
                apply_display_preferences_def scope_setting_def count_setting_def)

text \<open>
  The two key families are disjoint for every provider name other than
  \<open>sentence\<close> that contains no underscore.
\<close>

theorem display_sentence_keys_disjoint:
  assumes "CHR ''_'' \<notin> set (js_to_string (display_source s))"
    and "js_to_string (display_source s) \<noteq> ''sentence''"
  shows "display_cache_key s w \<noteq> sentence_cache_key x l"
proof
  assume "display_cache_key s w = sentence_cache_key x l"
  then have "js_to_string (display_source s) @ CHR ''_'' # (w @ ''_'' @ js_to_string (prop_of s ''definitionScope'') @
               ''_'' @ js_to_string (prop_of s ''exampleCount'') @ ''_'' @ js_to_string (display_language s)) =
             ''sentence'' @ CHR ''_'' # (sentence_encode x @ ''_'' @ js_to_string l)"
    by (simp add: display_cache_key_def sentence_cache_key_def)
  from append_sep_left_inj [OF assms(1) _ this] assms(2) show False by simp
qed

theorem display_sentence_keys_disjoint_witness:
  "display_cache_key [] ''run'' \<noteq> sentence_cache_key ''run'' (JStr ''es'') \<and>
   js_to_string (display_source []) = ''cambridge''"
proof -
  have h1: "CHR ''_'' \<notin> set (js_to_string (display_source []))" by (simp add: display_source_def)
  have h2: "js_to_string (display_source []) \<noteq> ''sentence''" by (simp add: display_source_def)
  from display_sentence_keys_disjoint [OF h1 h2] show ?thesis by (simp add: display_source_def)
qed

end
