(* ===== verification/Listener.thy ===== *)
theory Listener
  imports Gemini MW Cache_Key
begin

text \<open>
  The message listener of src/extension/background.js (lines 90-231): the
  \<open>getDefinition\<close> handler (lines 91-180) and the \<open>translateSentence\<close> handler
  (lines 182-230), over an explicit world. \<open>chrome.storage.local\<close> is a map from
  keys to JSON values shared by the settings and the cache; the network is a
  function from URLs to what \<open>fetch(url)\<close> and \<open>res.json()\<close> give, with the time
  each request settles at (it decides which rejection \<open>Promise.all\<close> reports); the
  world records the URLs fetched, in the order the handler issues them. A request
  runs to its response as one step: its callbacks only read the store before any
  fetch and write it once at the end (\<open>Interleaving\<close> splits it there).
  \<open>url_sent\<close> is the part of a URL an HTTP request carries (the fragment is not sent).
\<close>

section \<open>The world\<close>

type_synonym store = "string \<Rightarrow> jval option"

text \<open>
  The outcome of \<open>fetch(url)\<close> followed by \<open>res.json()\<close>: the request fails
  (\<open>NetFail\<close>), the body is not JSON (\<open>NotJson\<close>), or it parses to a value.
\<close>

datatype fetch_outcome = NetFail | NotJson | Json jval

record network =
  answer :: "string \<Rightarrow> fetch_outcome"
  settle :: "string \<Rightarrow> nat"

record world =
  store :: store
  fetched :: "string list"

text \<open>
  The object passed to \<open>sendResponse\<close>: \<open>{status: 'success', data, ttsEnabled}\<close>,
  \<open>{status: 'error', message}\<close> with the message of the error (\<open>Thrown s\<close> for a
  message \<open>s\<close> the code writes), and \<open>{status: 'noLanguage', message}\<close>.
\<close>

datatype response = RSuccess jval jval | RError js_error | RNoLanguage string

section \<open>Storage and network primitives\<close>

text \<open>\<open>chrome.storage.local.get(keys, cb)\<close>: the object of the keys that are set.\<close>

definition storage_get :: "store \<Rightarrow> key list \<Rightarrow> (key \<times> jval) list" where
  "storage_get st ks = concat (map (\<lambda>k. case st k of None \<Rightarrow> [] | Some v \<Rightarrow> [(k, v)]) ks)"

text \<open>\<open>result[key]\<close> for \<open>chrome.storage.local.get(key, cb)\<close>.\<close>

definition storage_lookup :: "store \<Rightarrow> string \<Rightarrow> jval" where
  "storage_lookup st k = (case st k of None \<Rightarrow> JUndef | Some v \<Rightarrow> v)"

text \<open>\<open>fetch(url).then(res => res.json())\<close>.\<close>

definition fetch_json :: "network \<Rightarrow> string \<Rightarrow> jval js" where
  "fetch_json net url =
     (case answer net url of NetFail \<Rightarrow> Inl NetworkError | NotJson \<Rightarrow> Inl SyntaxError | Json v \<Rightarrow> Inr v)"

text \<open>\<open>fetch(url).then(res => res.json().catch(() => null))\<close> (line 133).\<close>

definition fetch_json_or_null :: "network \<Rightarrow> string \<Rightarrow> jval js" where
  "fetch_json_or_null net url =
     (case answer net url of NetFail \<Rightarrow> Inl NetworkError | NotJson \<Rightarrow> Inr JNull | Json v \<Rightarrow> Inr v)"

text \<open>
  \<open>Promise.all([p1, p2])\<close>: both results, or the rejection that settles first
  (the first promise's on a tie).
\<close>

definition promise_all2 :: "nat \<Rightarrow> 'a js \<Rightarrow> nat \<Rightarrow> 'b js \<Rightarrow> ('a \<times> 'b) js" where
  "promise_all2 t1 r1 t2 r2 =
     (case (r1, r2) of
        (Inr a, Inr b) \<Rightarrow> Inr (a, b)
      | (Inl e, Inr b) \<Rightarrow> Inl e
      | (Inr a, Inl e) \<Rightarrow> Inl e
      | (Inl e1, Inl e2) \<Rightarrow> Inl (if t2 < t1 then e2 else e1))"

text \<open>\<open>obj[k] = v\<close>: assignment to a property of an object.\<close>

fun js_set_prop :: "jval \<Rightarrow> key \<Rightarrow> jval \<Rightarrow> jval js" where
  "js_set_prop (JObj kvs) k v = Inr (JObj (put_prop k v kvs))"
| "js_set_prop JUndef k v = Inl TypeError"
| "js_set_prop JNull k v = Inl TypeError"
| "js_set_prop x k v = Inr x"

section \<open>The getDefinition handler\<close>

definition definition_setting_keys :: "key list" where
  "definition_setting_keys =
     [''preferredSource'', ''mwApiKey'', ''targetLanguage'', ''definitionScope'', ''exampleCount'', ''ttsEnabled'']"

text \<open>\<open>settings.ttsEnabled || false\<close> (lines 103 and 171).\<close>

definition tts_flag :: "(key \<times> jval) list \<Rightarrow> jval" where
  "tts_flag settings = js_or (prop_of settings ''ttsEnabled'') (JBool False)"

text \<open>The Gemini proxy URL (lines 111-113).\<close>

definition gemini_url :: "string \<Rightarrow> jval \<Rightarrow> string" where
  "gemini_url word targetLanguage =
     ''http://localhost:3000/api/gemini/'' @ encode_uri_component word @
     (if truthy targetLanguage \<and> targetLanguage \<noteq> JStr ''none''
      then ''?lang='' @ encode_uri_component (js_to_string targetLanguage) else [])"

text \<open>The Cambridge proxy URL of the audio enrichment (line 130).\<close>

definition cambridge_audio_url :: "string \<Rightarrow> string" where
  "cambridge_audio_url word = ''http://localhost:3000/api/dictionary/en/'' @ encode_uri_component word"

text \<open>\<open>word.split(/\s+/).filter(w => w.length > 0).length > 1\<close> (lines 116-117).\<close>

definition is_phrase :: "string \<Rightarrow> bool" where
  "is_phrase word = (1 < length (ws_words word))"

text \<open>\<open>normalizedGemini.pronunciation[0][k] = v\<close> (lines 140 and 142).\<close>

definition set_pron0 :: "jval \<Rightarrow> key \<Rightarrow> jval \<Rightarrow> jval js" where
  "set_pron0 ng k v =
     js_bind (get ng ''pronunciation'') (\<lambda>prs. js_bind (idx prs 0) (\<lambda>p0.
     js_bind (js_set_prop p0 k v) (\<lambda>p0'.
     case (ng, prs) of
       (JObj kvs, JArr (x # xs)) \<Rightarrow> Inr (JObj (put_prop ''pronunciation'' (JArr (p0' # xs)) kvs))
     | _ \<Rightarrow> Inl TypeError)))"

text \<open>The audio enrichment of a single word (lines 137-145).\<close>

definition enrich_pronunciation :: "jval \<Rightarrow> jval \<Rightarrow> jval js" where
  "enrich_pronunciation ng cambridgeData =
     (if \<not> truthy cambridgeData then Inr ng else
      js_bind (get cambridgeData ''pronunciation'') (\<lambda>prs.
      if \<not> truthy prs then Inr ng else
      js_bind (get prs ''length'') (\<lambda>len.
      if \<not> js_gt len (JNum 0) then Inr ng else
      js_bind (js_find (\<lambda>p. js_bind (get p ''url'') (\<lambda>u. Inr (truthy u))) prs) (\<lambda>found.
      js_bind (if truthy found then Inr found else idx prs 0) (\<lambda>cambridgePron.
      if \<not> truthy cambridgePron then Inr ng else
      js_bind (get cambridgePron ''url'') (\<lambda>curl.
      js_bind (set_pron0 ng ''url'' (js_or curl (JStr []))) (\<lambda>ng1.
      js_bind (get ng1 ''pronunciation'') (\<lambda>prs1. js_bind (idx prs1 0) (\<lambda>p0.
      js_bind (get p0 ''pron'') (\<lambda>pron.
      if truthy pron then Inr ng1 else
      js_bind (get cambridgePron ''pron'') (\<lambda>cpron.
      if truthy cpron then set_pron0 ng1 ''pron'' cpron else Inr ng1)))))))))))"

definition gemini_not_found :: js_error where
  "gemini_not_found = Thrown ''Gemini AI definition not found or invalid format.''"

text \<open>The Gemini result for a phrase (lines 121-127).\<close>

definition gemini_phrase_result :: "network \<Rightarrow> string \<Rightarrow> jval js" where
  "gemini_phrase_result net gurl =
     js_bind (fetch_json net gurl) (\<lambda>geminiData.
     js_bind (normalize_gemini_data geminiData) (\<lambda>n.
     case n of None \<Rightarrow> Inl gemini_not_found | Some ng \<Rightarrow> Inr ng))"

text \<open>The Gemini result for a single word, with the audio enrichment (lines 131-147).\<close>

definition gemini_word_result :: "network \<Rightarrow> string \<Rightarrow> string \<Rightarrow> jval js" where
  "gemini_word_result net gurl curl =
     js_bind (promise_all2 (settle net gurl) (fetch_json net gurl) (settle net curl) (fetch_json_or_null net curl))
       (\<lambda>(geminiData, cambridgeData).
     js_bind (normalize_gemini_data geminiData) (\<lambda>n.
     case n of None \<Rightarrow> Inl gemini_not_found | Some ng \<Rightarrow> enrich_pronunciation ng cambridgeData))"

text \<open>The Merriam-Webster URL (line 154): the word is not encoded.\<close>

definition mw_url :: "string \<Rightarrow> jval \<Rightarrow> string" where
  "mw_url word mwApiKey =
     ''https://www.dictionaryapi.com/api/v3/references/collegiate/json/'' @ word @ ''?key='' @ js_to_string mwApiKey"

text \<open>\<open>fetch(apiUrl).then(res => res.json()).then(data => normalizeMwData(data))\<close> (lines 155-157).\<close>

definition mw_result :: "network \<Rightarrow> string \<Rightarrow> jval js" where
  "mw_result net url =
     js_bind (fetch_json net url) (\<lambda>data.
     js_bind (normalize_mw_data data) (\<lambda>r. Inr (case r of None \<Rightarrow> JNull | Some v \<Rightarrow> v)))"

text \<open>The default provider's URL (line 159): the word is not encoded.\<close>

definition dictionary_url :: "string \<Rightarrow> string" where
  "dictionary_url word = ''http://localhost:3000/api/dictionary/en/'' @ word"

definition mw_key_missing :: js_error where
  "mw_key_missing = Thrown ''Merriam-Webster API key is not set.''"

definition invalid_format :: js_error where
  "invalid_format = Thrown ''Definition not found or API returned invalid format.''"

text \<open>
  What the provider branch does (lines 107-161): answer at once (\<open>Inl\<close>), or issue
  the fetches in the list and settle \<open>apiPromise\<close> with the result (\<open>Inr\<close>).
\<close>

definition provider_request ::
    "network \<Rightarrow> (key \<times> jval) list \<Rightarrow> string \<Rightarrow> response + (string list \<times> jval js)" where
  "provider_request net settings word =
     (let source = display_source settings; mwApiKey = prop_of settings ''mwApiKey'';
          targetLanguage = display_language settings in
      if source = JStr ''gemini'' then
        (let gurl = gemini_url word targetLanguage in
         if is_phrase word then Inr ([gurl], gemini_phrase_result net gurl)
         else (let curl = cambridge_audio_url word in
               Inr ([gurl, curl], gemini_word_result net gurl curl)))
      else if source = JStr ''merriam-webster'' then
        (if \<not> truthy mwApiKey then Inl (RError mw_key_missing)
         else (let url = mw_url word mwApiKey in Inr ([url], mw_result net url)))
      else (let url = dictionary_url word in Inr ([url], fetch_json net url)))"

text \<open>The continuation of \<open>apiPromise\<close> (lines 163-175).\<close>

definition finish_definition ::
    "world \<Rightarrow> (key \<times> jval) list \<Rightarrow> string \<Rightarrow> jval js \<Rightarrow> world \<times> response" where
  "finish_definition w settings key result =
     (case js_bind result (\<lambda>fullData.
             (if \<not> truthy fullData then Inl invalid_format else
              js_bind (get fullData ''word'') (\<lambda>fw.
              if \<not> truthy fw then Inl invalid_format else
              apply_display_preferences fullData settings))) of
        Inl e \<Rightarrow> (w, RError e)
      | Inr finalData \<Rightarrow>
          (w\<lparr>store := (store w)(key \<mapsto> finalData)\<rparr>, RSuccess finalData (tts_flag settings)))"

text \<open>
  The handler of a \<open>getDefinition\<close> message (lines 91-180). \<open>None\<close>: the listener
  throws before any callback is registered (\<open>message.word\<close> is not a string) and
  no response is sent.
\<close>

definition get_definition :: "network \<Rightarrow> jval \<Rightarrow> world \<Rightarrow> world \<times> response option" where
  "get_definition net message w =
     (case get message ''word'' of
        Inr (JStr s) \<Rightarrow>
          (let word = to_lower s;
               settings = storage_get (store w) definition_setting_keys;
               key = display_cache_key settings word;
               cached = storage_lookup (store w) key in
           if truthy cached then (w, Some (RSuccess cached (tts_flag settings)))
           else (case provider_request net settings word of
                   Inl r \<Rightarrow> (w, Some r)
                 | Inr (urls, result) \<Rightarrow>
                     (let (w', r) = finish_definition (w\<lparr>fetched := fetched w @ urls\<rparr>) settings key result
                      in (w', Some r))))
      | _ \<Rightarrow> (w, None))"

section \<open>The translateSentence handler\<close>

definition no_language_message :: string where
  "no_language_message = ''Please select a target language in options setting to proceed''"

text \<open>The translation URL (lines 208-210).\<close>

definition translate_url :: "string \<Rightarrow> jval \<Rightarrow> string" where
  "translate_url sentence targetLanguage =
     ''http://localhost:3000/api/translate/'' @ encode_uri_component sentence @
     ''?lang='' @ encode_uri_component (js_to_string targetLanguage)"

text \<open>The handler of a \<open>translateSentence\<close> message (lines 182-230).\<close>

definition translate_sentence :: "network \<Rightarrow> jval \<Rightarrow> world \<Rightarrow> world \<times> response option" where
  "translate_sentence net message w =
     (case get message ''text'' of
        Inr sv \<Rightarrow>
          (let sentence = js_to_string sv;
               settings = storage_get (store w) [''targetLanguage'', ''ttsEnabled''];
               targetLanguage = prop_of settings ''targetLanguage'' in
           if \<not> truthy targetLanguage \<or> targetLanguage = JStr ''none''
           then (w, Some (RNoLanguage no_language_message))
           else
             (let cacheKey = sentence_cache_key sentence targetLanguage;
                  cached = storage_lookup (store w) cacheKey in
              if truthy cached then (w, Some (RSuccess cached (tts_flag settings)))
              else
                (let url = translate_url sentence targetLanguage;
                     w1 = w\<lparr>fetched := fetched w @ [url]\<rparr> in
                 case js_bind (fetch_json net url) (\<lambda>data.
                        js_bind (get data ''error'') (\<lambda>err.
                        if truthy err then Inl (Thrown (js_to_string err)) else Inr data)) of
                   Inl e \<Rightarrow> (w1, Some (RError e))
                 | Inr data \<Rightarrow>
                     (w1\<lparr>store := (store w1)(cacheKey \<mapsto> data)\<rparr>,
                      Some (RSuccess data (tts_flag settings))))))
      | Inl e \<Rightarrow> (w, None))"

section \<open>The listener\<close>

text \<open>The dispatch on \<open>message.type\<close> (lines 91 and 182); other messages get no response.\<close>

definition handle_message :: "network \<Rightarrow> jval \<Rightarrow> world \<Rightarrow> world \<times> response option" where
  "handle_message net message w =
     (case get message ''type'' of
        Inr (JStr t) \<Rightarrow>
          if t = ''getDefinition'' then get_definition net message w
          else if t = ''translateSentence'' then translate_sentence net message w
          else (w, None)
      | _ \<Rightarrow> (w, None))"

text \<open>
  The messages the listener answers: a \<open>getDefinition\<close> whose \<open>word\<close> is a string
  (\<open>message.word.toLowerCase()\<close> throws otherwise) and every \<open>translateSentence\<close>.
\<close>

definition answers :: "jval \<Rightarrow> bool" where
  "answers m =
     ((get m ''type'' = Inr (JStr ''getDefinition'') \<and>
       (case get m ''word'' of Inr (JStr s) \<Rightarrow> True | _ \<Rightarrow> False)) \<or>
      get m ''type'' = Inr (JStr ''translateSentence''))"

text \<open>
  The part of a URL a request transmits: everything after \<open>#\<close> is a fragment that
  \<open>fetch\<close> does not send (RFC 3986, section 3.5).
\<close>

definition url_sent :: "string \<Rightarrow> string" where
  "url_sent u = takeWhile (\<lambda>c. c \<noteq> CHR ''#'') u"

section \<open>The state the handlers keep\<close>

text \<open>The settings of the request a world answers, and its cache key (lines 94-98).\<close>

abbreviation def_settings :: "world \<Rightarrow> (key \<times> jval) list" where
  "def_settings w \<equiv> storage_get (store w) definition_setting_keys"

abbreviation def_key :: "world \<Rightarrow> string \<Rightarrow> string" where
  "def_key w s \<equiv> display_cache_key (def_settings w) (to_lower s)"

text \<open>
  What the cache may hold: an entry under a lexical key is the projection, for
  settings rendering that key, of some payload; an entry under a sentence key is a
  translation payload without an \<open>error\<close>, for a language that was set.
\<close>

text \<open>
  The values the options page stores (specification, sections 3 and 6; the options
  page is not under src/): a provider among the three, scope \<open>relevant\<close> or
  \<open>all\<close>, a non-negative integer example count, and a language tag without the
  key delimiter. The other settings are free.
\<close>

definition valid_setting :: "key \<Rightarrow> jval \<Rightarrow> bool" where
  "valid_setting k v =
     (if k = ''preferredSource'' then v \<in> {JStr ''cambridge'', JStr ''merriam-webster'', JStr ''gemini''}
      else if k = ''definitionScope'' then v \<in> {JStr ''relevant'', JStr ''all''}
      else if k = ''exampleCount'' then (case v of JNum n \<Rightarrow> 0 \<le> n | _ \<Rightarrow> False)
      else if k = ''targetLanguage'' then (case v of JStr l \<Rightarrow> CHR ''_'' \<notin> set l | _ \<Rightarrow> False)
      else True)"

definition valid_settings :: "(key \<times> jval) list \<Rightarrow> bool" where
  "valid_settings settings = list_all (\<lambda>(k, v). valid_setting k v) settings"

definition lexical_entry :: "string \<Rightarrow> jval \<Rightarrow> bool" where
  "lexical_entry k v = (\<exists>settings word full. valid_settings settings \<and> k = display_cache_key settings word \<and>
                                             apply_display_preferences full settings = Inr v)"

definition sentence_entry :: "string \<Rightarrow> jval \<Rightarrow> bool" where
  "sentence_entry k v = (\<exists>sentence lang e. k = sentence_cache_key sentence lang \<and> truthy lang \<and>
                           lang \<noteq> JStr ''none'' \<and> get v ''error'' = Inr e \<and> \<not> truthy e)"

definition cache_ok :: "world \<Rightarrow> bool" where
  "cache_ok w = (\<forall>k v. store w k = Some v \<longrightarrow>
                    (if k \<in> set definition_setting_keys then valid_setting k v
                     else lexical_entry k v \<or> sentence_entry k v))"

text \<open>
  The worlds the worker can reach: it starts with only settings in the store, and
  each step is a message handled to its response (any network answers, any
  message) or the options page writing a value it offers, or removing a setting.
\<close>

inductive reachable :: "world \<Rightarrow> bool" where
  start: "set (map fst ss) \<subseteq> set definition_setting_keys \<Longrightarrow> valid_settings ss \<Longrightarrow>
     reachable \<lparr>store = map_of ss, fetched = []\<rparr>"
| message: "reachable w \<Longrightarrow> handle_message net m w = (w', r) \<Longrightarrow> reachable w'"
| options: "reachable w \<Longrightarrow> k \<in> set definition_setting_keys \<Longrightarrow> pred_option (valid_setting k) ov \<Longrightarrow>
     reachable (w\<lparr>store := (store w)(k := ov)\<rparr>)"


section \<open>Example requests\<close>

definition ex_payload :: jval where
  "ex_payload = JObj [(''word'', JStr ''run''), (''definition'', JArr [JObj [(''pos'', JStr ''verb''),
     (''text'', JStr ''move fast''), (''example'', JArr [JStr ''a'', JStr ''b''])], JObj [(''pos'', JStr ''noun'')]])]"

definition ex_net :: network where
  "ex_net = \<lparr>answer = (\<lambda>u. Json ex_payload), settle = (\<lambda>u. 0)\<rparr>"

definition ex_msg :: jval where
  "ex_msg = JObj [(''type'', JStr ''getDefinition''), (''word'', JStr ''Run'')]"

definition ex_gemini_payload :: jval where
  "ex_gemini_payload = JObj [(''word'', JStr ''run''), (''forms'', JArr [JObj [(''partOfSpeech'', JStr ''verb''),
     (''definitions'', JArr [JObj [(''definition'', JStr ''move fast'')]])]])]"

text \<open>The Gemini proxy answers, the Cambridge proxy is unreachable.\<close>

definition ex_enrich_net :: network where
  "ex_enrich_net = \<lparr>answer = (\<lambda>u. if u = cambridge_audio_url ''run'' then NetFail else Json ex_gemini_payload),
                    settle = (\<lambda>u. 0)\<rparr>"

section \<open>Facts about the handlers\<close>

lemma valid_settingsD: "valid_settings s \<Longrightarrow> (k, v) \<in> set s \<Longrightarrow> valid_setting k v"
  by (auto simp: valid_settings_def list_all_iff)

lemma prop_of_valid:
  "valid_settings s \<Longrightarrow> prop_of s k \<noteq> JUndef \<Longrightarrow> valid_setting k (prop_of s k)"
  by (auto simp: prop_of_def split: option.splits dest: map_of_SomeD valid_settingsD)

lemma valid_storage_get:
  assumes "cache_ok w"
  shows "valid_settings (storage_get (store w) definition_setting_keys)"
proof -
  have "valid_setting k v" if "(k, v) \<in> set (storage_get (store w) definition_setting_keys)" for k v
  proof -
    from that have "k \<in> set definition_setting_keys" "store w k = Some v"
      by (auto simp: storage_get_def split: option.splits)
    with assms show ?thesis unfolding cache_ok_def by fastforce
  qed
  then show ?thesis by (auto simp: valid_settings_def list_all_iff)
qed

lemma entry_not_setting:
  "lexical_entry k v \<or> sentence_entry k v \<Longrightarrow> k \<notin> set definition_setting_keys"
  by (auto simp: lexical_entry_def sentence_entry_def display_cache_key_def sentence_cache_key_def
                 definition_setting_keys_def)

lemma prop_of_storage_get [simp]:
  "prop_of (storage_get st ks) k = (if k \<in> set ks then storage_lookup st k else JUndef)"
  by (induction ks) (auto simp: storage_get_def storage_lookup_def prop_of_def split: option.splits)

lemma finish_definition_fetched [simp]: "fetched (fst (finish_definition w st k r)) = fetched w"
  by (simp add: finish_definition_def split: sum.split)

lemma finish_definition_cases:
  assumes "finish_definition w st k r = (w', resp)"
  shows "(w' = w \<and> (\<exists>e. resp = RError e)) \<or>
         (\<exists>full d. w' = w\<lparr>store := (store w)(k \<mapsto> d)\<rparr> \<and> resp = RSuccess d (tts_flag st) \<and>
                   apply_display_preferences full st = Inr d)"
  using assms unfolding finish_definition_def
  by (auto split: sum.splits if_splits elim!: js_bind_InrE)

lemma finish_definition_success:
  assumes "finish_definition w st k r = (w', RSuccess d t)"
  shows "\<exists>full. r = Inr full \<and> apply_display_preferences full st = Inr d \<and>
           w' = w\<lparr>store := (store w)(k \<mapsto> d)\<rparr> \<and> t = tts_flag st"
  using assms unfolding finish_definition_def
  by (auto split: sum.splits if_splits elim!: js_bind_InrE)

lemma get_definition_None:
  "snd (get_definition net m w) = None \<longleftrightarrow> \<not> (\<exists>s. get m ''word'' = Inr (JStr s))"
proof (cases "get m ''word''")
  case (Inl e)
  then show ?thesis by (simp add: get_definition_def)
next
  case (Inr v)
  then show ?thesis
    by (cases v) (simp_all add: get_definition_def Let_def prod.case_eq_if split: sum.split)
qed

lemma translate_sentence_None:
  "snd (translate_sentence net m w) = None \<longleftrightarrow> (\<exists>e. get m ''text'' = Inl e)"
  by (cases "get m ''text''") (simp_all add: translate_sentence_def Let_def split: sum.split)

lemma get_definition_no_word:
  assumes "\<not> (\<exists>s. get m ''word'' = Inr (JStr s))"
  shows "get_definition net m w = (w, None)"
proof (cases "get m ''word''")
  case (Inr v)
  with assms show ?thesis by (cases v) (simp_all add: get_definition_def)
qed (simp add: get_definition_def)

lemma get_definition_store:
  assumes "get_definition net m w = (w', r)" and ok: "cache_ok w"
  shows "store w' = store w \<or> (\<exists>k d. store w' = (store w)(k \<mapsto> d) \<and> lexical_entry k d)"
proof (cases "\<exists>s. get m ''word'' = Inr (JStr s)")
  case False
  with assms show ?thesis by (simp add: get_definition_no_word)
next
  case True
  then obtain s where s: "get m ''word'' = Inr (JStr s)" by blast
  show ?thesis
  proof (cases "truthy (storage_lookup (store w) (def_key w s))")
    case True
    with s assms show ?thesis by (simp add: get_definition_def Let_def)
  next
    case miss: False
    show ?thesis
    proof (cases "provider_request net (def_settings w) (to_lower s)")
      case (Inl x)
      with s miss assms show ?thesis by (simp add: get_definition_def Let_def)
    next
      case (Inr p)
      obtain urls result where p: "p = (urls, result)" by fastforce
      with Inr s miss assms obtain r' where fin:
        "finish_definition (w\<lparr>fetched := fetched w @ urls\<rparr>) (def_settings w) (def_key w s) result = (w', r')"
        by (simp add: get_definition_def Let_def prod.case_eq_if prod_eq_iff)
      have lex: "lexical_entry (def_key w s) d" if "apply_display_preferences full (def_settings w) = Inr d" for full d
        unfolding lexical_entry_def using that valid_storage_get [OF ok] by blast
      from finish_definition_cases [OF fin] consider (err) "w' = w\<lparr>fetched := fetched w @ urls\<rparr>"
        | (ok) full d where "store w' = (store w)(def_key w s \<mapsto> d)"
            "apply_display_preferences full (def_settings w) = Inr d"
        by auto
      then show ?thesis
      proof cases
        case err
        then show ?thesis by simp
      next
        case ok
        with lex [OF ok(2)] show ?thesis by blast
      qed
    qed
  qed
qed

lemma translate_sentence_store:
  assumes "translate_sentence net m w = (w', r)"
  shows "store w' = store w \<or> (\<exists>k d. store w' = (store w)(k \<mapsto> d) \<and> sentence_entry k d)"
proof (cases "get m ''text''")
  case (Inl e)
  with assms show ?thesis by (simp add: translate_sentence_def)
next
  case (Inr sv)
  let ?tl = "storage_lookup (store w) ''targetLanguage''"
  let ?key = "sentence_cache_key (js_to_string sv) ?tl"
  let ?url = "translate_url (js_to_string sv) ?tl"
  show ?thesis
  proof (cases "truthy ?tl \<and> ?tl \<noteq> JStr ''none''")
    case False
    with Inr assms show ?thesis by (simp add: translate_sentence_def)
  next
    case lang: True
    show ?thesis
    proof (cases "truthy (storage_lookup (store w) ?key)")
      case True
      with Inr lang assms show ?thesis by (simp add: translate_sentence_def Let_def)
    next
      case miss: False
      show ?thesis
      proof (cases "js_bind (fetch_json net ?url) (\<lambda>data. js_bind (get data ''error'') (\<lambda>err.
                      if truthy err then Inl (Thrown (js_to_string err)) else Inr data))")
        case (Inl e)
        with Inr lang miss assms show ?thesis by (auto simp: translate_sentence_def Let_def)
      next
        case (Inr data)
        then obtain e where e: "get data ''error'' = Inr e" "\<not> truthy e"
          by (auto split: if_splits elim!: js_bind_InrE)
        from Inr \<open>get m ''text'' = Inr sv\<close> lang miss assms have "store w' = (store w)(?key \<mapsto> data)"
          by (auto simp: translate_sentence_def Let_def)
        moreover have "sentence_entry ?key data"
          unfolding sentence_entry_def using lang e by blast
        ultimately show ?thesis by blast
      qed
    qed
  qed
qed

lemma handle_message_store:
  assumes "handle_message net m w = (w', r)" and "cache_ok w"
  shows "store w' = store w \<or> (\<exists>k d. store w' = (store w)(k \<mapsto> d) \<and> (lexical_entry k d \<or> sentence_entry k d))"
  using assms get_definition_store [of net m w _ _] translate_sentence_store [of net m w]
  unfolding handle_message_def
  by (auto split: sum.splits jval.splits if_splits)

lemma get_Inr_other: "get m k = Inr x \<Longrightarrow> \<exists>y. get m k' = Inr y"
  using get_Inr_iff [of m k] get_Inr_iff [of m k'] by blast

lemma handle_message_dispatch:
  "get m ''type'' = Inr (JStr ''getDefinition'') \<Longrightarrow> handle_message net m w = get_definition net m w"
  "get m ''type'' = Inr (JStr ''translateSentence'') \<Longrightarrow> handle_message net m w = translate_sentence net m w"
  "get m ''type'' \<noteq> Inr (JStr ''getDefinition'') \<Longrightarrow> get m ''type'' \<noteq> Inr (JStr ''translateSentence'') \<Longrightarrow>
     handle_message net m w = (w, None)"
  by (auto simp: handle_message_def split: sum.split jval.split)

lemma handle_message_None_iff: "snd (handle_message net m w) = None \<longleftrightarrow> \<not> answers m"
proof -
  consider (gd) "get m ''type'' = Inr (JStr ''getDefinition'')"
    | (ts) "get m ''type'' = Inr (JStr ''translateSentence'')"
    | (other) "get m ''type'' \<noteq> Inr (JStr ''getDefinition'')" "get m ''type'' \<noteq> Inr (JStr ''translateSentence'')"
    by blast
  then show ?thesis
  proof cases
    case gd
    then show ?thesis by (simp only: handle_message_dispatch(1) get_definition_None) (simp add: answers_def split: sum.split jval.split)
  next
    case ts
    then obtain x where "get m ''text'' = Inr x" using get_Inr_other by blast
    with ts show ?thesis by (simp add: handle_message_dispatch(2) translate_sentence_None answers_def)
  next
    case other
    then show ?thesis by (simp add: handle_message_dispatch(3) answers_def)
  qed
qed

lemma set_pron0_obj:
  assumes "prop_of kvs ''pronunciation'' = JArr (JObj p0 # rest)"
  shows "set_pron0 (JObj kvs) k v =
           Inr (JObj (put_prop ''pronunciation'' (JArr (JObj (put_prop k v p0) # rest)) kvs))"
  using assms by (simp add: set_pron0_def)

lemma enrich_pronunciation_cases:
  assumes pr: "prop_of kvs ''pronunciation'' = JArr (JObj p0 # rest)"
    and en: "enrich_pronunciation (JObj kvs) c = Inr ng'"
  shows "ng' = JObj kvs \<or>
         (\<exists>u. ng' = JObj (put_prop ''pronunciation'' (JArr (JObj (put_prop ''url'' u p0) # rest)) kvs)) \<or>
         (\<exists>u v. \<not> truthy (prop_of p0 ''pron'') \<and>
            ng' = JObj (put_prop ''pronunciation'' (JArr (JObj (put_prop ''pron'' v (put_prop ''url'' u p0)) # rest)) kvs))"
  using en pr unfolding enrich_pronunciation_def
  by (fastforce simp: set_pron0_obj split: if_splits elim!: js_bind_InrE)

lemma cache_ok_start:
  assumes "set (map fst ss) \<subseteq> set definition_setting_keys" and "valid_settings ss"
  shows "cache_ok \<lparr>store = map_of ss, fetched = fs\<rparr>"
proof -
  have "k \<in> set definition_setting_keys \<and> valid_setting k v" if "map_of ss k = Some v" for k v
  proof -
    from that have kv: "(k, v) \<in> set ss" by (rule map_of_SomeD)
    then have "k \<in> set (map fst ss)" by force
    with assms kv show ?thesis by (blast dest: valid_settingsD)
  qed
  then show ?thesis by (simp add: cache_ok_def)
qed

lemma cache_ok_write:
  assumes ok: "cache_ok w"
    and upd: "store w' = store w \<or> (\<exists>k d. store w' = (store w)(k \<mapsto> d) \<and> (lexical_entry k d \<or> sentence_entry k d))"
  shows "cache_ok w'"
  unfolding cache_ok_def
proof (intro allI impI)
  fix k v
  assume kv: "store w' k = Some v"
  from upd consider "store w' = store w"
    | k' d where "store w' = (store w)(k' \<mapsto> d)" "lexical_entry k' d \<or> sentence_entry k' d"
    by blast
  then show "if k \<in> set definition_setting_keys then valid_setting k v else lexical_entry k v \<or> sentence_entry k v"
  proof cases
    case 1
    with kv ok show ?thesis unfolding cache_ok_def by simp
  next
    case 2
    with kv ok entry_not_setting [OF 2(2)] show ?thesis unfolding cache_ok_def by (cases "k = k'") auto
  qed
qed

lemma cache_ok_setting:
  "cache_ok w \<Longrightarrow> k \<in> set definition_setting_keys \<Longrightarrow> pred_option (valid_setting k) ov \<Longrightarrow>
     cache_ok (w\<lparr>store := (store w)(k := ov)\<rparr>)"
  by (cases ov) (auto simp: cache_ok_def)

text \<open>What the valid settings render in the key (line 98).\<close>

lemma valid_scope:
  "valid_settings s \<Longrightarrow> prop_of s ''definitionScope'' \<in> {JUndef, JStr ''relevant'', JStr ''all''}"
  using prop_of_valid [of s "''definitionScope''"] by (auto simp: valid_setting_def)

lemma valid_count:
  "valid_settings s \<Longrightarrow> prop_of s ''exampleCount'' = JUndef \<or> (\<exists>n. prop_of s ''exampleCount'' = JNum n \<and> 0 \<le> n)"
  using prop_of_valid [of s "''exampleCount''"]
  by (cases "prop_of s ''exampleCount''") (auto simp: valid_setting_def)

lemma valid_language:
  "valid_settings s \<Longrightarrow> display_language s = JStr ''none'' \<or> (\<exists>l. display_language s = JStr l \<and> CHR ''_'' \<notin> set l)"
  using prop_of_valid [of s "''targetLanguage''"]
  by (cases "prop_of s ''targetLanguage'' = JUndef")
     (auto simp: valid_setting_def display_language_def js_or_def split: jval.splits)

lemma valid_source:
  "valid_settings s \<Longrightarrow> display_source s \<in> {JStr ''cambridge'', JStr ''merriam-webster'', JStr ''gemini''}"
  using prop_of_valid [of s "''preferredSource''"]
  by (cases "prop_of s ''preferredSource'' = JUndef") (auto simp: valid_setting_def display_source_def js_or_def)

lemma num_render_digits:
  "0 \<le> n \<Longrightarrow> c \<in> set (js_to_string (JNum n)) \<Longrightarrow> 48 \<le> (of_char c :: nat) \<and> (of_char c :: nat) \<le> 57"
  by (simp del: nat_str.simps add: int_str_def nat_str_chars)

lemma num_render_inj:
  "0 \<le> a \<Longrightarrow> 0 \<le> b \<Longrightarrow> js_to_string (JNum a) = js_to_string (JNum b) \<Longrightarrow> a = b"
  using nat_str_inj [of "nat a" "nat b"] by (simp del: nat_str.simps add: int_str_def)

lemma valid_key_tail:
  assumes "valid_settings s"
  shows "CHR ''_'' \<notin> set (concat (tl (key_fields s)))"
proof -
  have c: "CHR ''_'' \<notin> set (js_to_string (prop_of s ''exampleCount''))"
    using valid_count [OF assms] num_render_digits [of _ "CHR ''_''"] by auto
  show ?thesis using valid_scope [OF assms] valid_language [OF assms] c by (auto simp: key_fields_def)
qed

lemma valid_key_tail_inj:
  assumes "valid_settings s1" "valid_settings s2" and "tl (key_fields s1) = tl (key_fields s2)"
  shows "scope_setting s1 = scope_setting s2 \<and> count_setting s1 = count_setting s2"
proof -
  from assms(3) have sc: "js_to_string (prop_of s1 ''definitionScope'') = js_to_string (prop_of s2 ''definitionScope'')"
    and cn: "js_to_string (prop_of s1 ''exampleCount'') = js_to_string (prop_of s2 ''exampleCount'')"
    by (simp_all add: key_fields_def)
  from sc valid_scope [OF assms(1)] valid_scope [OF assms(2)]
  have "prop_of s1 ''definitionScope'' = prop_of s2 ''definitionScope''" by auto
  moreover have "prop_of s1 ''exampleCount'' = prop_of s2 ''exampleCount''"
  proof -
    have nu: "int_str n \<noteq> ''undefined''" "''undefined'' \<noteq> int_str n" if "0 \<le> n" for n
    proof -
      show "int_str n \<noteq> ''undefined''"
      proof
        assume e: "int_str n = ''undefined''"
        have "CHR ''u'' \<in> set (int_str n)" unfolding e by simp
        with num_render_digits [OF that, of "CHR ''u''"] show False by simp
      qed
      then show "''undefined'' \<noteq> int_str n" by (rule not_sym)
    qed
    have inj: "a = b" if "0 \<le> a" "0 \<le> b" "int_str a = int_str b" for a b
      using num_render_inj [OF that(1,2)] that(3) by simp
    from valid_count [OF assms(1)] valid_count [OF assms(2)] cn nu inj
    show ?thesis by (elim disjE exE conjE) auto
  qed
  ultimately show ?thesis by (simp add: scope_setting_def count_setting_def)
qed

lemma apply_display_preferences_settings:
  "scope_setting s1 = scope_setting s2 \<Longrightarrow> count_setting s1 = count_setting s2 \<Longrightarrow>
     apply_display_preferences d s1 = apply_display_preferences d s2"
  by (simp add: apply_display_preferences_def)

lemma lexical_entry_projection:
  assumes "valid_settings s" and "lexical_entry (display_cache_key s word) v"
  shows "\<exists>full. apply_display_preferences full s = Inr v"
proof -
  from assms(2) obtain s' w' full where s': "valid_settings s'" "display_cache_key s word = display_cache_key s' w'"
    "apply_display_preferences full s' = Inr v" unfolding lexical_entry_def by blast
  from display_cache_key_tail [OF valid_key_tail [OF assms(1)] valid_key_tail [OF s'(1)] s'(2)]
  have "tl (key_fields s) = tl (key_fields s')" .
  from valid_key_tail_inj [OF assms(1) s'(1) this] s'(3) show ?thesis
    using apply_display_preferences_settings [of s s' full] by auto
qed

lemma display_not_sentence_key:
  "valid_settings s \<Longrightarrow> display_cache_key s word \<noteq> sentence_cache_key x l"
  using valid_source [of s] by (auto simp: display_cache_key_def sentence_cache_key_def)

lemma cache_ok_projection:
  assumes "cache_ok w" and "valid_settings s" and "store w (display_cache_key s word) = Some v"
  shows "\<exists>full. apply_display_preferences full s = Inr v"
proof -
  have "display_cache_key s word \<notin> set definition_setting_keys"
    by (simp add: display_cache_key_def definition_setting_keys_def)
  with assms(1,3) have "lexical_entry (display_cache_key s word) v \<or> sentence_entry (display_cache_key s word) v"
    unfolding cache_ok_def by fastforce
  with display_not_sentence_key [OF assms(2)] have "lexical_entry (display_cache_key s word) v"
    unfolding sentence_entry_def by blast
  from lexical_entry_projection [OF assms(2) this] show ?thesis .
qed

lemma url_sent_append_nohash:
  "CHR ''#'' \<notin> set p \<Longrightarrow> url_sent (p @ w) = p @ url_sent w"
  by (induction p) (auto simp: url_sent_def)

lemma url_sent_nohash: "CHR ''#'' \<notin> set p \<Longrightarrow> url_sent p = p"
  using url_sent_append_nohash [of p "[]"] by (simp add: url_sent_def)

lemma hash_not_in_encode: "CHR ''#'' \<notin> set (encode_uri_component w)"
proof -
  have "CHR ''#'' \<notin> set (encode_char c)" for c
  proof -
    let ?n = "of_char c :: nat"
    have b: "?n < 256" by (rule nat_of_char_less_256)
    then have lt: "?n div 16 < 16" "?n mod 16 < 16" by (simp_all add: div_less_iff_less_mult)
    have "\<not> is_alnum CHR ''#''" by (simp add: is_alnum_def)
    moreover have "\<not> is_unreserved CHR ''#''" by (simp add: is_unreserved_def is_alnum_def)
    ultimately show ?thesis using lt alnum_hex by (auto simp: encode_char_def)
  qed
  then show ?thesis by (auto simp: encode_uri_component_def)
qed

lemma length_encode_append:
  "length (encode_uri_component (xs @ ys)) = length (encode_uri_component xs) + length (encode_uri_component ys)"
  by (simp add: encode_uri_component_def)

lemma encode_char_nonempty: "encode_char c \<noteq> []"
  by (simp add: encode_char_def)

section \<open>Properties of the message listener\<close>

text \<open>
  C26. In every reachable world each value in the store is a valid setting, a
  projected entry under a lexical key rendered from valid settings it was projected
  with, or an error-free translation under a sentence key. In particular the entry
  under the key of any valid settings is a projection under exactly those settings:
  the cache never holds an unprojected entry, or one projected with other scope or
  count, under such a key.
\<close>

theorem reachable_cache_ok:
  "reachable w \<Longrightarrow>
     cache_ok w \<and>
     (\<forall>s word v. valid_settings s \<longrightarrow> store w (display_cache_key s word) = Some v \<longrightarrow>
        (\<exists>full. apply_display_preferences full s = Inr v))"
proof (induction rule: reachable.induct)
  case (start ss)
  then have "cache_ok \<lparr>store = map_of ss, fetched = []\<rparr>" by (rule cache_ok_start)
  then show ?case using cache_ok_projection by blast
next
  case (message w net m w' r)
  from message.IH handle_message_store [OF message.hyps(2)] have "cache_ok w'" by (blast intro: cache_ok_write)
  then show ?case using cache_ok_projection by blast
next
  case (options w k ov)
  from options.IH options.hyps(2,3) have "cache_ok (w\<lparr>store := (store w)(k := ov)\<rparr>)"
    by (blast intro: cache_ok_setting)
  then show ?case using cache_ok_projection by blast
qed

theorem reachable_cache_ok_witness:
  "store (fst (handle_message ex_net ex_msg \<lparr>store = map_of [], fetched = []\<rparr>)) ''qdp_cambridge_run_undefined_undefined_none'' =
     Some (JObj [(''word'', JStr ''run''), (''definition'', JArr [JObj [(''pos'', JStr ''verb''), (''text'', JStr ''move fast''), (''example'', JArr [JStr ''a''])]])]) \<and>
   (\<exists>full. apply_display_preferences full [] =
      Inr (JObj [(''word'', JStr ''run''), (''definition'', JArr [JObj [(''pos'', JStr ''verb''), (''text'', JStr ''move fast''), (''example'', JArr [JStr ''a''])]])]))"
proof -
  let ?w0 = "\<lparr>store = map_of [], fetched = []\<rparr>"
  let ?w1 = "fst (handle_message ex_net ex_msg ?w0)"
  have r0: "reachable ?w0" by (rule start) (simp_all add: valid_settings_def)
  have r1: "reachable ?w1" by (rule message [OF r0, of ex_net ex_msg _ "snd (handle_message ex_net ex_msg ?w0)"]) simp
  have st: "store ?w1 ''qdp_cambridge_run_undefined_undefined_none'' =
     Some (JObj [(''word'', JStr ''run''), (''definition'', JArr [JObj [(''pos'', JStr ''verb''), (''text'', JStr ''move fast''), (''example'', JArr [JStr ''a''])]])])"
    by code_simp
  have k: "display_cache_key [] ''run'' = ''qdp_cambridge_run_undefined_undefined_none''" by code_simp
  have v: "valid_settings []" by (simp add: valid_settings_def)
  from reachable_cache_ok [OF r1] v st k show ?thesis by metis
qed

text \<open>
  C27. On a cache miss, a successful response carries the projection, with the
  request's settings, of the entry the selected provider's request settled with:
  the Gemini phrase request, the Gemini request with its Cambridge enrichment for a
  single word, the Merriam-Webster request through its adapter, or the default
  dictionary request. Exactly that provider's URLs are fetched, and the store gains
  exactly the projection under the request's key.
\<close>

theorem get_definition_success:
  assumes "get message ''word'' = Inr (JStr s)" and "\<not> truthy (storage_lookup (store w) (def_key w s))"
    and "get_definition net message w = (w', Some (RSuccess d t))"
  shows "store w' = (store w)(def_key w s \<mapsto> d) \<and> t = tts_flag (def_settings w) \<and>
         (let S = def_settings w; word = to_lower s; lang = display_language S;
              gurl = gemini_url word lang; curl = cambridge_audio_url word;
              murl = mw_url word (prop_of S ''mwApiKey''); durl = dictionary_url word
          in \<exists>full. apply_display_preferences full S = Inr d \<and>
             (if display_source S = JStr ''gemini'' then
                (if is_phrase word then fetched w' = fetched w @ [gurl] \<and> gemini_phrase_result net gurl = Inr full
                 else fetched w' = fetched w @ [gurl, curl] \<and> gemini_word_result net gurl curl = Inr full)
              else if display_source S = JStr ''merriam-webster'' then
                fetched w' = fetched w @ [murl] \<and> mw_result net murl = Inr full
              else fetched w' = fetched w @ [durl] \<and> fetch_json net durl = Inr full))"
proof (cases "provider_request net (def_settings w) (to_lower s)")
  case (Inl r)
  with assms show ?thesis by (simp add: get_definition_def Let_def provider_request_def split: if_splits)
next
  case (Inr p)
  obtain urls result where p: "p = (urls, result)" by fastforce
  with Inr assms have "finish_definition (w\<lparr>fetched := fetched w @ urls\<rparr>) (def_settings w) (def_key w s) result =
                         (w', RSuccess d t)"
    by (simp add: get_definition_def Let_def prod.case_eq_if prod_eq_iff)
  from finish_definition_success [OF this] obtain full where
    f: "result = Inr full" "apply_display_preferences full (def_settings w) = Inr d"
       "w' = w\<lparr>fetched := fetched w @ urls, store := (store w)(def_key w s \<mapsto> d)\<rparr>" "t = tts_flag (def_settings w)"
    by auto
  from Inr p have pr: "provider_request net (def_settings w) (to_lower s) = Inr (urls, result)" by simp
  show ?thesis
    using pr f by (auto simp: provider_request_def Let_def split: if_splits)
qed

theorem get_definition_success_witness:
  "store (fst (get_definition ex_net ex_msg \<lparr>store = map_of [], fetched = []\<rparr>)) ''qdp_cambridge_run_undefined_undefined_none'' = Some (JObj [(''word'', JStr ''run''), (''definition'', JArr [JObj [(''pos'', JStr ''verb''), (''text'', JStr ''move fast''), (''example'', JArr [JStr ''a''])]])]) \<and>
   fetched (fst (get_definition ex_net ex_msg \<lparr>store = map_of [], fetched = []\<rparr>)) = [''http://localhost:3000/api/dictionary/en/run''] \<and>
   (\<exists>full. apply_display_preferences full [] = Inr (JObj [(''word'', JStr ''run''), (''definition'', JArr [JObj [(''pos'', JStr ''verb''), (''text'', JStr ''move fast''), (''example'', JArr [JStr ''a''])]])]) \<and>
      fetch_json ex_net ''http://localhost:3000/api/dictionary/en/run'' = Inr full)"
proof -
  let ?w = "\<lparr>store = map_of [], fetched = []\<rparr>"
  have m: "get ex_msg ''word'' = Inr (JStr ''Run'')" by (simp add: ex_msg_def)
  have miss: "\<not> truthy (storage_lookup (store ?w) (def_key ?w ''Run''))" by code_simp
  have r: "snd (get_definition ex_net ex_msg ?w) = Some (RSuccess (JObj [(''word'', JStr ''run''), (''definition'', JArr [JObj [(''pos'', JStr ''verb''), (''text'', JStr ''move fast''), (''example'', JArr [JStr ''a''])]])]) (JBool False))" by code_simp
  then have e: "get_definition ex_net ex_msg ?w = (fst (get_definition ex_net ex_msg ?w), Some (RSuccess (JObj [(''word'', JStr ''run''), (''definition'', JArr [JObj [(''pos'', JStr ''verb''), (''text'', JStr ''move fast''), (''example'', JArr [JStr ''a''])]])]) (JBool False)))"
    by (simp add: prod_eq_iff)
  have k: "def_key ?w ''Run'' = ''qdp_cambridge_run_undefined_undefined_none''" by code_simp
  have s: "def_settings ?w = []" by code_simp
  have src: "display_source [] = JStr ''cambridge''" by (simp add: display_source_def js_or_def prop_of_def)
  have low: "to_lower ''Run'' = ''run''" by code_simp
  have u: "dictionary_url ''run'' = ''http://localhost:3000/api/dictionary/en/run''" by (simp add: dictionary_url_def)
  from get_definition_success [OF m miss e] k s src low u show ?thesis by (auto simp: Let_def)
qed

text \<open>
  C28. On a cache hit the handler answers with the cached entry and the settings'
  \<open>ttsEnabled\<close>, fetches nothing and writes nothing.
\<close>

theorem get_definition_cache_hit:
  assumes "get message ''word'' = Inr (JStr s)" and "truthy (storage_lookup (store w) (def_key w s))"
  shows "get_definition net message w =
           (w, Some (RSuccess (storage_lookup (store w) (def_key w s)) (tts_flag (def_settings w))))"
  using assms by (simp add: get_definition_def Let_def)

theorem get_definition_cache_hit_witness:
  "get_definition ex_net ex_msg \<lparr>store = map_of [(''qdp_cambridge_run_undefined_undefined_none'', JObj [(''word'', JStr ''run''), (''definition'', JArr [JObj [(''pos'', JStr ''verb''), (''text'', JStr ''move fast''), (''example'', JArr [JStr ''a''])]])])], fetched = []\<rparr> =
     (\<lparr>store = map_of [(''qdp_cambridge_run_undefined_undefined_none'', JObj [(''word'', JStr ''run''), (''definition'', JArr [JObj [(''pos'', JStr ''verb''), (''text'', JStr ''move fast''), (''example'', JArr [JStr ''a''])]])])], fetched = []\<rparr>, Some (RSuccess (JObj [(''word'', JStr ''run''), (''definition'', JArr [JObj [(''pos'', JStr ''verb''), (''text'', JStr ''move fast''), (''example'', JArr [JStr ''a''])]])]) (JBool False)))"
proof -
  let ?w = "\<lparr>store = map_of [(''qdp_cambridge_run_undefined_undefined_none'', JObj [(''word'', JStr ''run''), (''definition'', JArr [JObj [(''pos'', JStr ''verb''), (''text'', JStr ''move fast''), (''example'', JArr [JStr ''a''])]])])], fetched = []\<rparr>"
  have m: "get ex_msg ''word'' = Inr (JStr ''Run'')" by (simp add: ex_msg_def)
  have hit: "truthy (storage_lookup (store ?w) (def_key ?w ''Run''))" by code_simp
  have l: "storage_lookup (store ?w) (def_key ?w ''Run'') = JObj [(''word'', JStr ''run''), (''definition'', JArr [JObj [(''pos'', JStr ''verb''), (''text'', JStr ''move fast''), (''example'', JArr [JStr ''a''])]])]" by code_simp
  have t: "tts_flag (def_settings ?w) = JBool False" by code_simp
  from get_definition_cache_hit [OF m hit] l t show ?thesis by simp
qed

text \<open>
  C29. With Merriam-Webster selected and no API key, a cache miss is answered with
  the configuration error before any fetch, and the store is unchanged.
\<close>

theorem get_definition_mw_missing_key:
  assumes "get message ''word'' = Inr (JStr s)" and "\<not> truthy (storage_lookup (store w) (def_key w s))"
    and "display_source (def_settings w) = JStr ''merriam-webster''"
    and "\<not> truthy (prop_of (def_settings w) ''mwApiKey'')"
  shows "get_definition net message w = (w, Some (RError mw_key_missing))"
  using assms by (simp add: get_definition_def provider_request_def Let_def)

theorem get_definition_mw_missing_key_witness:
  "get_definition ex_net ex_msg \<lparr>store = map_of [(''preferredSource'', JStr ''merriam-webster'')], fetched = []\<rparr> =
     (\<lparr>store = map_of [(''preferredSource'', JStr ''merriam-webster'')], fetched = []\<rparr>, Some (RError mw_key_missing))"
proof -
  let ?w = "\<lparr>store = map_of [(''preferredSource'', JStr ''merriam-webster'')], fetched = []\<rparr>"
  have m: "get ex_msg ''word'' = Inr (JStr ''Run'')" by (simp add: ex_msg_def)
  have miss: "\<not> truthy (storage_lookup (store ?w) (def_key ?w ''Run''))" by code_simp
  have src: "display_source (def_settings ?w) = JStr ''merriam-webster''" by code_simp
  have key: "\<not> truthy (prop_of (def_settings ?w) ''mwApiKey'')" by code_simp
  from get_definition_mw_missing_key [OF m miss src key] show ?thesis .
qed

text \<open>
  C30. For a phrase (two or more whitespace-separated words) with the Gemini
  provider, a cache miss fetches the Gemini URL and nothing else: no audio
  enrichment is attempted (the \<open>pick up\<close> scenario of the specification).
\<close>

theorem get_definition_phrase_single_fetch:
  assumes "get message ''word'' = Inr (JStr s)" and "\<not> truthy (storage_lookup (store w) (def_key w s))"
    and "display_source (def_settings w) = JStr ''gemini''" and "is_phrase (to_lower s)"
  shows "fetched (fst (get_definition net message w)) =
           fetched w @ [gemini_url (to_lower s) (display_language (def_settings w))]"
  using assms by (simp add: get_definition_def provider_request_def Let_def prod.case_eq_if)

theorem get_definition_phrase_single_fetch_witness:
  "fetched (fst (get_definition ex_net (JObj [(''type'', JStr ''getDefinition''), (''word'', JStr ''Pick Up'')])
                   \<lparr>store = map_of [(''preferredSource'', JStr ''gemini'')], fetched = []\<rparr>)) =
     [''http://localhost:3000/api/gemini/pick%20up'']"
proof -
  let ?w = "\<lparr>store = map_of [(''preferredSource'', JStr ''gemini'')], fetched = []\<rparr>"
  let ?m = "JObj [(''type'', JStr ''getDefinition''), (''word'', JStr ''Pick Up'')]"
  have m: "get ?m ''word'' = Inr (JStr ''Pick Up'')" by simp
  have miss: "\<not> truthy (storage_lookup (store ?w) (def_key ?w ''Pick Up''))" by code_simp
  have src: "display_source (def_settings ?w) = JStr ''gemini''" by code_simp
  have ph: "is_phrase (to_lower ''Pick Up'')" by code_simp
  have u: "gemini_url (to_lower ''Pick Up'') (display_language (def_settings ?w)) = ''http://localhost:3000/api/gemini/pick%20up''"
    by code_simp
  from get_definition_phrase_single_fetch [OF m miss src ph] u show ?thesis by simp
qed

text \<open>
  C31. For a single word with the Gemini provider, a failure of the Cambridge
  enrichment fetch fails the whole request, although the Gemini entry was found:
  \<open>Promise.all\<close> rejects, nothing is cached, and the response is the network error.
  The specification requires the enrichment to be dropped instead.
\<close>

theorem get_definition_enrichment_failure:
  assumes "get message ''word'' = Inr (JStr s)" and "\<not> truthy (storage_lookup (store w) (def_key w s))"
    and "display_source (def_settings w) = JStr ''gemini''" and "\<not> is_phrase (to_lower s)"
    and "answer net (gemini_url (to_lower s) (display_language (def_settings w))) = Json g"
    and "normalize_gemini_data g = Inr (Some ng)"
    and "answer net (cambridge_audio_url (to_lower s)) = NetFail"
  shows "snd (get_definition net message w) = Some (RError NetworkError) \<and>
         store (fst (get_definition net message w)) = store w"
  using assms
  by (simp add: get_definition_def provider_request_def Let_def gemini_word_result_def promise_all2_def
                fetch_json_def fetch_json_or_null_def finish_definition_def split: prod.split)

theorem get_definition_enrichment_failure_witness:
  "snd (get_definition ex_enrich_net ex_msg \<lparr>store = map_of [(''preferredSource'', JStr ''gemini'')], fetched = []\<rparr>) =
     Some (RError NetworkError) \<and>
   normalize_gemini_data ex_gemini_payload = Inr (Some (JObj [(''word'', JStr ''run''), (''translation'', JNull), (''pos'', JArr [JStr ''verb'']), (''verbs'', JArr []),
                  (''pronunciation'', JArr [JObj [(''lang'', JStr ''us''), (''pron'', JStr []), (''url'', JStr [])]]),
                  (''definition'', JArr [JObj [(''pos'', JStr ''verb''), (''text'', JStr ''move fast''),
                                              (''translation'', JNull), (''example'', JArr [])]])]))"
proof -
  let ?w = "\<lparr>store = map_of [(''preferredSource'', JStr ''gemini'')], fetched = []\<rparr>"
  have m: "get ex_msg ''word'' = Inr (JStr ''Run'')" by (simp add: ex_msg_def)
  have miss: "\<not> truthy (storage_lookup (store ?w) (def_key ?w ''Run''))" by code_simp
  have src: "display_source (def_settings ?w) = JStr ''gemini''" by code_simp
  have ph: "\<not> is_phrase (to_lower ''Run'')" by code_simp
  have g: "answer ex_enrich_net (gemini_url (to_lower ''Run'') (display_language (def_settings ?w))) = Json ex_gemini_payload"
    by code_simp
  have n: "normalize_gemini_data ex_gemini_payload = Inr (Some (JObj [(''word'', JStr ''run''), (''translation'', JNull), (''pos'', JArr [JStr ''verb'']), (''verbs'', JArr []),
                  (''pronunciation'', JArr [JObj [(''lang'', JStr ''us''), (''pron'', JStr []), (''url'', JStr [])]]),
                  (''definition'', JArr [JObj [(''pos'', JStr ''verb''), (''text'', JStr ''move fast''),
                                              (''translation'', JNull), (''example'', JArr [])]])]))" by code_simp
  have c: "answer ex_enrich_net (cambridge_audio_url (to_lower ''Run'')) = NetFail" by code_simp
  from get_definition_enrichment_failure [OF m miss src ph g n c] n show ?thesis by simp
qed

text \<open>
  A sentence translation with no target language set, or set to \<open>none\<close>, is
  answered with the \<open>noLanguage\<close> status before any cache lookup or fetch.
\<close>

theorem translate_sentence_no_language:
  assumes "get message ''text'' = Inr sv"
    and "\<not> truthy (storage_lookup (store w) ''targetLanguage'') \<or> storage_lookup (store w) ''targetLanguage'' = JStr ''none''"
  shows "translate_sentence net message w = (w, Some (RNoLanguage no_language_message))"
  using assms by (auto simp: translate_sentence_def)

theorem translate_sentence_no_language_witness:
  "translate_sentence ex_net (JObj [(''type'', JStr ''translateSentence''), (''text'', JStr ''hello'')])
     \<lparr>store = map_of [(''targetLanguage'', JStr ''none'')], fetched = []\<rparr> =
   (\<lparr>store = map_of [(''targetLanguage'', JStr ''none'')], fetched = []\<rparr>, Some (RNoLanguage no_language_message))"
proof -
  have t: "get (JObj [(''type'', JStr ''translateSentence''), (''text'', JStr ''hello'')]) ''text'' = Inr (JStr ''hello'')"
    by simp
  have l: "\<not> truthy (storage_lookup (store \<lparr>store = map_of [(''targetLanguage'', JStr ''none'')], fetched = []\<rparr>) ''targetLanguage'') \<or>
           storage_lookup (store \<lparr>store = map_of [(''targetLanguage'', JStr ''none'')], fetched = []\<rparr>) ''targetLanguage'' = JStr ''none''"
    by (simp add: storage_lookup_def)
  from translate_sentence_no_language [OF t l] show ?thesis .
qed

text \<open>
  C32. The listener answers exactly the \<open>getDefinition\<close> messages whose \<open>word\<close> is a
  string and all \<open>translateSentence\<close> messages: every such request gets one
  response, on every path, errors included.
\<close>

theorem handle_message_responds:
  "snd (handle_message net m w) \<noteq> None \<longleftrightarrow>
     (get m ''type'' = Inr (JStr ''getDefinition'') \<and> (\<exists>s. get m ''word'' = Inr (JStr s))) \<or>
     get m ''type'' = Inr (JStr ''translateSentence'')"
  using handle_message_None_iff [of net m w]
  by (auto simp: answers_def split: sum.splits jval.splits)

theorem handle_message_responds_witness:
  "snd (handle_message ex_net ex_msg \<lparr>store = map_of [], fetched = []\<rparr>) \<noteq> None \<and>
   snd (handle_message ex_net (JObj [(''type'', JStr ''getDefinition''), (''word'', JNum 5)]) \<lparr>store = map_of [], fetched = []\<rparr>) = None"
  using handle_message_responds [of ex_net ex_msg "\<lparr>store = map_of [], fetched = []\<rparr>"]
        handle_message_responds [of ex_net "JObj [(''type'', JStr ''getDefinition''), (''word'', JNum 5)]" "\<lparr>store = map_of [], fetched = []\<rparr>"]
  by (simp add: ex_msg_def)

text \<open>
  C37. A term is treated as a phrase (no audio enrichment) exactly when, after its
  leading whitespace and its first word, a non-space character remains: whitespace
  alone does not make a phrase, so a single word with leading or trailing spaces is
  still enriched.
\<close>

theorem is_phrase_iff:
  "is_phrase w \<longleftrightarrow> (\<exists>c\<in>set (dropWhile (\<lambda>c. \<not> is_ws c) (dropWhile is_ws w)). \<not> is_ws c)"
proof -
  let ?v = "dropWhile is_ws w"
  have v: "ws_words w = ws_words ?v" by (simp add: ws_words_dropWhile_ws)
  show ?thesis
  proof (cases ?v)
    case Nil
    with v have "ws_words w = []" by simp
    with Nil show ?thesis by (simp add: is_phrase_def del: dropWhile_eq_Nil_conv)
  next
    case (Cons c cs)
    then have "\<not> is_ws c" using hd_dropWhile [of is_ws w] by auto
    with Cons v
    have "ws_words w = takeWhile (\<lambda>x. \<not> is_ws x) (c # cs) # ws_words (dropWhile (\<lambda>x. \<not> is_ws x) cs)"
      by simp
    moreover have "dropWhile (\<lambda>c. \<not> is_ws c) ?v = dropWhile (\<lambda>x. \<not> is_ws x) cs"
      using Cons \<open>\<not> is_ws c\<close> by simp
    ultimately show ?thesis
      by (simp add: is_phrase_def ws_words_empty_iff)
  qed
qed

theorem is_phrase_iff_witness:
  "is_phrase ''pick up'' \<and> \<not> is_phrase '' run ''"
  using is_phrase_iff [of "''pick up''"] is_phrase_iff [of "'' run ''"]
  by (simp add: is_ws_def)

text \<open>
  C12. The audio enrichment changes nothing of the Gemini entry but its first
  pronunciation, and of that only \<open>url\<close> and, when it was empty, \<open>pron\<close>: the merge
  borrows the audio URL and the phonetic text and adopts nothing else of the
  secondary payload.
\<close>

theorem enrich_pronunciation_frame:
  assumes pr: "prop_of kvs ''pronunciation'' = JArr (JObj p0 # rest)"
    and en: "enrich_pronunciation (JObj kvs) c = Inr ng'"
  shows "\<exists>p0'. ng' = JObj (put_prop ''pronunciation'' (JArr (JObj p0' # rest)) kvs) \<and>
           (\<forall>k. k \<noteq> ''url'' \<and> k \<noteq> ''pron'' \<longrightarrow> prop_of p0' k = prop_of p0 k) \<and>
           (truthy (prop_of p0 ''pron'') \<longrightarrow> prop_of p0' ''pron'' = prop_of p0 ''pron'')"
proof -
  have same: "JObj kvs = JObj (put_prop ''pronunciation'' (JArr (JObj p0 # rest)) kvs)"
    using put_prop_same [OF prop_of_Some [OF pr]] by simp
  from enrich_pronunciation_cases [OF pr en] show ?thesis
  proof (elim disjE exE conjE)
    assume "ng' = JObj kvs"
    with same show ?thesis by (intro exI [of _ p0]) simp
  next
    fix u
    assume "ng' = JObj (put_prop ''pronunciation'' (JArr (JObj (put_prop ''url'' u p0) # rest)) kvs)"
    then show ?thesis by (intro exI [of _ "put_prop ''url'' u p0"]) simp
  next
    fix u v
    assume "\<not> truthy (prop_of p0 ''pron'')"
      and "ng' = JObj (put_prop ''pronunciation'' (JArr (JObj (put_prop ''pron'' v (put_prop ''url'' u p0)) # rest)) kvs)"
    then show ?thesis by (intro exI [of _ "put_prop ''pron'' v (put_prop ''url'' u p0)"]) simp
  qed
qed

theorem enrich_pronunciation_frame_witness:
  "enrich_pronunciation (JObj [(''word'', JStr ''run''), (''pronunciation'', JArr [JObj [(''lang'', JStr ''us''), (''pron'', JStr []), (''url'', JStr [])]])]) (JObj [(''pronunciation'', JArr [JObj [(''pron'', JStr ''/r@n/'')], JObj [(''url'', JStr ''run.mp3''), (''pron'', JStr ''/r@n/'')]])]) = Inr (JObj [(''word'', JStr ''run''), (''pronunciation'', JArr [JObj [(''lang'', JStr ''us''), (''pron'', JStr ''/r@n/''), (''url'', JStr ''run.mp3'')]])]) \<and>
   (\<exists>p0'. JObj [(''word'', JStr ''run''), (''pronunciation'', JArr [JObj [(''lang'', JStr ''us''), (''pron'', JStr ''/r@n/''), (''url'', JStr ''run.mp3'')]])] = JObj (put_prop ''pronunciation'' (JArr [JObj p0']) [(''word'', JStr ''run''), (''pronunciation'', JArr [JObj [(''lang'', JStr ''us''), (''pron'', JStr []), (''url'', JStr [])]])]) \<and> prop_of p0' ''lang'' = JStr ''us'')"
proof -
  have pr: "prop_of [(''word'', JStr ''run''), (''pronunciation'', JArr [JObj [(''lang'', JStr ''us''), (''pron'', JStr []), (''url'', JStr [])]])] ''pronunciation'' = JArr [JObj [(''lang'', JStr ''us''), (''pron'', JStr []), (''url'', JStr [])]]"
    by simp
  have en: "enrich_pronunciation (JObj [(''word'', JStr ''run''), (''pronunciation'', JArr [JObj [(''lang'', JStr ''us''), (''pron'', JStr []), (''url'', JStr [])]])]) (JObj [(''pronunciation'', JArr [JObj [(''pron'', JStr ''/r@n/'')], JObj [(''url'', JStr ''run.mp3''), (''pron'', JStr ''/r@n/'')]])]) = Inr (JObj [(''word'', JStr ''run''), (''pronunciation'', JArr [JObj [(''lang'', JStr ''us''), (''pron'', JStr ''/r@n/''), (''url'', JStr ''run.mp3'')]])])" by code_simp
  from enrich_pronunciation_frame [OF pr en] obtain p0' where
    "JObj [(''word'', JStr ''run''), (''pronunciation'', JArr [JObj [(''lang'', JStr ''us''), (''pron'', JStr ''/r@n/''), (''url'', JStr ''run.mp3'')]])] = JObj (put_prop ''pronunciation'' (JArr [JObj p0']) [(''word'', JStr ''run''), (''pronunciation'', JArr [JObj [(''lang'', JStr ''us''), (''pron'', JStr []), (''url'', JStr [])]])])"
    "\<forall>k. k \<noteq> ''url'' \<and> k \<noteq> ''pron'' \<longrightarrow> prop_of p0' k = prop_of [(''lang'', JStr ''us''), (''pron'', JStr []), (''url'', JStr [])] k"
    by blast
  with en show ?thesis by auto
qed

text \<open>
  C33. The default provider's URL (line 159) interpolates the term without
  encoding it: a term with a \<open>#\<close> requests the entry of the text before it, which is
  then cached under the key of the whole term, where the enrichment URL, which
  encodes the term, keeps the terms apart.
\<close>

theorem dictionary_url_fragment:
  assumes "CHR ''#'' \<notin> set w"
  shows "url_sent (dictionary_url (w @ CHR ''#'' # x)) = url_sent (dictionary_url w) \<and>
         url_sent (cambridge_audio_url (w @ CHR ''#'' # x)) \<noteq> url_sent (cambridge_audio_url w)"
proof
  show "url_sent (dictionary_url (w @ CHR ''#'' # x)) = url_sent (dictionary_url w)"
  proof -
    have p: "CHR ''#'' \<notin> set ''http://localhost:3000/api/dictionary/en/''" by simp
    have dict: "url_sent (dictionary_url v) = ''http://localhost:3000/api/dictionary/en/'' @ url_sent v"
      for v unfolding dictionary_url_def by (rule url_sent_append_nohash [OF p])
    have "url_sent (w @ CHR ''#'' # x) = w"
      using url_sent_append_nohash [OF assms, of "CHR ''#'' # x"] by (simp add: url_sent_def)
    with url_sent_nohash [OF assms] show ?thesis by (simp only: dict)
  qed
next
  have sent: "url_sent (cambridge_audio_url u) = cambridge_audio_url u" for u
    using hash_not_in_encode [of u]
    by (simp add: cambridge_audio_url_def url_sent_nohash)
  have "length (encode_uri_component w) < length (encode_uri_component (w @ CHR ''#'' # x))"
    by (simp add: length_encode_append encode_uri_component_def encode_char_nonempty)
  then have "encode_uri_component (w @ CHR ''#'' # x) \<noteq> encode_uri_component w" by auto
  then show "url_sent (cambridge_audio_url (w @ CHR ''#'' # x)) \<noteq> url_sent (cambridge_audio_url w)"
    unfolding sent by (simp add: cambridge_audio_url_def)
qed

theorem dictionary_url_fragment_witness:
  "url_sent (dictionary_url ''c#'') = ''http://localhost:3000/api/dictionary/en/c'' \<and>
   url_sent (cambridge_audio_url ''c#'') \<noteq> url_sent (cambridge_audio_url ''c'')"
proof -
  have h: "CHR ''#'' \<notin> set ''c''" by simp
  from dictionary_url_fragment [OF h, of "[]"] show ?thesis
    by (simp add: url_sent_def dictionary_url_def)
qed


text \<open>
  C34. The Merriam-Webster URL (line 154) interpolates the term before the API key
  without encoding it: for a term with a \<open>#\<close> the key becomes part of the fragment,
  and the request is sent for the text before the \<open>#\<close> without any key, where a
  term without \<open>#\<close> sends the key.
\<close>

theorem mw_url_fragment_drops_key:
  assumes w: "CHR ''#'' \<notin> set w" and k: "CHR ''#'' \<notin> set (js_to_string key)"
  shows "url_sent (mw_url (w @ CHR ''#'' # x) key) = ''https://www.dictionaryapi.com/api/v3/references/collegiate/json/'' @ w \<and>
         url_sent (mw_url w key) = ''https://www.dictionaryapi.com/api/v3/references/collegiate/json/'' @ w @ ''?key='' @ js_to_string key"
proof -
  have p: "CHR ''#'' \<notin> set ''https://www.dictionaryapi.com/api/v3/references/collegiate/json/''" by simp
  have q: "CHR ''#'' \<notin> set ''?key=''" by simp
  have mw: "url_sent (mw_url v key) = ''https://www.dictionaryapi.com/api/v3/references/collegiate/json/'' @ url_sent (v @ ''?key='' @ js_to_string key)" for v
    unfolding mw_url_def by (rule url_sent_append_nohash [OF p])
  have "url_sent (w @ CHR ''#'' # x @ ''?key='' @ js_to_string key) = w"
    using url_sent_append_nohash [OF w, of "CHR ''#'' # x @ ''?key='' @ js_to_string key"]
    by (simp add: url_sent_def)
  moreover have "url_sent (w @ ''?key='' @ js_to_string key) = w @ ''?key='' @ js_to_string key"
    using w q k by (simp add: url_sent_nohash)
  ultimately show ?thesis by (simp only: mw append_assoc append_Cons)
qed

theorem mw_url_fragment_drops_key_witness:
  "url_sent (mw_url ''a#b'' (JStr ''K'')) = ''https://www.dictionaryapi.com/api/v3/references/collegiate/json/'' @ ''a'' \<and>
   url_sent (mw_url ''a'' (JStr ''K'')) = ''https://www.dictionaryapi.com/api/v3/references/collegiate/json/'' @ ''a?key=K''"
proof -
  have w: "CHR ''#'' \<notin> set ''a''" and k: "CHR ''#'' \<notin> set (js_to_string (JStr ''K''))" by simp_all
  from mw_url_fragment_drops_key [OF w k, of "''b''"] show ?thesis by simp
qed

end
