(* ===== verification/Interleaving.thy ===== *)
theory Interleaving
  imports Listener
begin

text \<open>
  The asynchronous structure of the listener of src/extension/background.js. A
  request is handled in two steps, as the code runs it: the synchronous part and
  the storage callbacks up to the creation of the promise (lines 91-161 and
  182-212), which read the store and issue the fetches, and the continuation of
  the promise (lines 163-175 and 214-225), which runs when the fetches settle,
  writes the cache and answers. Between the two, any other request may start or
  finish and the options page may change a setting; requests in flight settle in
  any order. The atomic handlers of \<open>Listener\<close> are the two steps run back to
  back.
\<close>

section \<open>Requests in flight\<close>

text \<open>
  A request waiting for its promise: the settings it read, the cache key it
  computed and what the promise settles with.
\<close>

datatype pending =
    PDefinition "(key \<times> jval) list" string "jval js"
  | PSentence "(key \<times> jval) list" string "jval js"

text \<open>The first step answers at once (\<open>Answered\<close>) or leaves a request in flight.\<close>

datatype stage = Answered "response option" | Waiting pending

text \<open>The first step of \<open>getDefinition\<close> (lines 91-161).\<close>

definition begin_definition :: "network \<Rightarrow> jval \<Rightarrow> world \<Rightarrow> world \<times> stage" where
  "begin_definition net message w =
     (case get message ''word'' of
        Inr (JStr s) \<Rightarrow>
          (let word = to_lower s;
               settings = storage_get (store w) definition_setting_keys;
               key = display_cache_key settings word;
               cached = storage_lookup (store w) key in
           if truthy cached then (w, Answered (Some (RSuccess cached (tts_flag settings))))
           else (case provider_request net settings word of
                   Inl r \<Rightarrow> (w, Answered (Some r))
                 | Inr (urls, result) \<Rightarrow>
                     (w\<lparr>fetched := fetched w @ urls\<rparr>, Waiting (PDefinition settings key result))))
      | _ \<Rightarrow> (w, Answered None))"

text \<open>The promise of \<open>translateSentence\<close> (lines 212-217).\<close>

definition translate_result :: "network \<Rightarrow> string \<Rightarrow> jval js" where
  "translate_result net url =
     js_bind (fetch_json net url) (\<lambda>data.
     js_bind (get data ''error'') (\<lambda>err.
     if truthy err then Inl (Thrown (js_to_string err)) else Inr data))"

text \<open>The first step of \<open>translateSentence\<close> (lines 182-212).\<close>

definition begin_translate :: "network \<Rightarrow> jval \<Rightarrow> world \<Rightarrow> world \<times> stage" where
  "begin_translate net message w =
     (case get message ''text'' of
        Inr sv \<Rightarrow>
          (let sentence = js_to_string sv;
               settings = storage_get (store w) [''targetLanguage'', ''ttsEnabled''];
               targetLanguage = prop_of settings ''targetLanguage'' in
           if \<not> truthy targetLanguage \<or> targetLanguage = JStr ''none''
           then (w, Answered (Some (RNoLanguage no_language_message)))
           else
             (let cacheKey = sentence_cache_key sentence targetLanguage;
                  cached = storage_lookup (store w) cacheKey in
              if truthy cached then (w, Answered (Some (RSuccess cached (tts_flag settings))))
              else
                (let url = translate_url sentence targetLanguage in
                 (w\<lparr>fetched := fetched w @ [url]\<rparr>,
                  Waiting (PSentence settings cacheKey (translate_result net url))))))
      | Inl e \<Rightarrow> (w, Answered None))"

text \<open>The dispatch of the listener (lines 91 and 182).\<close>

definition begin_message :: "network \<Rightarrow> jval \<Rightarrow> world \<Rightarrow> world \<times> stage" where
  "begin_message net message w =
     (case get message ''type'' of
        Inr (JStr t) \<Rightarrow>
          if t = ''getDefinition'' then begin_definition net message w
          else if t = ''translateSentence'' then begin_translate net message w
          else (w, Answered None)
      | _ \<Rightarrow> (w, Answered None))"

text \<open>The continuation of a settled promise (lines 163-175 and 214-225).\<close>

primrec complete_pending :: "world \<Rightarrow> pending \<Rightarrow> world \<times> response" where
  "complete_pending w (PDefinition settings key result) = finish_definition w settings key result"
| "complete_pending w (PSentence settings key result) =
     (case result of
        Inl e \<Rightarrow> (w, RError e)
      | Inr data \<Rightarrow> (w\<lparr>store := (store w)(key \<mapsto> data)\<rparr>, RSuccess data (tts_flag settings)))"

text \<open>The two steps back to back.\<close>

fun run_stage :: "world \<times> stage \<Rightarrow> world \<times> response option" where
  "run_stage (w, Answered r) = (w, r)"
| "run_stage (w, Waiting p) = (let (w', r) = complete_pending w p in (w', Some r))"

section \<open>The worker with requests in flight\<close>

record sys =
  sworld :: world
  inflight :: "pending list"
  answered :: "response list"

text \<open>A message arrives and its first step runs.\<close>

definition sys_message :: "network \<Rightarrow> jval \<Rightarrow> sys \<Rightarrow> sys" where
  "sys_message net m s =
     (case begin_message net m (sworld s) of
        (w', Answered r) \<Rightarrow> s\<lparr>sworld := w', answered := answered s @ (case r of None \<Rightarrow> [] | Some x \<Rightarrow> [x])\<rparr>
      | (w', Waiting p) \<Rightarrow> s\<lparr>sworld := w', inflight := inflight s @ [p]\<rparr>)"

text \<open>The promise of the \<open>i\<close>-th request in flight settles and its continuation runs.\<close>

definition sys_settle :: "nat \<Rightarrow> sys \<Rightarrow> sys" where
  "sys_settle i s =
     (let (w', r) = complete_pending (sworld s) (inflight s ! i) in
      s\<lparr>sworld := w', inflight := take i (inflight s) @ drop (Suc i) (inflight s), answered := answered s @ [r]\<rparr>)"

inductive sys_reach :: "sys \<Rightarrow> bool" where
  start: "set (map fst ss) \<subseteq> set definition_setting_keys \<Longrightarrow> valid_settings ss \<Longrightarrow>
     sys_reach \<lparr>sworld = \<lparr>store = map_of ss, fetched = []\<rparr>, inflight = [], answered = []\<rparr>"
| message: "sys_reach s \<Longrightarrow> sys_reach (sys_message net m s)"
| settle: "sys_reach s \<Longrightarrow> i < length (inflight s) \<Longrightarrow> sys_reach (sys_settle i s)"
| options: "sys_reach s \<Longrightarrow> k \<in> set definition_setting_keys \<Longrightarrow> pred_option (valid_setting k) ov \<Longrightarrow>
     sys_reach (s\<lparr>sworld := (sworld s)\<lparr>store := (store (sworld s))(k := ov)\<rparr>\<rparr>)"

text \<open>What a request in flight may write: the key of the settings it read.\<close>

fun pending_ok :: "pending \<Rightarrow> bool" where
  "pending_ok (PDefinition settings key result) =
     (valid_settings settings \<and> (\<exists>word. key = display_cache_key settings word))"
| "pending_ok (PSentence settings key result) =
     ((\<exists>sentence lang. key = sentence_cache_key sentence lang \<and> truthy lang \<and> lang \<noteq> JStr ''none'') \<and>
      (\<forall>data. result = Inr data \<longrightarrow> (\<exists>e. get data ''error'' = Inr e \<and> \<not> truthy e)))"

definition ex_net2 :: network where
  "ex_net2 = \<lparr>answer = (\<lambda>u. Json (JObj [(''word'', JStr ''run''),
     (''definition'', JArr [JObj [(''pos'', JStr ''verb''), (''text'', JStr ''go quickly'')]])])),
     settle = (\<lambda>u. 0)\<rparr>"

text \<open>
  Two lookups of \<open>run\<close> that both miss, the second answered by \<open>ex_net2\<close>; the
  second settles first.
\<close>

definition ex_race :: sys where
  "ex_race = sys_settle 1 (sys_message ex_net2 ex_msg (sys_message ex_net ex_msg \<lparr>sworld = \<lparr>store = map_of [], fetched = []\<rparr>, inflight = [], answered = []\<rparr>))"

section \<open>Facts about the two steps\<close>

lemma run_stage_begin_definition: "run_stage (begin_definition net m w) = get_definition net m w"
proof (cases "get m ''word''")
  case (Inl e)
  then show ?thesis by (simp add: begin_definition_def get_definition_def)
next
  case (Inr v)
  show ?thesis
  proof (cases v)
    case (JStr s)
    with Inr show ?thesis
      by (simp add: begin_definition_def get_definition_def Let_def prod.case_eq_if split: sum.split)
  qed (use Inr in \<open>simp_all add: begin_definition_def get_definition_def\<close>)
qed

lemma run_stage_begin_translate: "run_stage (begin_translate net m w) = translate_sentence net m w"
  by (cases "get m ''text''")
     (simp_all add: begin_translate_def translate_sentence_def translate_result_def Let_def split: sum.split)

lemma begin_definition_store:
  assumes "begin_definition net m w = (w', st)" and ok: "cache_ok w"
  shows "store w' = store w \<and> (\<forall>p. st = Waiting p \<longrightarrow> pending_ok p)"
proof (cases "\<exists>s. get m ''word'' = Inr (JStr s)")
  case False
  then have "begin_definition net m w = (w, Answered None)"
    by (cases "get m ''word''", simp add: begin_definition_def, rename_tac v, case_tac v)
       (simp_all add: begin_definition_def)
  with assms show ?thesis by auto
next
  case True
  then obtain s where s: "get m ''word'' = Inr (JStr s)" by blast
  show ?thesis
  proof (cases "truthy (storage_lookup (store w) (def_key w s))")
    case True
    with s assms show ?thesis by (auto simp: begin_definition_def Let_def)
  next
    case miss: False
    show ?thesis
    proof (cases "provider_request net (def_settings w) (to_lower s)")
      case (Inl r)
      with s miss assms show ?thesis by (auto simp: begin_definition_def Let_def)
    next
      case (Inr p)
      obtain urls result where "p = (urls, result)" by fastforce
      with Inr s miss assms valid_storage_get [OF ok] show ?thesis by (auto simp: begin_definition_def Let_def)
    qed
  qed
qed

lemma begin_translate_store:
  assumes "begin_translate net m w = (w', st)"
  shows "store w' = store w \<and> (\<forall>p. st = Waiting p \<longrightarrow> pending_ok p)"
proof (cases "get m ''text''")
  case (Inl e)
  with assms show ?thesis by (auto simp: begin_translate_def)
next
  case (Inr sv)
  let ?tl = "storage_lookup (store w) ''targetLanguage''"
  let ?key = "sentence_cache_key (js_to_string sv) ?tl"
  have res: "\<forall>data. translate_result net u = Inr data \<longrightarrow> (\<exists>e. get data ''error'' = Inr e \<and> \<not> truthy e)" for u
    by (auto simp: translate_result_def split: if_splits elim!: js_bind_InrE)
  show ?thesis
  proof (cases "truthy ?tl \<and> ?tl \<noteq> JStr ''none''")
    case False
    with Inr assms show ?thesis by (auto simp: begin_translate_def)
  next
    case lang: True
    show ?thesis
    proof (cases "truthy (storage_lookup (store w) ?key)")
      case True
      with Inr lang assms show ?thesis by (auto simp: begin_translate_def)
    next
      case False
      from lang have lk: "\<exists>sentence lang. ?key = sentence_cache_key sentence lang \<and> truthy lang \<and> lang \<noteq> JStr ''none''"
        by blast
      from False Inr lang assms have "store w' = store w \<and>
        st = Waiting (PSentence (storage_get (store w) [''targetLanguage'', ''ttsEnabled'']) ?key
                                 (translate_result net (translate_url (js_to_string sv) ?tl)))"
        by (auto simp: begin_translate_def Let_def)
      with lk res show ?thesis by simp
    qed
  qed
qed

lemma begin_message_dispatch:
  "get m ''type'' = Inr (JStr ''getDefinition'') \<Longrightarrow> begin_message net m w = begin_definition net m w"
  "get m ''type'' = Inr (JStr ''translateSentence'') \<Longrightarrow> begin_message net m w = begin_translate net m w"
  "get m ''type'' \<noteq> Inr (JStr ''getDefinition'') \<Longrightarrow> get m ''type'' \<noteq> Inr (JStr ''translateSentence'') \<Longrightarrow>
     begin_message net m w = (w, Answered None)"
  by (auto simp: begin_message_def split: sum.split jval.split)

lemma begin_message_store:
  assumes "begin_message net m w = (w', st)" and ok: "cache_ok w"
  shows "store w' = store w \<and> (\<forall>p. st = Waiting p \<longrightarrow> pending_ok p)"
proof -
  consider (gd) "get m ''type'' = Inr (JStr ''getDefinition'')"
    | (ts) "get m ''type'' = Inr (JStr ''translateSentence'')"
    | (other) "get m ''type'' \<noteq> Inr (JStr ''getDefinition'')" "get m ''type'' \<noteq> Inr (JStr ''translateSentence'')"
    by blast
  then show ?thesis
  proof cases
    case gd
    with assms show ?thesis using begin_definition_store [OF _ ok] by (simp add: begin_message_dispatch(1))
  next
    case ts
    with assms show ?thesis by (simp add: begin_message_dispatch(2) begin_translate_store)
  next
    case other
    with assms show ?thesis by (auto simp: begin_message_dispatch(3))
  qed
qed

lemma complete_pending_store:
  assumes "pending_ok p" and "complete_pending w p = (w', r)"
  shows "store w' = store w \<or> (\<exists>k d. store w' = (store w)(k \<mapsto> d) \<and> (lexical_entry k d \<or> sentence_entry k d))"
proof (cases p)
  case (PDefinition settings key result)
  with assms obtain word where key: "key = display_cache_key settings word" and v: "valid_settings settings" by auto
  from assms(2) PDefinition have "finish_definition w settings key result = (w', r)" by simp
  from finish_definition_cases [OF this] consider "w' = w"
    | full d where "store w' = (store w)(key \<mapsto> d)" "apply_display_preferences full settings = Inr d"
    by auto
  then show ?thesis
  proof cases
    case 1
    then show ?thesis by simp
  next
    case 2
    then have "lexical_entry key d" unfolding lexical_entry_def using key v by blast
    with 2 show ?thesis by blast
  qed
next
  case (PSentence settings key result)
  show ?thesis
  proof (cases result)
    case (Inl e)
    with PSentence assms(2) show ?thesis by auto
  next
    case (Inr data)
    with PSentence assms obtain sentence lang e where
      "key = sentence_cache_key sentence lang" "truthy lang" "lang \<noteq> JStr ''none''"
      "get data ''error'' = Inr e" "\<not> truthy e" by auto
    then have "sentence_entry key data" unfolding sentence_entry_def by blast
    moreover from PSentence Inr assms(2) have "store w' = (store w)(key \<mapsto> data)" by auto
    ultimately show ?thesis by blast
  qed
qed

lemma sys_reach_ok:
  "sys_reach s \<Longrightarrow> cache_ok (sworld s) \<and> (\<forall>p\<in>set (inflight s). pending_ok p)"
proof (induction rule: sys_reach.induct)
  case (start ss)
  then show ?case by (simp add: cache_ok_start)
next
  case (message s net m)
  obtain w' st where b: "begin_message net m (sworld s) = (w', st)" by fastforce
  from begin_message_store [OF b conjunct1 [OF message.IH]] have "store w' = store (sworld s)" "\<forall>p. st = Waiting p \<longrightarrow> pending_ok p"
    by auto
  moreover from message.IH this(1) have "cache_ok w'" by (auto intro: cache_ok_write)
  ultimately show ?case using message.IH b by (cases st) (auto simp: sys_message_def)
next
  case (settle s i)
  obtain w' r where c: "complete_pending (sworld s) (inflight s ! i) = (w', r)" by fastforce
  from settle.IH settle.hyps(2) have "pending_ok (inflight s ! i)" by simp
  from cache_ok_write [OF conjunct1 [OF settle.IH] complete_pending_store [OF this c]]
  have "cache_ok w'" .
  moreover have "set (take i (inflight s) @ drop (Suc i) (inflight s)) \<subseteq> set (inflight s)"
    by (auto dest: in_set_takeD in_set_dropD)
  ultimately show ?case using settle.IH c by (auto simp: sys_settle_def)
next
  case (options s k ov)
  then show ?case by (simp add: cache_ok_setting)
qed

lemma sys_settle_definition:
  assumes "inflight s ! i = PDefinition settings key (Inr full)" and "truthy full"
    and "get full ''word'' = Inr fw" and "truthy fw" and "apply_display_preferences full settings = Inr d"
  shows "store (sworld (sys_settle i s)) = (store (sworld s))(key \<mapsto> d) \<and>
         answered (sys_settle i s) = answered s @ [RSuccess d (tts_flag settings)]"
  using assms by (simp add: sys_settle_def finish_definition_def)

section \<open>Properties of the asynchronous listener\<close>

text \<open>
  Run back to back, the first step of a message and the continuation of its
  promise are the atomic handler of \<open>Listener\<close>: the asynchronous model refines
  the handler every property of \<open>Listener\<close> is proved for.
\<close>

theorem run_stage_begin_message: "run_stage (begin_message net m w) = handle_message net m w"
  by (simp add: begin_message_def handle_message_def run_stage_begin_definition run_stage_begin_translate
           split: sum.split jval.split)

text \<open>
  C35. Whatever the interleaving (requests started, promises settled in any
  order, settings changed between a request's lookup and its continuation), every
  value in the store is a valid setting, a projection under the key of the valid
  settings it was projected with, or an error-free translation under a sentence
  key; so the entry under the key of any valid settings is a projection under
  exactly those settings, although the settings in the store may have changed
  since the request read them.
\<close>

theorem sys_reach_cache_ok:
  "sys_reach s \<Longrightarrow>
     cache_ok (sworld s) \<and>
     (\<forall>st word v. valid_settings st \<longrightarrow> store (sworld s) (display_cache_key st word) = Some v \<longrightarrow>
        (\<exists>full. apply_display_preferences full st = Inr v))"
  using sys_reach_ok cache_ok_projection by blast

theorem sys_reach_cache_ok_witness:
  "store (sworld (sys_settle 0 (sys_message ex_net ex_msg \<lparr>sworld = \<lparr>store = map_of [], fetched = []\<rparr>, inflight = [], answered = []\<rparr>))) ''qdp_cambridge_run_undefined_undefined_none'' = Some (JObj [(''word'', JStr ''run''), (''definition'', JArr [JObj [(''pos'', JStr ''verb''), (''text'', JStr ''move fast''), (''example'', JArr [JStr ''a''])]])]) \<and>
   (\<exists>full. apply_display_preferences full [] = Inr (JObj [(''word'', JStr ''run''), (''definition'', JArr [JObj [(''pos'', JStr ''verb''), (''text'', JStr ''move fast''), (''example'', JArr [JStr ''a''])]])]))"
proof -
  have r0: "sys_reach (\<lparr>sworld = \<lparr>store = map_of [], fetched = []\<rparr>, inflight = [], answered = []\<rparr>)" by (rule sys_reach.start) (simp_all add: valid_settings_def)
  have r1: "sys_reach (sys_message ex_net ex_msg (\<lparr>sworld = \<lparr>store = map_of [], fetched = []\<rparr>, inflight = [], answered = []\<rparr>))" by (rule sys_reach.message [OF r0])
  have l: "0 < length (inflight (sys_message ex_net ex_msg (\<lparr>sworld = \<lparr>store = map_of [], fetched = []\<rparr>, inflight = [], answered = []\<rparr>)))" by code_simp
  have r2: "sys_reach (sys_settle 0 (sys_message ex_net ex_msg (\<lparr>sworld = \<lparr>store = map_of [], fetched = []\<rparr>, inflight = [], answered = []\<rparr>)))" by (rule sys_reach.settle [OF r1 l])
  have st: "store (sworld (sys_settle 0 (sys_message ex_net ex_msg (\<lparr>sworld = \<lparr>store = map_of [], fetched = []\<rparr>, inflight = [], answered = []\<rparr>)))) ''qdp_cambridge_run_undefined_undefined_none'' = Some (JObj [(''word'', JStr ''run''), (''definition'', JArr [JObj [(''pos'', JStr ''verb''), (''text'', JStr ''move fast''), (''example'', JArr [JStr ''a''])]])])" by code_simp
  have k: "display_cache_key [] ''run'' = ''qdp_cambridge_run_undefined_undefined_none''" by code_simp
  have v: "valid_settings []" by (simp add: valid_settings_def)
  from sys_reach_cache_ok [OF r2] v st k show ?thesis by metis
qed

text \<open>
  C36. The continuation of a definition request writes its projection under its key
  whatever the store holds by then (lines 163-175 write unconditionally), and sends
  it. So the cache keeps the answer that settles last, not the newest one: when a
  later request for the same term has settled first, the older answer overwrites
  its entry (the witness: two misses for \<open>run\<close> fetch twice, and the earlier
  request, settling last, replaces the later entry).
\<close>

theorem last_settled_overwrites:
  assumes "i < length (inflight s)" and "inflight s ! i = PDefinition settings key (Inr full)"
    and "truthy full" and "get full ''word'' = Inr fw" and "truthy fw"
    and "apply_display_preferences full settings = Inr d"
  shows "store (sworld (sys_settle i s)) key = Some d \<and>
         (\<forall>k. k \<noteq> key \<longrightarrow> store (sworld (sys_settle i s)) k = store (sworld s) k) \<and>
         answered (sys_settle i s) = answered s @ [RSuccess d (tts_flag settings)] \<and>
         length (inflight (sys_settle i s)) = length (inflight s) - 1"
  using sys_settle_definition [OF assms(2-6)] assms(1)
  by (simp add: sys_settle_def split: prod.split)

theorem last_settled_overwrites_witness:
  "store (sworld ex_race) ''qdp_cambridge_run_undefined_undefined_none'' =
     Some (JObj [(''word'', JStr ''run''), (''definition'', JArr [JObj [(''pos'', JStr ''verb''), (''text'', JStr ''go quickly'')]])]) \<and>
   store (sworld (sys_settle 0 ex_race)) ''qdp_cambridge_run_undefined_undefined_none'' =
     Some (JObj [(''word'', JStr ''run''), (''definition'', JArr [JObj [(''pos'', JStr ''verb''), (''text'', JStr ''move fast''), (''example'', JArr [JStr ''a''])]])]) \<and>
   fetched (sworld ex_race) =
     [''http://localhost:3000/api/dictionary/en/run'', ''http://localhost:3000/api/dictionary/en/run'']"
proof -
  have l: "0 < length (inflight ex_race)" by code_simp
  have p: "inflight ex_race ! 0 = PDefinition [] ''qdp_cambridge_run_undefined_undefined_none'' (Inr ex_payload)"
    by code_simp
  have t: "truthy ex_payload" by (simp add: ex_payload_def)
  have g: "get ex_payload ''word'' = Inr (JStr ''run'')" by code_simp
  have tw: "truthy (JStr ''run'')" by simp
  have a: "apply_display_preferences ex_payload [] =
     Inr (JObj [(''word'', JStr ''run''), (''definition'', JArr [JObj [(''pos'', JStr ''verb''), (''text'', JStr ''move fast''), (''example'', JArr [JStr ''a''])]])])"
    by code_simp
  have before: "store (sworld ex_race) ''qdp_cambridge_run_undefined_undefined_none'' =
     Some (JObj [(''word'', JStr ''run''), (''definition'', JArr [JObj [(''pos'', JStr ''verb''), (''text'', JStr ''go quickly'')]])]) \<and>
   fetched (sworld ex_race) =
     [''http://localhost:3000/api/dictionary/en/run'', ''http://localhost:3000/api/dictionary/en/run'']"
    by code_simp
  from last_settled_overwrites [OF l p t g tw a] before show ?thesis by simp
qed

end
