(* ===== verification/Spec2Isabelle.thy ===== *)
theory Spec2Isabelle
  imports Interleaving
begin

text \<open>
  \<^bold>\<open>Quick Definition: a verification model of the background service worker.\<close>

  The program (src/extension/background.js) answers two messages of the content
  script. \<open>getDefinition\<close> reads the user's settings from \<open>chrome.storage.local\<close>,
  derives a cache key from the provider, the lower-cased word and the display
  settings, answers from the cache on a hit, and otherwise fetches the word from
  one provider (Merriam-Webster, a local Gemini proxy, or a local Cambridge proxy),
  normalises the provider's payload into one entry shape (\<open>normalizeMwData\<close>,
  \<open>normalizeGeminiData\<close>, or the Cambridge payload as it is), trims it to the display
  preferences (\<open>applyDisplayPreferences\<close>), stores the trimmed entry under the key
  and answers with it. \<open>translateSentence\<close> caches sentence translations under a key
  built from a percent-encoding of the sentence.

  \<^bold>\<open>Theories.\<close>
  \<^item> \<open>Prelude\<close>: named theorem collections, the association-list operations that
    model JavaScript objects (\<open>put_prop\<close> is property assignment), and the
    splitting of delimiter-joined strings the key proofs share.
  \<^item> \<open>JS_Value\<close>: the JavaScript values the worker handles (\<open>jval\<close>), errors as
    values (\<open>js_error + 'a\<close>), property access that throws on \<open>undefined\<close> and
    \<open>null\<close>, truthiness, \<open>||\<close>, \<open>typeof\<close>, \<open>String()\<close>, numeric conversion and
    comparison, and the array and string methods the code calls (\<open>map\<close>, \<open>find\<close>,
    \<open>slice\<close>, spread, \<open>startsWith\<close>, \<open>split\<close>, \<open>replace\<close>, \<open>toLowerCase\<close>).
  \<^item> \<open>Entry\<close>: the canonical entry of the specification (section 3) as typed records,
    and \<open>entry_json\<close>, the JSON object the code represents it by.
  \<^item> \<open>Projection\<close>: \<open>applyDisplayPreferences\<close> (lines 67-86) as
    \<open>apply_display_preferences\<close> with the callback \<open>trim_examples\<close> (lines 77-83),
    and the abstract projection \<open>project\<close> of the specification (section 4.2).
  \<^item> \<open>Gemini\<close>: \<open>normalizeGeminiData\<close> (lines 38-63) as \<open>normalize_gemini_data\<close> with
    its callbacks \<open>gemini_form\<close> and \<open>gemini_example\<close>, and typed payloads
    (\<open>gpayload\<close>) with the typed adapter \<open>adapt_gemini\<close> of section 4.1.
  \<^item> \<open>MW\<close>: \<open>normalizeMwData\<close> (lines 16-36) as \<open>normalize_mw_data\<close>, with the
    pronunciation and audio bucket rule (\<open>mw_pronunciation\<close>, \<open>mw_audio_subdir\<close>),
    the two example strategies (\<open>mw_examples\<close>, \<open>mw_vis_example\<close> inside
    \<open>try_catch\<close>) and their guards.
  \<^item> \<open>Cache_Key\<close>: the lexical key of line 98 (\<open>display_cache_key\<close>), the sentence
    key of lines 195-198 (\<open>sentence_cache_key\<close>) with \<open>encodeURIComponent\<close> and the
    escape of \<open>! ' ( ) *\<close> (\<open>sentence_encode\<close>), and the percent-decoding the
    specification's encoding promises (\<open>decode_uri_component\<close>).
  \<^item> \<open>Listener\<close>: the message listener (lines 90-231): \<open>get_definition\<close>,
    \<open>translate_sentence\<close> and \<open>handle_message\<close> over a \<open>world\<close> (the store, a map
    from keys to JSON values shared by settings and cache, and the URLs fetched so
    far) and a \<open>network\<close> (what each URL answers and when it settles); the provider
    branch \<open>provider_request\<close> with the Gemini audio enrichment
    (\<open>enrich_pronunciation\<close>, \<open>promise_all2\<close>), the continuation
    \<open>finish_definition\<close>, and \<open>reachable\<close>, the worlds reached by any interleaving of
    handled messages and settings writes. The options page is not under src/: the
    values it stores are \<open>valid_setting\<close>, taken from the specification (a provider
    among the three, scope \<open>relevant\<close> or \<open>all\<close>, a non-negative integer count, a
    language tag without the key delimiter).
  \<^item> \<open>Interleaving\<close>: the asynchrony of the listener. A request is its two steps
    as the code runs them: \<open>begin_definition\<close> (lines 91-161) and \<open>begin_translate\<close>
    (lines 182-212), dispatched by \<open>begin_message\<close>, read the store and issue the
    fetches, leaving a \<open>pending\<close> request with the settings it read, its key and what
    its promise settles with (\<open>translate_result\<close>, lines 212-217); \<open>complete_pending\<close>
    is the continuation (lines 163-175 and 214-225). A \<open>sys\<close> state adds the requests
    in flight and the responses sent; \<open>sys_message\<close> starts a request,
    \<open>sys_settle i\<close> runs the continuation of the \<open>i\<close>-th request in flight, and
    \<open>sys_reach\<close> closes under both and settings writes, in any order.

  \<^bold>\<open>What is proved.\<close>
  Projection (C1-C7): it refines the abstract projection on canonical entries, is
  idempotent for non-negative counts, keeps at most one definition under the
  relevant scope, bounds the examples, never adds anything, and defaults an absent
  count to one; for every negative count, re-projecting drops more examples (C7).
  Gemini adapter (C8-C11): refinement of the typed adapter on documented payloads,
  the exact \<open>null\<close> condition, the throw on a form without definitions, and the
  shape of every entry it returns. The audio enrichment of a Gemini entry changes
  only the first pronunciation's \<open>url\<close> and, when empty, its \<open>pron\<close> (C12, in
  \<open>Listener\<close>).
  Merriam-Webster adapter (C13-C20): the audio bucket is the specification's rule
  (\<open>spec_audio_bucket\<close>) and reads three characters (C13), the definition fallback,
  the output shape, the exact \<open>null\<close> condition, and the paths that throw or
  swallow, a leading \<open>null\<close> record among them (C19). \<open>MW\<close> also checks the bucket
  examples of the specification, the definition text, the headword, the vis
  extraction and the single pass of markup removal.
  Cache keys (C21-C25): the sentence encoding round-trips and escapes the five
  characters, both key families are injective under the stated delimiter
  conditions, and default settings are cached under a second key; \<open>Cache_Key\<close> also
  shows the two families disjoint, and that the scope, count and language fields
  split off from the right (\<open>display_cache_key_tail\<close>).
  Listener (C26-C34, C37): in every reachable world the entry under the key of any
  valid settings is a projection under exactly those settings (C26): valid values
  render injectively (\<open>nat_str_inj\<close>, \<open>valid_key_tail_inj\<close>), so the key fixes the
  scope and count it was projected with, and no translation shares such a key. A
  successful miss answers and stores the projection of what the selected provider's
  request settled with, having fetched exactly that provider's URLs (C27); hits, the
  missing API key, phrases and a failed enrichment fetch behave as stated
  (C28-C31); exactly the well-formed requests (\<open>answers\<close>) get one response on every
  path (C32); a \<open>#\<close> in the term truncates the default provider's request, not the
  encoded enrichment request (C33), and makes the Merriam-Webster request go
  without its API key (C34), with \<open>url_sent\<close> the part of a URL a request sends;
  the phrase test is equivalent to a plain characterisation (C37).
  Interleaving (C35-C36): the cache invariant of C26 holds under every
  interleaving, settings changed between a request's lookup and its write included
  (C35): the continuation projects with the settings the request read and writes
  under the key they render. The continuation writes unconditionally, so the cache
  keeps the answer that settles last, and an older answer overwrites a newer one
  (C36). The two steps run back to back are the atomic handler
  (\<open>run_stage_begin_message\<close>).

  \<^bold>\<open>Approximations.\<close>
  Numbers are integers, strings are byte lists (ASCII case and space classes; a
  character is one byte of the UTF-8 encoding where \<open>encodeURIComponent\<close> is
  concerned), and the numeric conversion of arrays and objects is NaN; the program
  reads only counts, lengths and identifiers, where these agree with JavaScript.
  Engine error messages are the constructors of \<open>js_error\<close>. A network fixes
  each URL's answer, so the two fetches of one request settle together as the
  promise of \<open>Promise.all\<close> does; \<open>sys_settle\<close> picks which request settles next,
  which covers every order of settlement. \<open>reachable\<close> (in \<open>Listener\<close>) runs a
  request as one step; \<open>sys_reach\<close> (in \<open>Interleaving\<close>) splits it where the code
  yields to the event loop. The two nested storage callbacks of a request (the
  settings read and the cache read) are one step: a write by another request
  between them is not interleaved; both only read, and the invariant C35 does
  not depend on which store they read. \<open>to_num\<close> reads a string as an integer
  only when it is an optional sign and digits, and arrays as NaN: JavaScript reads
  \<open>" -1"\<close> and \<open>[-1]\<close> as \<open>-1\<close>, so for such counts C2 assumes more than the code
  guarantees (the options page stores numbers, C26). Strings of bytes cannot hold a
  lone UTF-16 surrogate, so the \<open>URIError\<close> that \<open>encodeURIComponent\<close> throws on one
  (lines 111, 130, 195, 208), which would leave that request without a response,
  is outside the model and C32.

  \<^bold>\<open>Not modelled.\<close> Console logging (no effect on state or responses); the
  content script and audio playback (not in src/, out of the specification's
  scope); the options page beyond the values it stores (\<open>valid_setting\<close>); the transport and the storage engine beyond their
  boundary (a URL's answer and settle time, get and set by key).

  \<^bold>\<open>Scope.\<close> The code of src/ is modelled throughout: every function and every
  callback of background.js is a definition of the development, and what is left
  is outside the program (the transport, the storage engine, the extension pages).
\<close>

end
